theory Spec2Isabelle
  imports Complex_Main
begin

section \<open>Autoregressive observation models (ssm/observations/arhmm.py)\<close>

text \<open>
  A shallow embedding of the observation classes of \<^verbatim>\<open>arhmm.py\<close>.

  Arrays are nested lists in row-major order: a \<open>(T, D)\<close> array is a list of \<open>T\<close> rows of
  length \<open>D\<close>, a \<open>(K, D, P)\<close> array a list of \<open>K\<close> such matrices. Array entries are real
  numbers and the arithmetic is exact: the rounding of floating point is not part of the
  model. The places where numpy would leave the finite range (a division by zero) are
  written out as the outcome \<open>NonFinite\<close>.

  numpy checks shapes at run time. The definitions below follow the source on arrays of
  the shapes its comments give; the theorems state those shapes as hypotheses.
\<close>

type_synonym vec = "real list"
type_synonym mat = "real list list"
type_synonym arr3 = "real list list list"

subsection \<open>Errors and outcomes\<close>

text \<open>
  \<open>MissingData\<close> stands for the two ways the source rejects an incomplete mask: the
  \<^verbatim>\<open>assert np.all(mask), "Cannot compute likelihood ... with missing data."\<close> of the
  likelihoods and the \<^verbatim>\<open>raise Exception("Encountered missing data ...")\<close> of the M-steps.
  \<open>AssertionError\<close> is any other failed \<^verbatim>\<open>assert\<close>. \<open>NonFinite\<close> is not a Python
  exception: it marks a run in which numpy divides by zero and goes on with \<open>nan\<close> or
  \<open>inf\<close> entries, which the real-number model does not follow.
\<close>

datatype error =
    MissingData
  | AssertionError
  | LinAlgError
  | ValueError
  | IndexError
  | AttributeError
  | NotImplementedError
  | TypeError
  | NonFinite

text \<open>A method that mutates \<^verbatim>\<open>self\<close> returns the new object, or raises and leaves the
  object as it was at the moment of the raise.\<close>

datatype 's outcome = Returned 's | Raised error 's

fun and_then :: "'s outcome \<Rightarrow> ('s \<Rightarrow> 's outcome) \<Rightarrow> 's outcome" where
  "and_then (Returned s) f = f s"
| "and_then (Raised e s) f = Raised e s"

fun is_Returned :: "'s outcome \<Rightarrow> bool" where
  "is_Returned (Returned s) = True"
| "is_Returned (Raised e s) = False"

fun raised :: "'s outcome \<Rightarrow> error option" where
  "raised (Returned s) = None"
| "raised (Raised e s) = Some e"

fun final_state :: "'s outcome \<Rightarrow> 's" where
  "final_state (Returned s) = s"
| "final_state (Raised e s) = s"

subsection \<open>The classes and their attributes\<close>

text \<open>
  The class of an object decides which method body runs. The two \<^verbatim>\<open>NoInput\<close> classes
  only fix \<open>M = 0\<close> in the constructor and inherit every method, so they are the classes
  \<open>AutoRegressiveObservations\<close> and \<open>RobustAutoRegressiveObservations\<close> with \<open>M = 0\<close>.
\<close>

datatype cls =
    AutoRegressiveObservations
  | AutoRegressiveDiagonalNoiseObservations
  | IndependentAutoRegressiveObservations
  | RobustAutoRegressiveObservations
  | RobustAutoRegressiveDiagonalNoiseObservations
  | AltRobustAutoRegressiveDiagonalNoiseObservations

text \<open>
  The instance attributes of the class family. The private attributes lose their leading
  underscore; \<^verbatim>\<open>_As\<close> is \<open>As_stored\<close>, since \<open>As\<close> is the property. The attribute
  \<^verbatim>\<open>_log_nus\<close> is a \<open>K\<close>-vector in the classes built on the robust mixin and a
  \<open>(K, D)\<close> array in \<open>AltRobustAutoRegressiveDiagonalNoiseObservations\<close>: \<open>log_nus\<close> and
  \<open>log_nus_kd\<close>. A class reads and writes only the attributes its constructor keeps.
  No class of the file ever assigns an attribute \<^verbatim>\<open>inv_nus\<close>.
\<close>

record obs =
  K :: nat
  D :: nat
  M :: nat
  lags :: nat
  mu_init :: mat
  As_stored :: arr3
  bs :: mat
  Vs :: arr3
  sqrt_Sigmas_init :: arr3
  sqrt_Sigmas :: arr3
  log_sigmasq_init :: mat
  log_sigmasq :: mat
  log_nus :: vec
  log_nus_kd :: mat
  l2_penalty_A :: real
  l2_penalty_b :: real
  l2_penalty_V :: real

subsection \<open>Array helpers\<close>

definition dot :: "vec \<Rightarrow> vec \<Rightarrow> real" where
  "dot u v = sum_list (map2 (*) u v)"

definition vadd :: "vec \<Rightarrow> vec \<Rightarrow> vec" where
  "vadd u v = map2 (+) u v"

definition madd :: "mat \<Rightarrow> mat \<Rightarrow> mat" where
  "madd A B = map2 vadd A B"

text \<open>\<^verbatim>\<open>np.dot(X, B.T)\<close> for \<open>X\<close> of shape \<open>(T, P)\<close> and \<open>B\<close> of shape \<open>(n, P)\<close>.\<close>

definition matmul_T :: "mat \<Rightarrow> mat \<Rightarrow> mat" where
  "matmul_T X B = map (\<lambda>x. map (dot x) B) X"

text \<open>\<^verbatim>\<open>np.swapaxes(a, 0, 1)\<close> on an array whose first two axes are the two list levels;
  \<^verbatim>\<open>np.column_stack\<close> of a list of equally long vectors is the same rearrangement.\<close>

definition swapaxes01 :: "'a list list \<Rightarrow> 'a list list" where
  "swapaxes01 xs = (case xs of [] \<Rightarrow> [] | r # _ \<Rightarrow> map (\<lambda>t. map (\<lambda>q. q ! t) xs) [0..<length r])"

text \<open>\<^verbatim>\<open>data[lags-l-1:-l-1]\<close>: a negative stop counts from the end and is clamped at 0.\<close>

definition lagged :: "nat \<Rightarrow> nat \<Rightarrow> 'a list \<Rightarrow> 'a list" where
  "lagged L l xs = drop (L - l - 1) (take (length xs - (l + 1)) xs)"

text \<open>The second entry of \<^verbatim>\<open>data.shape\<close>. A nested list with no row does not record it;
  every use below is on rows of the array, of which there are then none.\<close>

definition ncols :: "'a list list \<Rightarrow> nat" where
  "ncols xs = (case xs of [] \<Rightarrow> 0 | r # _ \<Rightarrow> length r)"

text \<open>\<^verbatim>\<open>a[perm]\<close> with an integer index array: the rows of \<open>a\<close> in the order of \<open>perm\<close>,
  \<^verbatim>\<open>IndexError\<close> when an index is out of bounds.\<close>

definition index_by :: "'a list \<Rightarrow> nat list \<Rightarrow> error + 'a list" where
  "index_by xs perm =
     (if list_all (\<lambda>i. i < length xs) perm then Inr (map (nth xs) perm) else Inl IndexError)"

subsection \<open>The property \<open>As\<close>\<close>

text \<open>
  The base class returns \<^verbatim>\<open>self._As\<close>. \<open>IndependentAutoRegressiveObservations\<close> stores
  a \<open>(K, D, lags)\<close> array of per-dimension coefficients and builds the dense
  \<open>(K, D, D * lags)\<close> array on every read:
  \<^verbatim>\<open>np.column_stack([np.diag(Ak[:,l]) for l in range(self.lags)])\<close>.
  Its setter raises \<^verbatim>\<open>NotImplementedError\<close>.
\<close>

definition dense_of :: "nat \<Rightarrow> mat \<Rightarrow> mat" where
  "dense_of L Ak =
     map (\<lambda>d. concat (map (\<lambda>l. map (\<lambda>j. if j = d then Ak ! d ! l else 0) [0..<length Ak]) [0..<L]))
       [0..<length Ak]"

definition As :: "cls \<Rightarrow> obs \<Rightarrow> arr3" where
  "As c st =
     (if c = IndependentAutoRegressiveObservations
      then map (dense_of (lags st)) (As_stored st)
      else As_stored st)"

definition set_As :: "cls \<Rightarrow> arr3 \<Rightarrow> obs \<Rightarrow> obs outcome" where
  "set_As c v st =
     (if c = IndependentAutoRegressiveObservations
      then Raised NotImplementedError st
      else Returned (st\<lparr>As_stored := v\<rparr>))"

subsection \<open>\<open>permute\<close>\<close>

definition permute_attr ::
  "(obs \<Rightarrow> 'a list) \<Rightarrow> (('a list \<Rightarrow> 'a list) \<Rightarrow> obs \<Rightarrow> obs) \<Rightarrow> nat list \<Rightarrow> obs \<Rightarrow> obs outcome" where
  "permute_attr get upd perm st =
     (case index_by (get st) perm of
        Inl e \<Rightarrow> Raised e st
      | Inr v \<Rightarrow> Returned (upd (\<lambda>_. v) st))"

text \<open>\<^verbatim>\<open>_AutoRegressiveObservationsBase.permute\<close>; \<^verbatim>\<open>self.As = self.As[perm]\<close> goes
  through the property of the object's class.\<close>

definition base_permute :: "cls \<Rightarrow> nat list \<Rightarrow> obs \<Rightarrow> obs outcome" where
  "base_permute c perm st =
     and_then (and_then (and_then
       (permute_attr mu_init mu_init_update perm st)
       (\<lambda>s. case index_by (As c s) perm of Inl e \<Rightarrow> Raised e s | Inr v \<Rightarrow> set_As c v s))
       (permute_attr bs bs_update perm))
       (permute_attr Vs Vs_update perm)"

text \<open>\<^verbatim>\<open>AutoRegressiveObservations.permute\<close>.\<close>

definition ar_permute :: "cls \<Rightarrow> nat list \<Rightarrow> obs \<Rightarrow> obs outcome" where
  "ar_permute c perm st =
     and_then (base_permute c perm st) (permute_attr sqrt_Sigmas sqrt_Sigmas_update perm)"

text \<open>\<^verbatim>\<open>AutoRegressiveDiagonalNoiseObservations.permute\<close>, which calls the base class's
  \<open>permute\<close>, not \<open>ar_permute\<close>.\<close>

definition diag_permute :: "cls \<Rightarrow> nat list \<Rightarrow> obs \<Rightarrow> obs outcome" where
  "diag_permute c perm st =
     and_then (and_then (base_permute c perm st)
       (permute_attr log_sigmasq_init log_sigmasq_init_update perm))
       (permute_attr log_sigmasq log_sigmasq_update perm)"

text \<open>\<^verbatim>\<open>IndependentAutoRegressiveObservations.permute\<close> works on the stored attributes.\<close>

definition indep_permute :: "nat list \<Rightarrow> obs \<Rightarrow> obs outcome" where
  "indep_permute perm st =
     and_then (and_then (and_then (and_then (and_then
       (permute_attr mu_init mu_init_update perm st)
       (permute_attr As_stored As_stored_update perm))
       (permute_attr bs bs_update perm))
       (permute_attr Vs Vs_update perm))
       (permute_attr log_sigmasq_init log_sigmasq_init_update perm))
       (permute_attr log_sigmasq log_sigmasq_update perm)"

text \<open>
  The method each class runs. The robust mixin calls the next \<open>permute\<close> in the method
  resolution order and then permutes \<^verbatim>\<open>_log_nus\<close>. The Alt class calls the diagonal
  class's \<open>permute\<close> and then evaluates \<^verbatim>\<open>self.inv_nus[perm]\<close>: the attribute does not
  exist, so the read raises \<^verbatim>\<open>AttributeError\<close>.
\<close>

definition permute :: "cls \<Rightarrow> nat list \<Rightarrow> obs \<Rightarrow> obs outcome" where
  "permute c perm st =
     (case c of
        AutoRegressiveObservations \<Rightarrow> ar_permute c perm st
      | AutoRegressiveDiagonalNoiseObservations \<Rightarrow> diag_permute c perm st
      | IndependentAutoRegressiveObservations \<Rightarrow> indep_permute perm st
      | RobustAutoRegressiveObservations \<Rightarrow>
          and_then (ar_permute c perm st) (permute_attr log_nus log_nus_update perm)
      | RobustAutoRegressiveDiagonalNoiseObservations \<Rightarrow>
          and_then (diag_permute c perm st) (permute_attr log_nus log_nus_update perm)
      | AltRobustAutoRegressiveDiagonalNoiseObservations \<Rightarrow>
          and_then (diag_permute c perm st) (\<lambda>s. Raised AttributeError s))"

subsection \<open>Library routines\<close>

text \<open>
  The routines of numpy, scipy and \<^verbatim>\<open>ssm.stats\<close> that the methods call are parameters
  of the model. A density takes one observation, one mean and the noise parameters of
  one state and returns the log density of that time step; a batched call of the source
  evaluates it row by row. \<open>np_solve\<close> and \<open>np_cholesky\<close> act on one matrix of a batch and
  return \<open>None\<close> where numpy raises \<^verbatim>\<open>LinAlgError\<close>. \<open>robust_ar_statistics\<close> is the compiled
  helper of \<^verbatim>\<open>ssm.cstats\<close> that adds the weighted statistics of one sequence to the
  arrays \<open>J\<close> and \<open>h\<close> it is given: it takes \<open>Ez\<close>, \<open>tau\<close>, \<open>x\<close>, \<open>y\<close> and the two arrays
  and returns their new contents.
\<close>

record numlib =
  np_solve :: "mat \<Rightarrow> mat \<Rightarrow> mat option"
  np_solve_vec :: "mat \<Rightarrow> vec \<Rightarrow> vec option"
  np_cholesky :: "mat \<Rightarrow> mat option"
  multivariate_normal_logpdf :: "vec \<Rightarrow> vec \<Rightarrow> mat \<Rightarrow> real"
  diagonal_gaussian_logpdf :: "vec \<Rightarrow> vec \<Rightarrow> vec \<Rightarrow> real"
  multivariate_studentst_logpdf :: "vec \<Rightarrow> vec \<Rightarrow> mat \<Rightarrow> real \<Rightarrow> real"
  independent_studentst_logpdf :: "vec \<Rightarrow> vec \<Rightarrow> vec \<Rightarrow> vec \<Rightarrow> real"
  batch_mahalanobis :: "mat \<Rightarrow> vec \<Rightarrow> real"
  digamma :: "real \<Rightarrow> real"
  generalized_newton_studentst_dof :: "real \<Rightarrow> real \<Rightarrow> real"
  robust_ar_statistics ::
    "mat \<Rightarrow> arr3 \<Rightarrow> mat \<Rightarrow> mat \<Rightarrow> arr3 list \<times> arr3 \<Rightarrow> arr3 list \<times> arr3"

subsection \<open>The noise properties\<close>

definition sigmasq_init :: "obs \<Rightarrow> mat" where
  "sigmasq_init st = map (map exp) (log_sigmasq_init st)"

definition sigmasq :: "obs \<Rightarrow> mat" where
  "sigmasq st = map (map exp) (log_sigmasq st)"

text \<open>\<^verbatim>\<open>np.diag(v)\<close> of a vector.\<close>

definition diag :: "vec \<Rightarrow> mat" where
  "diag v = map (\<lambda>i. map (\<lambda>j. if i = j then v ! i else 0) [0..<length v]) [0..<length v]"

text \<open>\<^verbatim>\<open>np.diag(S)\<close> of a square matrix.\<close>

definition diagonal :: "mat \<Rightarrow> vec" where
  "diagonal S = map (\<lambda>i. S ! i ! i) [0..<length S]"

definition stores_sqrt :: "cls \<Rightarrow> bool" where
  "stores_sqrt c = (c = AutoRegressiveObservations \<or> c = RobustAutoRegressiveObservations)"

text \<open>
  \<open>Sigmas_init\<close> and \<open>Sigmas\<close>: the classes with a square-root factor return
  \<open>S S\<^sup>T\<close>, the classes built on the diagonal class return the diagonal matrices of
  the variances. \<open>IndependentAutoRegressiveObservations\<close> has neither property.
\<close>

definition Sigmas_init :: "cls \<Rightarrow> obs \<Rightarrow> error + arr3" where
  "Sigmas_init c st =
     (if c = IndependentAutoRegressiveObservations then Inl AttributeError
      else if stores_sqrt c then Inr (map (\<lambda>S. matmul_T S S) (sqrt_Sigmas_init st))
      else Inr (map (\<lambda>log_s. diag (map exp log_s)) (log_sigmasq_init st)))"

definition Sigmas :: "cls \<Rightarrow> obs \<Rightarrow> error + arr3" where
  "Sigmas c st =
     (if c = IndependentAutoRegressiveObservations then Inl AttributeError
      else if stores_sqrt c then Inr (map (\<lambda>S. matmul_T S S) (sqrt_Sigmas st))
      else Inr (map (\<lambda>log_s. diag (map exp log_s)) (log_sigmasq st)))"

definition nus :: "obs \<Rightarrow> vec" where
  "nus st = map exp (log_nus st)"

definition nus_kd :: "obs \<Rightarrow> mat" where
  "nus_kd st = map (map exp) (log_nus_kd st)"

subsection \<open>The mean predictor \<open>_compute_mus\<close>\<close>

text \<open>
  \<^verbatim>\<open>_AutoRegressiveObservationsBase._compute_mus\<close>: one \<open>(T, D)\<close> block per state, the
  states zipped from \<open>As\<close>, \<open>bs\<close>, \<open>Vs\<close> and \<open>mu_init\<close>. The result has shape \<open>(K, T, D)\<close>.
\<close>

definition mus_k :: "nat \<Rightarrow> nat \<Rightarrow> mat \<Rightarrow> mat \<Rightarrow> mat \<Rightarrow> vec \<Rightarrow> mat \<Rightarrow> vec \<Rightarrow> mat" where
  "mus_k L Mi data input A b V mu0 =
     (let Dd = ncols data;
          mus_k_init = replicate L mu0;
          mus_k_ar0 = matmul_T (map (take Mi) (drop L input)) V;
          mus_k_ar1 = foldl (\<lambda>acc l. madd acc (matmul_T (lagged L l data)
                                 (map (\<lambda>row. take Dd (drop (l * Dd) row)) A)))
                        mus_k_ar0 [0..<L];
          mus_k_ar = map (\<lambda>row. vadd row b) mus_k_ar1
      in mus_k_init @ mus_k_ar)"

definition base_compute_mus :: "cls \<Rightarrow> obs \<Rightarrow> mat \<Rightarrow> mat \<Rightarrow> arr3" where
  "base_compute_mus c st data input =
     map (\<lambda>(A, b, V, mu0). mus_k (lags st) (M st) data input A b V mu0)
       (zip (As c st) (zip (bs st) (zip (Vs st) (mu_init st))))"

text \<open>
  \<^verbatim>\<open>IndependentAutoRegressiveObservations._compute_mus\<close>. It reads the property \<open>As\<close>,
  the dense array, and takes \<^verbatim>\<open>As[:, :, l]\<close> of it. The result has shape \<open>(T, K, D)\<close>,
  which the closing \<^verbatim>\<open>assert\<close> checks. \<open>indep_step\<close> is the body of the loop over the
  lags: \<^verbatim>\<open>mus += As[:, :, l] * data[self.lags-l-1:-l-1, None, :]\<close>.
\<close>

definition has_shape3 :: "nat \<Rightarrow> nat \<Rightarrow> nat \<Rightarrow> 'a list list list \<Rightarrow> bool" where
  "has_shape3 a b c xs =
     (length xs = a \<and> list_all (\<lambda>m. length m = b \<and> list_all (\<lambda>r. length r = c) m) xs)"

definition has_shape2 :: "nat \<Rightarrow> nat \<Rightarrow> 'a list list \<Rightarrow> bool" where
  "has_shape2 a b xs = (length xs = a \<and> list_all (\<lambda>r. length r = b) xs)"

definition indep_step :: "obs \<Rightarrow> mat \<Rightarrow> arr3 \<Rightarrow> nat \<Rightarrow> arr3" where
  "indep_step st data acc l =
     map2 (\<lambda>mt xt. map2 (\<lambda>mk Ak. vadd mk (map2 (\<lambda>a x. a ! l * x) Ak xt)) mt
                       (As IndependentAutoRegressiveObservations st))
       acc (lagged (lags st) l data)"

definition indep_mus_ar :: "obs \<Rightarrow> mat \<Rightarrow> mat \<Rightarrow> arr3" where
  "indep_mus_ar st data input =
     (let mus0 = map (\<lambda>u. map (\<lambda>Vk. map (\<lambda>v. dot v u) Vk) (Vs st))
                   (map (take (M st)) (drop (lags st) input));
          mus1 = foldl (indep_step st data) mus0 [0..<lags st]
      in map (\<lambda>mt. madd mt (bs st)) mus1)"

definition indep_compute_mus :: "obs \<Rightarrow> mat \<Rightarrow> mat \<Rightarrow> error + arr3" where
  "indep_compute_mus st data input =
     (let mus = replicate (lags st) (mu_init st) @ indep_mus_ar st data input
      in if has_shape3 (length data) (K st) (ncols data) mus then Inr mus
         else Inl AssertionError)"

definition compute_mus :: "cls \<Rightarrow> obs \<Rightarrow> mat \<Rightarrow> mat \<Rightarrow> error + arr3" where
  "compute_mus c st data input =
     (if c = IndependentAutoRegressiveObservations then indep_compute_mus st data input
      else Inr (base_compute_mus c st data input))"

text \<open>
  \<^verbatim>\<open>smooth\<close> is inherited by every class: it swaps the first two axes of what
  \<^verbatim>\<open>_compute_mus\<close> returns and sums \<^verbatim>\<open>expectations[:, :, None] * mus\<close> over axis 1.
  numpy broadcasts the product: two axis lengths go together when they are equal or one
  of them is 1, and the product raises \<^verbatim>\<open>ValueError\<close> otherwise.
\<close>

definition broadcastable :: "nat \<Rightarrow> nat \<Rightarrow> bool" where
  "broadcastable a b = (a = b \<or> a = 1 \<or> b = 1)"

definition stretch :: "nat \<Rightarrow> 'a list \<Rightarrow> 'a list" where
  "stretch n xs = (if length xs = n then xs else replicate n (hd xs))"

definition smooth :: "cls \<Rightarrow> obs \<Rightarrow> mat \<Rightarrow> mat \<Rightarrow> mat \<Rightarrow> error + mat" where
  "smooth c st expectations data input =
     (case compute_mus c st data input of
        Inl e \<Rightarrow> Inl e
      | Inr r \<Rightarrow>
          (let mus = swapaxes01 r;
               T1 = length expectations; K1 = ncols expectations;
               T2 = length mus; K2 = ncols mus;
               Tb = (if T1 = 1 then T2 else T1); Kb = (if K1 = 1 then K2 else K1)
           in if broadcastable T1 T2 \<and> broadcastable K1 K2
              then Inr (map2 (\<lambda>e m. foldl vadd (replicate (ncols m) 0)
                                       (map2 (\<lambda>w mu. map ((*) w) mu) (stretch Kb e) (stretch Kb m)))
                          (stretch Tb expectations) (stretch Tb mus))
              else Inl ValueError))"

subsection \<open>\<open>log_likelihoods\<close>\<close>

text \<open>\<^verbatim>\<open>np.all(mask)\<close> for a boolean \<open>(T, D)\<close> array.\<close>

definition np_all :: "bool list list \<Rightarrow> bool" where
  "np_all msk = list_all (list_all (\<lambda>b. b)) msk"

text \<open>
  A batched density call of the source, such as
  \<^verbatim>\<open>stats.multivariate_normal_logpdf(data[:L], mu[:L], Sigma)\<close>, gives one log density per
  row of \<open>data[:L]\<close> and \<open>mu[:L]\<close>. A method takes the library routines it calls as
  arguments (\<open>mvn\<close>, \<open>dg\<close>, \<open>mvt\<close>, \<open>ist\<close> for the four densities, \<open>chol\<close> and \<open>solve\<close> for
  numpy's factorisation and solver); the methods that dispatch on the class take them
  from a \<open>numlib\<close> record.
\<close>

definition rows_logpdf :: "(vec \<Rightarrow> vec \<Rightarrow> real) \<Rightarrow> mat \<Rightarrow> mat \<Rightarrow> vec" where
  "rows_logpdf f X Mu = map2 f X Mu"

text \<open>
  The broadcast call \<^verbatim>\<open>stats.diagonal_gaussian_logpdf(data[:L, None, :], mus[:L], sigmasq)\<close>
  on means of shape \<open>(L, K, D)\<close> and variances of shape \<open>(K, D)\<close> gives an \<open>(L, K)\<close> array:
  entry \<open>(t, k)\<close> is the log density of row \<open>t\<close> under the mean \<open>mus[t, k]\<close> and the
  variances of state \<open>k\<close>.
\<close>

definition bcast_logpdf :: "(vec \<Rightarrow> vec \<Rightarrow> 'p \<Rightarrow> real) \<Rightarrow> mat \<Rightarrow> arr3 \<Rightarrow> 'p list \<Rightarrow> mat" where
  "bcast_logpdf f X Mus ps = map2 (\<lambda>x mt. map2 (\<lambda>m p. f x m p) mt ps) X Mus"

text \<open>\<^verbatim>\<open>AutoRegressiveObservations.log_likelihoods\<close>.\<close>

definition ar_log_likelihoods ::
  "(vec \<Rightarrow> vec \<Rightarrow> mat \<Rightarrow> real) \<Rightarrow> cls \<Rightarrow> obs \<Rightarrow> mat \<Rightarrow> mat \<Rightarrow> bool list list \<Rightarrow> error + mat" where
  "ar_log_likelihoods mvn c st data input msk =
     (if \<not> np_all msk then Inl MissingData
      else case compute_mus c st data input of Inl e \<Rightarrow> Inl e | Inr mus \<Rightarrow>
        (case Sigmas_init c st of Inl e \<Rightarrow> Inl e | Inr S0 \<Rightarrow>
        (case Sigmas c st of Inl e \<Rightarrow> Inl e | Inr S \<Rightarrow>
           (let L = lags st;
                ll_init = swapaxes01 (map (\<lambda>(mu, Sigma).
                    rows_logpdf (\<lambda>x m. mvn x m Sigma) (take L data) (take L mu))
                    (zip mus S0));
                ll_ar = swapaxes01 (map (\<lambda>(mu, Sigma).
                    rows_logpdf (\<lambda>x m. mvn x m Sigma) (drop L data) (drop L mu))
                    (zip mus S))
            in Inr (ll_init @ ll_ar)))))"

text \<open>\<^verbatim>\<open>AutoRegressiveDiagonalNoiseObservations.log_likelihoods\<close>.\<close>

definition diag_log_likelihoods ::
  "(vec \<Rightarrow> vec \<Rightarrow> vec \<Rightarrow> real) \<Rightarrow> cls \<Rightarrow> obs \<Rightarrow> mat \<Rightarrow> mat \<Rightarrow> bool list list \<Rightarrow> error + mat" where
  "diag_log_likelihoods dg c st data input msk =
     (if \<not> np_all msk then Inl MissingData
      else case compute_mus c st data input of Inl e \<Rightarrow> Inl e | Inr mus \<Rightarrow>
           (let L = lags st;
                ll_init = swapaxes01 (map (\<lambda>(mu, s).
                    rows_logpdf (\<lambda>x m. dg x m s) (take L data) (take L mu))
                    (zip mus (sigmasq_init st)));
                ll_ar = swapaxes01 (map (\<lambda>(mu, s).
                    rows_logpdf (\<lambda>x m. dg x m s) (drop L data) (drop L mu))
                    (zip mus (sigmasq st)))
            in Inr (ll_init @ ll_ar)))"

text \<open>\<^verbatim>\<open>IndependentAutoRegressiveObservations.log_likelihoods\<close>: the mask is not read.\<close>

definition indep_log_likelihoods ::
  "(vec \<Rightarrow> vec \<Rightarrow> vec \<Rightarrow> real) \<Rightarrow> cls \<Rightarrow> obs \<Rightarrow> mat \<Rightarrow> mat \<Rightarrow> bool list list \<Rightarrow> error + mat" where
  "indep_log_likelihoods dg c st data input msk =
     (case compute_mus c st data input of Inl e \<Rightarrow> Inl e | Inr mus \<Rightarrow>
        (let L = lags st;
             ll_init = bcast_logpdf dg (take L data) (take L mus) (sigmasq_init st);
             ll_ar = bcast_logpdf dg (drop L data) (drop L mus) (sigmasq st)
         in Inr (ll_init @ ll_ar)))"

text \<open>\<^verbatim>\<open>_RobustAutoRegressiveObservationsMixin.log_likelihoods\<close>.\<close>

definition robust_log_likelihoods ::
  "(vec \<Rightarrow> vec \<Rightarrow> mat \<Rightarrow> real) \<Rightarrow> (vec \<Rightarrow> vec \<Rightarrow> mat \<Rightarrow> real \<Rightarrow> real) \<Rightarrow> cls \<Rightarrow> obs \<Rightarrow> mat \<Rightarrow> mat \<Rightarrow> bool list list \<Rightarrow> error + mat" where
  "robust_log_likelihoods mvn mvt c st data input msk =
     (if \<not> np_all msk then Inl MissingData
      else case compute_mus c st data input of Inl e \<Rightarrow> Inl e | Inr mus \<Rightarrow>
        (case Sigmas_init c st of Inl e \<Rightarrow> Inl e | Inr S0 \<Rightarrow>
        (case Sigmas c st of Inl e \<Rightarrow> Inl e | Inr S \<Rightarrow>
           (let L = lags st;
                ll_init = swapaxes01 (map (\<lambda>(mu, Sigma).
                    rows_logpdf (\<lambda>x m. mvn x m Sigma) (take L data) (take L mu))
                    (zip mus S0));
                ll_ar = swapaxes01 (map (\<lambda>(mu, Sigma, nu).
                    rows_logpdf (\<lambda>x m. mvt x m Sigma nu) (drop L data) (drop L mu))
                    (zip mus (zip S (nus st))))
            in Inr (ll_init @ ll_ar)))))"

text \<open>\<^verbatim>\<open>AltRobustAutoRegressiveDiagonalNoiseObservations.log_likelihoods\<close>.\<close>

definition alt_log_likelihoods ::
  "(vec \<Rightarrow> vec \<Rightarrow> vec \<Rightarrow> real) \<Rightarrow> (vec \<Rightarrow> vec \<Rightarrow> vec \<Rightarrow> vec \<Rightarrow> real) \<Rightarrow> cls \<Rightarrow> obs \<Rightarrow> mat \<Rightarrow> mat \<Rightarrow> bool list list \<Rightarrow> error + mat" where
  "alt_log_likelihoods dg ist c st data input msk =
     (if \<not> np_all msk then Inl MissingData
      else case compute_mus c st data input of Inl e \<Rightarrow> Inl e | Inr r \<Rightarrow>
        (let mus = swapaxes01 r;
             L = lags st;
             ll_init = bcast_logpdf dg (take L data) (take L mus) (sigmasq_init st);
             ll_ar = bcast_logpdf (\<lambda>x m (s, nu). ist x m s nu)
                       (drop L data) (drop L mus) (zip (sigmasq st) (nus_kd st))
         in Inr (ll_init @ ll_ar)))"

definition log_likelihoods :: "numlib \<Rightarrow> cls \<Rightarrow> obs \<Rightarrow> mat \<Rightarrow> mat \<Rightarrow> bool list list \<Rightarrow> error + mat" where
  "log_likelihoods lib c st data input msk =
     (case c of
        AutoRegressiveObservations \<Rightarrow>
          ar_log_likelihoods (multivariate_normal_logpdf lib) c st data input msk
      | AutoRegressiveDiagonalNoiseObservations \<Rightarrow>
          diag_log_likelihoods (diagonal_gaussian_logpdf lib) c st data input msk
      | IndependentAutoRegressiveObservations \<Rightarrow>
          indep_log_likelihoods (diagonal_gaussian_logpdf lib) c st data input msk
      | RobustAutoRegressiveObservations \<Rightarrow>
          robust_log_likelihoods (multivariate_normal_logpdf lib) (multivariate_studentst_logpdf lib)
            c st data input msk
      | RobustAutoRegressiveDiagonalNoiseObservations \<Rightarrow>
          robust_log_likelihoods (multivariate_normal_logpdf lib) (multivariate_studentst_logpdf lib)
            c st data input msk
      | AltRobustAutoRegressiveDiagonalNoiseObservations \<Rightarrow>
          alt_log_likelihoods (diagonal_gaussian_logpdf lib) (independent_studentst_logpdf lib)
            c st data input msk)"

subsection \<open>The noise setters\<close>

text \<open>
  The \<open>Sigmas\<close> setter of \<open>AutoRegressiveObservations\<close> asserts the shape and stores
  \<^verbatim>\<open>np.linalg.cholesky(value)\<close>, which raises \<^verbatim>\<open>LinAlgError\<close> when one matrix of the batch
  has no factorisation. The setter of the diagonal class asserts the shape, takes the
  diagonal of every matrix, asserts that the diagonals are positive and stores their
  logarithms. The independent class defines no such property: the assignment would bind
  a plain attribute, which no method reads.
\<close>

definition set_Sigmas :: "(mat \<Rightarrow> mat option) \<Rightarrow> cls \<Rightarrow> arr3 \<Rightarrow> obs \<Rightarrow> obs outcome" where
  "set_Sigmas chol c v st =
     (if c = IndependentAutoRegressiveObservations then Returned st
      else if \<not> has_shape3 (K st) (D st) (D st) v then Raised AssertionError st
      else if stores_sqrt c then
        (case those (map chol v) of
           None \<Rightarrow> Raised LinAlgError st
         | Some Ls \<Rightarrow> Returned (st\<lparr>sqrt_Sigmas := Ls\<rparr>))
      else
        (let sigmasq = map diagonal v
         in if \<not> list_all (list_all (\<lambda>s. 0 < s)) sigmasq then Raised AssertionError st
            else Returned (st\<lparr>log_sigmasq := map (map ln) sigmasq\<rparr>)))"

text \<open>
  The setters \<open>sigmasq_init\<close> and \<open>sigmasq\<close>, which the diagonal class defines and the
  classes built on it inherit: they assert the shape \<open>(K, D)\<close> and the positivity of every
  entry and store the logarithms. The full-covariance classes have no such property, so
  on them the assignment binds a plain attribute that no method reads, and raises
  nothing. The independent class has both properties without a setter, so on it the
  assignment raises \<^verbatim>\<open>AttributeError\<close>. Logarithm and exponential are those of the reals
  here, as everywhere in this development: the rounding of \<^verbatim>\<open>np.log\<close> and \<^verbatim>\<open>np.exp\<close> is not
  modelled, so what a getter returns after a setter is stated as the exponential of the
  stored logarithm, never as the value that was supplied.
\<close>

definition set_sigmasq_init :: "cls \<Rightarrow> mat \<Rightarrow> obs \<Rightarrow> obs outcome" where
  "set_sigmasq_init c v st =
     (if c = IndependentAutoRegressiveObservations then Raised AttributeError st
      else if stores_sqrt c then Returned st
      else if \<not> has_shape2 (K st) (D st) v then Raised AssertionError st
      else if \<not> list_all (list_all (\<lambda>s. 0 < s)) v then Raised AssertionError st
      else Returned (st\<lparr>log_sigmasq_init := map (map ln) v\<rparr>))"

definition set_sigmasq :: "cls \<Rightarrow> mat \<Rightarrow> obs \<Rightarrow> obs outcome" where
  "set_sigmasq c v st =
     (if c = IndependentAutoRegressiveObservations then Raised AttributeError st
      else if stores_sqrt c then Returned st
      else if \<not> has_shape2 (K st) (D st) v then Raised AssertionError st
      else if \<not> list_all (list_all (\<lambda>s. 0 < s)) v then Raised AssertionError st
      else Returned (st\<lparr>log_sigmasq := map (map ln) v\<rparr>))"

subsection \<open>The M-step of the Gaussian classes\<close>

text \<open>
  The M-steps first collect, for every sequence, the design matrix \<open>x\<close> (the lagged
  observations, the inputs from \<open>lags\<close> on and a column of ones), the targets
  \<open>y = data[lags:]\<close> and the responsibilities \<open>Ez[lags:]\<close>. The loop is written three times
  in the source, with the same text; it raises on the first sequence whose mask is not
  all true. \<^verbatim>\<open>np.ones((T - lags, 1))\<close> raises \<^verbatim>\<open>ValueError\<close> for \<open>T < lags\<close>, and
  \<^verbatim>\<open>np.hstack\<close> raises it when the inputs do not have as many rows as the observations.
\<close>

definition design :: "nat \<Rightarrow> nat \<Rightarrow> mat \<Rightarrow> mat \<Rightarrow> mat" where
  "design L Mi data input =
     map (\<lambda>i. concat (map (\<lambda>l. lagged L l data ! i) [0..<L]) @ take Mi (drop L input ! i) @ [1])
       [0..<length data - L]"

fun collect ::
  "nat \<Rightarrow> nat \<Rightarrow> (mat \<times> mat \<times> mat \<times> bool list list \<times> 'g) list \<Rightarrow> error + (mat \<times> mat \<times> mat) list" where
  "collect L Mi [] = Inr []"
| "collect L Mi ((e, data, input, msk, tag) # rest) =
     (if \<not> np_all msk then Inl MissingData
      else if length data < L \<or> length input - L \<noteq> length data - L then Inl ValueError
      else case collect L Mi rest of
             Inl err \<Rightarrow> Inl err
           | Inr cs \<Rightarrow> Inr ((design L Mi data input, drop L data, drop L e) # cs))"

text \<open>The ridge prior built from the L2 penalties, and the prior the caller may supply.\<close>

definition prior_dim :: "obs \<Rightarrow> nat" where
  "prior_dim st = D st * lags st + M st + 1"

definition ridge_J :: "obs \<Rightarrow> arr3" where
  "ridge_J st =
     replicate (K st)
       (diag (replicate (D st * lags st) (l2_penalty_A st) @ replicate (M st) (l2_penalty_V st)
              @ [l2_penalty_b st]))"

definition zeros_h :: "obs \<Rightarrow> arr3" where
  "zeros_h st = replicate (K st) (replicate (prior_dim st) (replicate (D st) 0))"

text \<open>The \<^verbatim>\<open>else\<close> branch: \<^verbatim>\<open>J0.shape\<close> of \<^verbatim>\<open>None\<close> raises \<^verbatim>\<open>AttributeError\<close>.\<close>

definition check_prior :: "obs \<Rightarrow> arr3 option \<Rightarrow> arr3 option \<Rightarrow> error option" where
  "check_prior st J0 h0 =
     (case J0 of
        None \<Rightarrow> (case h0 of None \<Rightarrow> None | Some h \<Rightarrow> Some AttributeError)
      | Some J \<Rightarrow>
          if \<not> has_shape3 (K st) (prior_dim st) (prior_dim st) J then Some AssertionError
          else (case h0 of
                  None \<Rightarrow> Some AttributeError
                | Some h \<Rightarrow> if has_shape3 (K st) (prior_dim st) (D st) h then None
                            else Some AssertionError))"

text \<open>\<^verbatim>\<open>Ez[:, k]\<close>, and \<^verbatim>\<open>np.dot((x * w[:, None]).T, y)\<close> for a weight vector \<open>w\<close>.\<close>

definition column :: "nat \<Rightarrow> 'a list list \<Rightarrow> 'a list" where
  "column k xs = map (\<lambda>r. r ! k) xs"

definition xtwy :: "nat \<Rightarrow> nat \<Rightarrow> vec \<Rightarrow> mat \<Rightarrow> mat \<Rightarrow> mat" where
  "xtwy P n w x y =
     map (\<lambda>i. map (\<lambda>j. sum_list (map (\<lambda>(wt, xt, yt). xt ! i * wt * yt ! j) (zip w (zip x y))))
                [0..<n])
       [0..<P]"

text \<open>One pass of the loop over the sequences: \<^verbatim>\<open>J[k] += ...; h[k] += ...\<close> for every state.\<close>

definition accumulate :: "obs \<Rightarrow> arr3 \<times> arr3 \<Rightarrow> mat \<times> mat \<times> mat \<Rightarrow> arr3 \<times> arr3" where
  "accumulate st Jh xyw =
     (case Jh of (J, h) \<Rightarrow> case xyw of (x, y, w) \<Rightarrow>
        (map (\<lambda>k. madd (J ! k) (xtwy (prior_dim st) (prior_dim st) (column k w) x x)) [0..<K st],
         map (\<lambda>k. madd (h ! k) (xtwy (prior_dim st) (D st) (column k w) x y)) [0..<K st]))"

text \<open>
  The solution \<open>mus\<close> of the normal equations has shape \<open>(K, P, D)\<close>:
  \<^verbatim>\<open>np.swapaxes(mus[:, :D*lags, :], 1, 2)\<close>, \<^verbatim>\<open>np.swapaxes(mus[:, D*lags:D*lags+M, :], 1, 2)\<close>
  and \<^verbatim>\<open>mus[:, -1, :]\<close>.
\<close>

definition transpose_to :: "nat \<Rightarrow> mat \<Rightarrow> mat" where
  "transpose_to n rows = map (\<lambda>d. column d rows) [0..<n]"

definition As_of_mus :: "obs \<Rightarrow> arr3 \<Rightarrow> arr3" where
  "As_of_mus st mus = map (\<lambda>mu. transpose_to (D st) (take (D st * lags st) mu)) mus"

definition Vs_of_mus :: "obs \<Rightarrow> arr3 \<Rightarrow> arr3" where
  "Vs_of_mus st mus = map (\<lambda>mu. transpose_to (D st) (take (M st) (drop (D st * lags st) mu))) mus"

definition bs_of_mus :: "arr3 \<Rightarrow> mat" where
  "bs_of_mus mus = map last mus"

text \<open>\<^verbatim>\<open>np.matmul(x, mu)\<close> for \<open>mu\<close> with \<open>n\<close> columns, and the residuals \<open>y - x mu\<close> of one state.\<close>

definition matmul :: "nat \<Rightarrow> mat \<Rightarrow> mat \<Rightarrow> mat" where
  "matmul n A B = map (\<lambda>a. map (\<lambda>j. dot a (column j B)) [0..<n]) A"

definition residuals :: "nat \<Rightarrow> mat \<Rightarrow> mat \<Rightarrow> mat \<Rightarrow> mat" where
  "residuals n x y mu = map2 (\<lambda>yt yh. map2 (-) yt yh) y (matmul n x mu)"

text \<open>
  One pass of the covariance loop:
  \<^verbatim>\<open>sqerr += np.einsum('tk,kti,ktj->kij', W, resid, resid); weight += np.sum(Ez, axis=0)\<close>,
  where \<open>W\<close> is \<open>Ez\<close> in the Gaussian classes and \<open>Ez * tau\<close> in the robust ones.
\<close>

definition cov_step :: "obs \<Rightarrow> arr3 \<Rightarrow> arr3 \<times> vec \<Rightarrow> mat \<times> mat \<times> mat \<times> mat \<Rightarrow> arr3 \<times> vec" where
  "cov_step st mus sw xyzw =
     (case sw of (sqerr, weight) \<Rightarrow> case xyzw of (x, y, Ez, W) \<Rightarrow>
        (map (\<lambda>k. madd (sqerr ! k)
                    (xtwy (D st) (D st) (column k W) (residuals (D st) x y (mus ! k))
                       (residuals (D st) x y (mus ! k))))
           [0..<K st],
         map (\<lambda>k. weight ! k + sum_list (column k Ez)) [0..<K st]))"

text \<open>\<^verbatim>\<open>sqerr / weight[:, None, None] + 1e-8 * np.eye(D)\<close>.\<close>

definition Sigmas_of :: "obs \<Rightarrow> arr3 \<Rightarrow> vec \<Rightarrow> arr3" where
  "Sigmas_of st sqerr weight =
     map2 (\<lambda>S w. map (\<lambda>i. map (\<lambda>j. S ! i ! j / w + (if i = j then 1 / 10 ^ 8 else 0)) [0..<D st])
                    [0..<D st])
       sqerr weight"

text \<open>
  The random draws of one pass of the loop over the unused states: the integer behind
  \<^verbatim>\<open>npr.choice(used)\<close> and the entries of the three \<^verbatim>\<open>npr.randn\<close> arrays, which have the
  shapes of \<open>As[i]\<close>, \<open>Vs[i]\<close> and \<open>bs[i]\<close>. \<^verbatim>\<open>npr.choice\<close> of an empty array raises
  \<^verbatim>\<open>ValueError\<close>.
\<close>

record draw =
  pick :: nat
  noise_A :: "nat \<Rightarrow> nat \<Rightarrow> real"
  noise_V :: "nat \<Rightarrow> nat \<Rightarrow> real"
  noise_b :: "nat \<Rightarrow> real"

definition perturb1 :: "(nat \<Rightarrow> real) \<Rightarrow> vec \<Rightarrow> vec" where
  "perturb1 z b = map (\<lambda>(j, a). a + 1 / 100 * z j) (enumerate 0 b)"

definition perturb2 :: "(nat \<Rightarrow> nat \<Rightarrow> real) \<Rightarrow> mat \<Rightarrow> mat" where
  "perturb2 z A = map (\<lambda>(i, row). perturb1 (z i) row) (enumerate 0 A)"

fun reinit_unused ::
  "(nat \<Rightarrow> draw) \<Rightarrow> nat \<Rightarrow> nat list \<Rightarrow> nat list \<Rightarrow> obs \<times> arr3 \<Rightarrow> (obs \<times> arr3) outcome" where
  "reinit_unused rng n used [] sS = Returned sS"
| "reinit_unused rng n used (k # ks) sS =
     (if used = [] then Raised ValueError sS
      else (case sS of (st, S) \<Rightarrow>
        (let i = used ! (pick (rng n) mod length used);
             st1 = st\<lparr>As_stored := (As_stored st)[k := perturb2 (noise_A (rng n)) (As_stored st ! i)]\<rparr>;
             st2 = st1\<lparr>Vs := (Vs st1)[k := perturb2 (noise_V (rng n)) (Vs st1 ! i)]\<rparr>;
             st3 = st2\<lparr>bs := (bs st2)[k := perturb1 (noise_b (rng n)) (bs st2 ! i)]\<rparr>
         in reinit_unused rng (Suc n) used ks (st3, S[k := S ! i]))))"

text \<open>\<^verbatim>\<open>sum([Ez.sum(0) for Ez in Ezs])\<close>.\<close>

definition usage_of :: "obs \<Rightarrow> (mat \<times> mat \<times> mat) list \<Rightarrow> vec" where
  "usage_of st seqs =
     foldl vadd (replicate (K st) 0)
       (map (\<lambda>(x, y, Ez). map (\<lambda>k. sum_list (column k Ez)) [0..<K st]) seqs)"

text \<open>
  The normal equations of \<^verbatim>\<open>AutoRegressiveObservations.m_step\<close>. The source assigns \<open>J\<close>
  and \<open>h\<close> twice: in the branches of the \<^verbatim>\<open>if\<close> on \<open>J0\<close> and \<open>h0\<close>, and again, to the ridge
  prior, right after it.
\<close>

definition ar_normal_equations ::
  "obs \<Rightarrow> (mat \<times> mat \<times> mat) list \<Rightarrow> arr3 option \<Rightarrow> arr3 option \<Rightarrow> arr3 \<times> arr3" where
  "ar_normal_equations st seqs J0 h0 =
     (let Jh_branch = (if J0 = None \<and> h0 = None then (ridge_J st, zeros_h st)
                       else (the J0, the h0));
          Jh = (ridge_J st, zeros_h st)
      in foldl (accumulate st) Jh seqs)"

definition ar_covariances :: "obs \<Rightarrow> arr3 \<Rightarrow> (mat \<times> mat \<times> mat) list \<Rightarrow> arr3 \<times> vec" where
  "ar_covariances st mus seqs =
     foldl (\<lambda>acc (x, y, Ez). cov_step st mus acc (x, y, Ez, Ez))
       (replicate (K st) (replicate (D st) (replicate (D st) 0)), replicate (K st) (1 / 10 ^ 8))
       seqs"

text \<open>
  \<^verbatim>\<open>AutoRegressiveObservations.m_step\<close>, which the diagonal class inherits. \<open>solve\<close> is
  \<^verbatim>\<open>np.linalg.solve\<close> on one state's system; the batched call raises when one fails.
\<close>

definition ar_m_step ::
  "(mat \<Rightarrow> mat \<Rightarrow> mat option) \<Rightarrow> (mat \<Rightarrow> mat option) \<Rightarrow> (nat \<Rightarrow> draw) \<Rightarrow> cls \<Rightarrow> obs \<Rightarrow>
   mat list \<Rightarrow> mat list \<Rightarrow> mat list \<Rightarrow> bool list list list \<Rightarrow> 'g list \<Rightarrow>
   arr3 option \<Rightarrow> arr3 option \<Rightarrow> obs outcome" where
  "ar_m_step solve chol rng c st expectations datas inputs masks tags J0 h0 =
     (case collect (lags st) (M st) (zip expectations (zip datas (zip inputs (zip masks tags)))) of
        Inl e \<Rightarrow> Raised e st
      | Inr seqs \<Rightarrow>
        (case check_prior st J0 h0 of
           Some e \<Rightarrow> Raised e st
         | None \<Rightarrow>
           (case ar_normal_equations st seqs J0 h0 of (J, h) \<Rightarrow>
            (case those (map2 solve J h) of
               None \<Rightarrow> Raised LinAlgError st
             | Some mus \<Rightarrow>
                 and_then (set_As c (As_of_mus st mus) st)
                   (\<lambda>st1.
                      (let st2 = st1\<lparr>Vs := Vs_of_mus st mus, bs := bs_of_mus mus\<rparr>
                       in case ar_covariances st mus seqs of (sqerr, weight) \<Rightarrow>
                          if list_ex (\<lambda>w. w = 0) weight then Raised NonFinite st2
                          else (let usage = usage_of st seqs;
                                    unused = filter (\<lambda>k. usage ! k < 1) [0..<K st];
                                    used = filter (\<lambda>k. 1 < usage ! k) [0..<K st]
                                in case reinit_unused rng 0 used unused
                                          (st2, Sigmas_of st sqerr weight) of
                                     Raised e sS \<Rightarrow> Raised e (fst sS)
                                   | Returned sS \<Rightarrow> set_Sigmas chol c (snd sS) (fst sS))))))))"

subsection \<open>The M-step of the robust mixin\<close>

text \<open>
  \<^verbatim>\<open>np.concatenate((self.As, self.Vs, self.bs[:, :, None]), axis=2)\<close>, and the means
  \<^verbatim>\<open>np.matmul(Afull[None, :, :, :], x[:, None, :, None])[:, :, :, 0]\<close> of shape \<open>(T, K, D)\<close>.
\<close>

definition Afull :: "cls \<Rightarrow> obs \<Rightarrow> arr3" where
  "Afull c st =
     map (\<lambda>(A, V, b). map (\<lambda>(a, v, b1). a @ v @ [b1]) (zip A (zip V b)))
       (zip (As c st) (zip (Vs st) (bs st)))"

definition predict :: "arr3 \<Rightarrow> mat \<Rightarrow> arr3" where
  "predict Af x = map (\<lambda>xt. map (\<lambda>Ak. map (\<lambda>a. dot a xt) Ak) Af) x"

text \<open>
  The E-step on one sequence: \<open>alpha = nus / 2 + D / 2\<close> and
  \<open>beta = nus / 2 + 1/2 * batch_mahalanobis(sqrt_Sigmas, y[:, None, :] - mus)\<close>, both
  evaluated on the parameters the object holds at that moment. \<open>maha L r\<close> is the
  library's squared Mahalanobis distance of the residual \<open>r\<close> under the factor \<open>L\<close>.
\<close>

definition robust_alpha :: "obs \<Rightarrow> vec" where
  "robust_alpha st = map (\<lambda>nu. nu / 2 + real (D st) / 2) (nus st)"

definition robust_beta :: "(mat \<Rightarrow> vec \<Rightarrow> real) \<Rightarrow> cls \<Rightarrow> obs \<Rightarrow> arr3 \<Rightarrow> mat \<Rightarrow> mat \<Rightarrow> mat" where
  "robust_beta maha c st sqrtS x y =
     map2 (\<lambda>yt mt. map (\<lambda>(m, nu, L). nu / 2 + 1 / 2 * maha L (map2 (-) yt m))
                       (zip mt (zip (nus st) sqrtS)))
       y (predict (Afull c st) x)"

definition robust_tau :: "(mat \<Rightarrow> vec \<Rightarrow> real) \<Rightarrow> cls \<Rightarrow> obs \<Rightarrow> arr3 \<Rightarrow> mat \<Rightarrow> mat \<Rightarrow> mat" where
  "robust_tau maha c st sqrtS x y =
     map (\<lambda>bt. map2 (\<lambda>a b. a / b) (robust_alpha st) bt) (robust_beta maha c st sqrtS x y)"

text \<open>
  The E-step over all sequences. The Cholesky factor of \<open>self.Sigmas\<close> is taken inside the
  loop, so not at all when there is no sequence. A zero \<open>beta\<close> makes \<open>alpha / beta\<close>
  infinite.
\<close>

definition robust_e_step ::
  "(mat \<Rightarrow> mat option) \<Rightarrow> (mat \<Rightarrow> vec \<Rightarrow> real) \<Rightarrow> cls \<Rightarrow> obs \<Rightarrow> (mat \<times> mat \<times> mat) list \<Rightarrow>
   error + mat list" where
  "robust_e_step chol maha c st seqs =
     (if seqs = [] then Inr []
      else case Sigmas c st of
             Inl e \<Rightarrow> Inl e
           | Inr S \<Rightarrow>
             (case those (map chol S) of
                None \<Rightarrow> Inl LinAlgError
              | Some sqrtS \<Rightarrow>
                  if list_ex (\<lambda>(x, y, Ez). list_ex (list_ex (\<lambda>b. b = 0))
                                (robust_beta maha c st sqrtS x y)) seqs
                  then Inl NonFinite
                  else Inr (map (\<lambda>(x, y, Ez). robust_tau maha c st sqrtS x y) seqs)))"

text \<open>
  The M-step part of one pass of the inner EM loop, given the expected precisions
  \<open>taus\<close> of the E-step. The state is the object together with the caller's
  arrays \<open>J0\<close> and \<open>h0\<close>: the source binds \<open>J = J0\<close> and \<open>h = h0\<close> and adds to them in
  place, so after the pass the caller's arrays hold the accumulated statistics, and the
  next pass starts from those. The weights of the normal equations and of the squared
  errors are \<open>Ez * tau\<close>; the weight that divides the squared errors is the sum of \<open>Ez\<close>
  and starts at zero.
\<close>

definition robust_covariances ::
  "obs \<Rightarrow> arr3 \<Rightarrow> (mat \<times> mat \<times> mat) list \<Rightarrow> mat list \<Rightarrow> arr3 \<times> vec" where
  "robust_covariances st mus seqs taus =
     foldl (\<lambda>acc ((x, y, Ez), tau). cov_step st mus acc (x, y, Ez, map2 (map2 (*)) Ez tau))
       (replicate (K st) (replicate (D st) (replicate (D st) 0)), replicate (K st) 0)
       (zip seqs taus)"

definition robust_m_part ::
  "(mat \<Rightarrow> mat \<Rightarrow> mat option) \<Rightarrow> (mat \<Rightarrow> mat option) \<Rightarrow> cls \<Rightarrow>
   (mat \<times> mat \<times> mat) list \<Rightarrow> mat list \<Rightarrow> obs \<times> arr3 option \<times> arr3 option \<Rightarrow>
   (obs \<times> arr3 option \<times> arr3 option) outcome" where
  "robust_m_part solve chol c seqs taus w =
     (case w of (st, J0, h0) \<Rightarrow>
         (case check_prior st J0 h0 of
            Some e \<Rightarrow> Raised e w
          | None \<Rightarrow>
            (case foldl (accumulate st)
                    (if J0 = None \<and> h0 = None then (ridge_J st, zeros_h st) else (the J0, the h0))
                    (map (\<lambda>((x, y, Ez), tau). (x, y, map2 (map2 (*)) Ez tau)) (zip seqs taus)) of
               (J, h) \<Rightarrow>
               (let J0' = (if J0 = None \<and> h0 = None then J0 else Some J);
                    h0' = (if J0 = None \<and> h0 = None then h0 else Some h)
                in case those (map2 solve J h) of
                     None \<Rightarrow> Raised LinAlgError (st, J0', h0')
                   | Some mus \<Rightarrow>
                     (case set_As c (As_of_mus st mus) st of
                        Raised e s \<Rightarrow> Raised e (s, J0', h0')
                      | Returned st1 \<Rightarrow>
                        (let st2 = st1\<lparr>Vs := Vs_of_mus st mus, bs := bs_of_mus mus\<rparr>
                         in case robust_covariances st mus seqs taus of (sqerr, weight) \<Rightarrow>
                            if list_ex (\<lambda>x. x = 0) weight then Raised NonFinite (st2, J0', h0')
                            else (case set_Sigmas chol c (Sigmas_of st sqerr weight) st2 of
                                    Raised e s \<Rightarrow> Raised e (s, J0', h0')
                                  | Returned s \<Rightarrow> Returned (s, J0', h0'))))))))"

text \<open>One pass: the E-step on the object as it stands, then the M-step with its result.\<close>

definition robust_em_pass ::
  "(mat \<Rightarrow> mat \<Rightarrow> mat option) \<Rightarrow> (mat \<Rightarrow> mat option) \<Rightarrow> (mat \<Rightarrow> vec \<Rightarrow> real) \<Rightarrow> cls \<Rightarrow>
   (mat \<times> mat \<times> mat) list \<Rightarrow> obs \<times> arr3 option \<times> arr3 option \<Rightarrow>
   (obs \<times> arr3 option \<times> arr3 option) outcome" where
  "robust_em_pass solve chol maha c seqs w =
     (case robust_e_step chol maha c (fst w) seqs of
        Inl e \<Rightarrow> Raised e w
      | Inr taus \<Rightarrow> robust_m_part solve chol c seqs taus w)"

text \<open>\<^verbatim>\<open>for itr in range(num_em_iters)\<close>.\<close>

fun repeat_pass :: "nat \<Rightarrow> ('s \<Rightarrow> 's outcome) \<Rightarrow> 's \<Rightarrow> 's outcome" where
  "repeat_pass 0 f s = Returned s"
| "repeat_pass (Suc n) f s = and_then (f s) (repeat_pass n f)"

definition robust_m_step_ar ::
  "(mat \<Rightarrow> mat \<Rightarrow> mat option) \<Rightarrow> (mat \<Rightarrow> mat option) \<Rightarrow> (mat \<Rightarrow> vec \<Rightarrow> real) \<Rightarrow> cls \<Rightarrow> obs \<Rightarrow>
   mat list \<Rightarrow> mat list \<Rightarrow> mat list \<Rightarrow> bool list list list \<Rightarrow> 'g list \<Rightarrow> nat \<Rightarrow>
   arr3 option \<Rightarrow> arr3 option \<Rightarrow> (obs \<times> arr3 option \<times> arr3 option) outcome" where
  "robust_m_step_ar solve chol maha c st expectations datas inputs masks tags num_em_iters J0 h0 =
     (case collect (lags st) (M st) (zip expectations (zip datas (zip inputs (zip masks tags)))) of
        Inl e \<Rightarrow> Raised e (st, J0, h0)
      | Inr seqs \<Rightarrow> repeat_pass num_em_iters (robust_em_pass solve chol maha c seqs) (st, J0, h0))"

text \<open>
  \<^verbatim>\<open>_m_step_nu\<close> of the mixin: the expected sufficient statistics of \<open>tau\<close> over all
  sequences, divided by the responsibility mass, and the generalized Newton update of
  the degrees of freedom. A division by a zero mass and the logarithm of a non-positive
  number leave the finite range.
\<close>

definition nu_stats_step ::
  "(mat \<Rightarrow> vec \<Rightarrow> real) \<Rightarrow> (real \<Rightarrow> real) \<Rightarrow> obs \<Rightarrow> arr3 \<Rightarrow> vec \<times> vec \<times> vec \<Rightarrow>
   mat \<times> mat \<times> arr3 \<Rightarrow> vec \<times> vec \<times> vec" where
  "nu_stats_step maha dig st sqrtS acc emd =
     (case acc of (E_taus, E_logtaus, weights) \<Rightarrow> case emd of (Ez, data, mus) \<Rightarrow>
      (let L = lags st;
           beta = map2 (\<lambda>yt mt. map (\<lambda>(m, nu, Lk). nu / 2 + 1 / 2 * maha Lk (map2 (-) yt m))
                                   (zip mt (zip (nus st) sqrtS)))
                    (drop L data) (drop L mus);
           alpha = robust_alpha st
       in (map (\<lambda>k. E_taus ! k
                      + sum_list (map2 (\<lambda>e b. e ! k * (alpha ! k) / (b ! k)) (drop L Ez) beta))
             [0..<K st],
           map (\<lambda>k. E_logtaus ! k
                      + sum_list (map2 (\<lambda>e b. e ! k * (dig (alpha ! k) - ln (b ! k))) (drop L Ez) beta))
             [0..<K st],
           map (\<lambda>k. weights ! k + sum_list (column k Ez)) [0..<K st])))"

definition nu_beta_finite ::
  "(mat \<Rightarrow> vec \<Rightarrow> real) \<Rightarrow> obs \<Rightarrow> arr3 \<Rightarrow> mat \<times> mat \<times> arr3 \<Rightarrow> bool" where
  "nu_beta_finite maha st sqrtS emd =
     (case emd of (Ez, data, mus) \<Rightarrow>
        list_all (list_all (\<lambda>b. 0 < b))
          (map2 (\<lambda>yt mt. map (\<lambda>(m, nu, Lk). nu / 2 + 1 / 2 * maha Lk (map2 (-) yt m))
                            (zip mt (zip (nus st) sqrtS)))
             (drop (lags st) data) (drop (lags st) mus)))"

definition robust_m_step_nu ::
  "(mat \<Rightarrow> mat option) \<Rightarrow> (mat \<Rightarrow> vec \<Rightarrow> real) \<Rightarrow> (real \<Rightarrow> real) \<Rightarrow> (real \<Rightarrow> real \<Rightarrow> real) \<Rightarrow>
   cls \<Rightarrow> obs \<Rightarrow> mat list \<Rightarrow> mat list \<Rightarrow> mat list \<Rightarrow> bool list list list \<Rightarrow> 'g list \<Rightarrow>
   obs outcome" where
  "robust_m_step_nu chol maha dig newton c st expectations datas inputs masks tags =
     (let seqs = zip expectations (zip datas (zip inputs (zip masks tags)))
      in case those (map (\<lambda>(e, data, input, msk, tag).
                      case compute_mus c st data input of
                        Inl err \<Rightarrow> None
                      | Inr r \<Rightarrow> Some (e, data, swapaxes01 r)) seqs) of
           None \<Rightarrow> Raised AssertionError st
         | Some emds \<Rightarrow>
           (case (if emds = [] then Inr [] else
                    case Sigmas c st of
                      Inl e \<Rightarrow> Inl e
                    | Inr S \<Rightarrow> (case those (map chol S) of
                                  None \<Rightarrow> Inl LinAlgError
                                | Some sqrtS \<Rightarrow> Inr sqrtS)) of
              Inl e \<Rightarrow> Raised e st
            | Inr sqrtS \<Rightarrow>
              if \<not> list_all (nu_beta_finite maha st sqrtS) emds then Raised NonFinite st
              else
               (case foldl (nu_stats_step maha dig st sqrtS)
                       (replicate (K st) 0, replicate (K st) 0, replicate (K st) 0) emds of
                  (E_taus, E_logtaus, weights) \<Rightarrow>
                    if list_ex (\<lambda>w. w = 0) weights then Raised NonFinite st
                    else
                      (let new = map (\<lambda>k. newton (E_taus ! k / weights ! k)
                                                   (E_logtaus ! k / weights ! k)) [0..<K st]
                       in if list_ex (\<lambda>v. v \<le> 0) new then Raised NonFinite st
                          else Returned (st\<lparr>log_nus := map ln new @ drop (K st) (log_nus st)\<rparr>)))))"

text \<open>\<^verbatim>\<open>_RobustAutoRegressiveObservationsMixin.m_step\<close>.\<close>

definition robust_m_step ::
  "numlib \<Rightarrow> cls \<Rightarrow> obs \<Rightarrow> mat list \<Rightarrow> mat list \<Rightarrow> mat list \<Rightarrow> bool list list list \<Rightarrow> 'g list \<Rightarrow>
   nat \<Rightarrow> arr3 option \<Rightarrow> arr3 option \<Rightarrow> obs outcome" where
  "robust_m_step lib c st expectations datas inputs masks tags num_em_iters J0 h0 =
     (case robust_m_step_ar (np_solve lib) (np_cholesky lib) (batch_mahalanobis lib) c st
             expectations datas inputs masks tags num_em_iters J0 h0 of
        Raised e w \<Rightarrow> Raised e (fst w)
      | Returned w \<Rightarrow>
          robust_m_step_nu (np_cholesky lib) (batch_mahalanobis lib) (digamma lib)
            (generalized_newton_studentst_dof lib) c (fst w) expectations datas inputs masks tags)"

subsection \<open>The M-step of the Alt class\<close>

text \<open>
  The E-step of \<^verbatim>\<open>AltRobustAutoRegressiveDiagonalNoiseObservations._m_step_ar\<close> on one
  sequence: \<open>alpha = nus / 2 + 1/2\<close> and
  \<open>beta = nus / 2 + 1/2 * (y[:, None, :] - mus)**2 / sigmasq\<close>, per time step, state and
  dimension. The variances and the degrees of freedom are exponentials, so neither
  division is by zero.
\<close>

definition alt_tau :: "cls \<Rightarrow> obs \<Rightarrow> mat \<Rightarrow> mat \<Rightarrow> arr3" where
  "alt_tau c st x y =
     map2 (\<lambda>yt mt. map (\<lambda>(m, nu, s).
              map (\<lambda>(yd, md, nud, sd). (nud / 2 + 1 / 2) / (nud / 2 + 1 / 2 * (yd - md)\<^sup>2 / sd))
                (zip yt (zip m (zip nu s))))
            (zip mt (zip (nus_kd st) (sigmasq st))))
       y (predict (Afull c st) x)"

text \<open>
  The M-step part of one pass of the inner EM loop, and the pass: the E-step on the
  object as it stands, then the M-step with its result. \<open>ras\<close> is \<^verbatim>\<open>robust_ar_statistics\<close>; \<open>solve\<close> is
  \<^verbatim>\<open>np.linalg.solve\<close> on the system of one state and dimension. \<open>sqerr\<close> and \<open>weight\<close>
  start as the integer 0, so with no sequence \<^verbatim>\<open>weight[:, None]\<close> raises \<^verbatim>\<open>TypeError\<close>.
\<close>

definition alt_sqerr_step ::
  "obs \<Rightarrow> arr3 \<Rightarrow> mat \<times> vec \<Rightarrow> (mat \<times> mat \<times> mat) \<times> arr3 \<Rightarrow> mat \<times> vec" where
  "alt_sqerr_step st mus sw seq =
     (case sw of (sqerr, weight) \<Rightarrow> case seq of ((x, y, Ez), tau) \<Rightarrow>
        (map (\<lambda>k. map (\<lambda>d. sqerr ! k ! d
                      + sum_list (map (\<lambda>(xt, yt, et, tt).
                                    et ! k * tt ! k ! d * (yt ! d - dot xt (mus ! k ! d))\<^sup>2)
                                  (zip x (zip y (zip Ez tau)))))
                    [0..<D st])
           [0..<K st],
         map (\<lambda>k. weight ! k + sum_list (column k Ez)) [0..<K st]))"

definition alt_m_part ::
  "(mat \<Rightarrow> vec \<Rightarrow> vec option) \<Rightarrow>
   (mat \<Rightarrow> arr3 \<Rightarrow> mat \<Rightarrow> mat \<Rightarrow> arr3 list \<times> arr3 \<Rightarrow> arr3 list \<times> arr3) \<Rightarrow>
   cls \<Rightarrow> (mat \<times> mat \<times> mat) list \<Rightarrow> arr3 list \<Rightarrow> obs \<Rightarrow> obs outcome" where
  "alt_m_part solve ras c seqs taus st =
     (let P = prior_dim st;
          eye = map (\<lambda>i. map (\<lambda>j. if i = j then 1 else 0) [0..<P]) [0..<P];
          Jh0 = (replicate (K st) (replicate (D st) eye),
                 replicate (K st) (replicate (D st) (replicate P 0)))
      in case foldl (\<lambda>Jh ((x, y, Ez), tau). ras Ez tau x y Jh) Jh0 (zip seqs taus) of
           (J, h) \<Rightarrow>
           (case those (map2 (\<lambda>Jk hk. those (map2 solve Jk hk)) J h) of
              None \<Rightarrow> Raised LinAlgError st
            | Some mus \<Rightarrow>
              (case set_As c (map (map (take (D st * lags st))) mus) st of
                 Raised e s \<Rightarrow> Raised e s
               | Returned st1 \<Rightarrow>
                 (let st2 = st1\<lparr>Vs := map (map (\<lambda>m. take (M st) (drop (D st * lags st) m))) mus,
                                bs := map (map last) mus\<rparr>
                  in if seqs = [] then Raised TypeError st2
                     else case foldl (alt_sqerr_step st mus)
                                 (replicate (K st) (replicate (D st) 0), replicate (K st) 0)
                                 (zip seqs taus) of
                            (sqerr, weight) \<Rightarrow>
                              if list_ex (\<lambda>w. w = 0) weight then Raised NonFinite st2
                              else (let v = map2 (\<lambda>sk w. map (\<lambda>s. s / w + 1 / 10 ^ 16) sk) sqerr weight
                                    in if list_ex (list_ex (\<lambda>s. s \<le> 0)) v then Raised NonFinite st2
                                       else Returned (st2\<lparr>log_sigmasq := map (map ln) v\<rparr>))))))"

definition alt_em_pass ::
  "(mat \<Rightarrow> vec \<Rightarrow> vec option) \<Rightarrow>
   (mat \<Rightarrow> arr3 \<Rightarrow> mat \<Rightarrow> mat \<Rightarrow> arr3 list \<times> arr3 \<Rightarrow> arr3 list \<times> arr3) \<Rightarrow>
   cls \<Rightarrow> (mat \<times> mat \<times> mat) list \<Rightarrow> obs \<Rightarrow> obs outcome" where
  "alt_em_pass solve ras c seqs st =
     alt_m_part solve ras c seqs (map (\<lambda>(x, y, Ez). alt_tau c st x y) seqs) st"

definition alt_m_step_ar ::
  "(mat \<Rightarrow> vec \<Rightarrow> vec option) \<Rightarrow>
   (mat \<Rightarrow> arr3 \<Rightarrow> mat \<Rightarrow> mat \<Rightarrow> arr3 list \<times> arr3 \<Rightarrow> arr3 list \<times> arr3) \<Rightarrow>
   cls \<Rightarrow> obs \<Rightarrow> mat list \<Rightarrow> mat list \<Rightarrow> mat list \<Rightarrow> bool list list list \<Rightarrow> 'g list \<Rightarrow>
   nat \<Rightarrow> obs outcome" where
  "alt_m_step_ar solve ras c st expectations datas inputs masks tags num_em_iters =
     (case collect (lags st) (M st) (zip expectations (zip datas (zip inputs (zip masks tags)))) of
        Inl e \<Rightarrow> Raised e st
      | Inr seqs \<Rightarrow> repeat_pass num_em_iters (alt_em_pass solve ras c seqs) st)"

text \<open>\<^verbatim>\<open>_m_step_nu\<close> of the Alt class: as in the mixin, per state and dimension.\<close>

definition alt_nu_stats_step ::
  "(real \<Rightarrow> real) \<Rightarrow> obs \<Rightarrow> mat \<times> mat \<times> vec \<Rightarrow> mat \<times> mat \<times> arr3 \<Rightarrow> mat \<times> mat \<times> vec" where
  "alt_nu_stats_step dig st acc emd =
     (case acc of (E_taus, E_logtaus, weights) \<Rightarrow> case emd of (Ez, data, mus) \<Rightarrow>
      (let L = lags st;
           rows = zip (drop L Ez) (zip (drop L data) (drop L mus));
           alpha = (\<lambda>k d. nus_kd st ! k ! d / 2 + 1 / 2);
           beta = (\<lambda>yt mt k d. nus_kd st ! k ! d / 2
                                 + 1 / 2 * (yt ! d - mt ! k ! d)\<^sup>2 / (sigmasq st ! k ! d))
       in (map (\<lambda>k. map (\<lambda>d. E_taus ! k ! d
                      + sum_list (map (\<lambda>(et, yt, mt). et ! k * alpha k d / beta yt mt k d) rows))
                    [0..<D st]) [0..<K st],
           map (\<lambda>k. map (\<lambda>d. E_logtaus ! k ! d
                      + sum_list (map (\<lambda>(et, yt, mt).
                                    et ! k * (dig (alpha k d) - ln (beta yt mt k d))) rows))
                    [0..<D st]) [0..<K st],
           map (\<lambda>k. weights ! k + sum_list (column k Ez)) [0..<K st])))"

definition alt_m_step_nu ::
  "(real \<Rightarrow> real) \<Rightarrow> (real \<Rightarrow> real \<Rightarrow> real) \<Rightarrow> cls \<Rightarrow> obs \<Rightarrow>
   mat list \<Rightarrow> mat list \<Rightarrow> mat list \<Rightarrow> bool list list list \<Rightarrow> 'g list \<Rightarrow> obs outcome" where
  "alt_m_step_nu dig newton c st expectations datas inputs masks tags =
     (let seqs = zip expectations (zip datas (zip inputs (zip masks tags)))
      in case those (map (\<lambda>(e, data, input, msk, tag).
                      case compute_mus c st data input of
                        Inl err \<Rightarrow> None
                      | Inr r \<Rightarrow> Some (e, data, swapaxes01 r)) seqs) of
           None \<Rightarrow> Raised AssertionError st
         | Some emds \<Rightarrow>
           (case foldl (alt_nu_stats_step dig st)
                   (replicate (K st) (replicate (D st) 0), replicate (K st) (replicate (D st) 0),
                    replicate (K st) 0) emds of
              (E_taus, E_logtaus, weights) \<Rightarrow>
                if list_ex (\<lambda>w. w = 0) weights then Raised NonFinite st
                else
                  (let new = map (\<lambda>k. map (\<lambda>d. newton (E_taus ! k ! d / weights ! k)
                                                        (E_logtaus ! k ! d / weights ! k))
                                         [0..<D st]) [0..<K st]
                   in if list_ex (list_ex (\<lambda>v. v \<le> 0)) new then Raised NonFinite st
                      else Returned (st\<lparr>log_nus_kd :=
                             map2 (\<lambda>n old. map ln n @ drop (D st) old) new (log_nus_kd st)
                             @ drop (K st) (log_nus_kd st)\<rparr>))))"

definition alt_m_step ::
  "numlib \<Rightarrow> cls \<Rightarrow> obs \<Rightarrow> mat list \<Rightarrow> mat list \<Rightarrow> mat list \<Rightarrow> bool list list list \<Rightarrow> 'g list \<Rightarrow>
   nat \<Rightarrow> obs outcome" where
  "alt_m_step lib c st expectations datas inputs masks tags num_em_iters =
     and_then (alt_m_step_ar (np_solve_vec lib) (robust_ar_statistics lib) c st
                 expectations datas inputs masks tags num_em_iters)
       (\<lambda>s. alt_m_step_nu (digamma lib) (generalized_newton_studentst_dof lib) c s
               expectations datas inputs masks tags)"

subsection \<open>The M-step of the independent class\<close>

text \<open>
  For one dimension \<open>d\<close>, the sequences whose mask is complete in column \<open>d\<close> contribute
  the design matrix of that dimension (its own lagged values, the inputs, a one), the
  targets \<open>data[lags:, d]\<close> and the responsibilities \<open>Ez[lags:]\<close>; other sequences are
  skipped. The zip is over expectations, datas, inputs and masks.
\<close>

definition design_d :: "nat \<Rightarrow> nat \<Rightarrow> nat \<Rightarrow> mat \<Rightarrow> mat \<Rightarrow> mat" where
  "design_d L Mi d data input =
     map (\<lambda>i. map (\<lambda>l. lagged L l data ! i ! d) [0..<L] @ take Mi (drop L input ! i) @ [1])
       [0..<length data - L]"

fun indep_collect ::
  "nat \<Rightarrow> nat \<Rightarrow> nat \<Rightarrow> (mat \<times> mat \<times> mat \<times> bool list list) list \<Rightarrow> error + (mat \<times> vec \<times> mat) list" where
  "indep_collect L Mi d [] = Inr []"
| "indep_collect L Mi d ((e, data, input, msk) # rest) =
     (if \<not> list_all (\<lambda>r. r ! d) msk then indep_collect L Mi d rest
      else if length data < L \<or> length input - L \<noteq> length data - L then Inl ValueError
      else case indep_collect L Mi d rest of
             Inl err \<Rightarrow> Inl err
           | Inr cs \<Rightarrow> Inr ((design_d L Mi d data input, column d (drop L data), drop L e) # cs))"

text \<open>
  The loop over the states for one dimension, on the concatenated \<open>xs\<close>, \<open>ys\<close> and
  \<open>weights\<close>. Every \<^verbatim>\<open>self.As[k, d] = ...\<close> evaluates the property \<open>As\<close>, which builds a new
  dense array, and assigns into that array: the stored \<^verbatim>\<open>_As\<close> is not touched. The
  assignment of \<open>muk[:lags]\<close> to a row of length \<open>D * lags\<close> broadcasts only when
  \<open>lags = D * lags\<close> or \<open>lags = 1\<close>, and the product \<^verbatim>\<open>xs.dot(...)\<close> needs
  \<open>D * lags + M + 1\<close> columns in \<open>xs\<close>, which has \<open>lags + M + 1\<close>; otherwise numpy raises
  \<^verbatim>\<open>ValueError\<close>.
\<close>

definition set_kd :: "nat \<Rightarrow> nat \<Rightarrow> 'a \<Rightarrow> 'a list list \<Rightarrow> 'a list list" where
  "set_kd k d v xs = xs[k := (xs ! k)[d := v]]"

fun indep_states ::
  "(mat \<Rightarrow> vec \<Rightarrow> vec option) \<Rightarrow> nat \<Rightarrow> mat \<Rightarrow> vec \<Rightarrow> mat \<Rightarrow> nat list \<Rightarrow> obs \<Rightarrow> obs outcome" where
  "indep_states solve d xs ys weights [] st = Returned st"
| "indep_states solve d xs ys weights (k # ks) st =
     (let L = lags st; Mi = M st; P = L + Mi + 1; w = column k weights
      in if sum_list w < real (L + Mi + 1)
         then indep_states solve d xs ys weights ks
                (st\<lparr>Vs := set_kd k d (replicate Mi 0) (Vs st), bs := set_kd k d 0 (bs st),
                    log_sigmasq := set_kd k d 0 (log_sigmasq st)\<rparr>)
         else
           (let Jk = xtwy P P w xs xs;
                hk = map (\<lambda>i. sum_list (map (\<lambda>(wt, xt, yt). wt * xt ! i * yt) (zip w (zip xs ys))))
                       [0..<P]
            in case solve Jk hk of
                 None \<Rightarrow> Raised LinAlgError st
               | Some muk \<Rightarrow>
                   if \<not> (L = D st * L \<or> L = 1) then Raised ValueError st
                   else
                     (let st1 = st\<lparr>Vs := set_kd k d (take Mi (drop L muk)) (Vs st),
                                    bs := set_kd k d (last muk) (bs st)\<rparr>;
                          coef = As IndependentAutoRegressiveObservations st1 ! k ! d
                                   @ Vs st1 ! k ! d @ [bs st1 ! k ! d]
                      in if length coef \<noteq> P then Raised ValueError st1
                         else
                           (let yhats = map (\<lambda>xt. dot xt coef) xs;
                                sqerr = map2 (\<lambda>y yh. (y - yh)\<^sup>2) ys yhats;
                                sigma = sum_list (map2 (*) sqerr w) / sum_list w + 1 / 10 ^ 16
                            in if sigma \<le> 0 then Raised NonFinite st1
                               else indep_states solve d xs ys weights ks
                                      (st1\<lparr>log_sigmasq := set_kd k d (ln sigma) (log_sigmasq st1)\<rparr>)))))"

text \<open>
  The loop over the dimensions. \<^verbatim>\<open>np.concatenate\<close> of an empty list raises
  \<^verbatim>\<open>ValueError\<close>, so the branch for \<open>len(xs) == 0\<close> is reached only when every
  contributing sequence has exactly \<open>lags\<close> rows.
\<close>

fun indep_dims ::
  "(mat \<Rightarrow> vec \<Rightarrow> vec option) \<Rightarrow> (mat \<times> mat \<times> mat \<times> bool list list) list \<Rightarrow> nat list \<Rightarrow> obs \<Rightarrow>
   obs outcome" where
  "indep_dims solve seqs [] st = Returned st"
| "indep_dims solve seqs (d # ds) st =
     (case indep_collect (lags st) (M st) d seqs of
        Inl e \<Rightarrow> Raised e st
      | Inr cs \<Rightarrow>
          if cs = [] then Raised ValueError st
          else
            (let xs = concat (map (\<lambda>(x, y, w). x) cs);
                 ys = concat (map (\<lambda>(x, y, w). y) cs);
                 weights = concat (map (\<lambda>(x, y, w). w) cs)
             in if length xs = 0
                then indep_dims solve seqs ds
                       (st\<lparr>Vs := map (\<lambda>Vk. Vk[d := replicate (length (Vk ! d)) 0]) (Vs st),
                           bs := map (\<lambda>bk. bk[d := 0]) (bs st)\<rparr>)
                else and_then (indep_states solve d xs ys weights [0..<K st] st)
                       (indep_dims solve seqs ds)))"

definition indep_m_step ::
  "(mat \<Rightarrow> vec \<Rightarrow> vec option) \<Rightarrow> obs \<Rightarrow> mat list \<Rightarrow> mat list \<Rightarrow> mat list \<Rightarrow> bool list list list \<Rightarrow>
   obs outcome" where
  "indep_m_step solve st expectations datas inputs masks =
     indep_dims solve (zip expectations (zip datas (zip inputs masks))) [0..<D st] st"

subsection \<open>\<open>m_step\<close>\<close>

text \<open>
  The method each class runs. The independent class and the Alt class accept and ignore
  further keyword arguments, so \<open>J0\<close> and \<open>h0\<close> do not reach them; the Gaussian classes
  have no inner loop.
\<close>

definition m_step ::
  "numlib \<Rightarrow> (nat \<Rightarrow> draw) \<Rightarrow> cls \<Rightarrow> obs \<Rightarrow> mat list \<Rightarrow> mat list \<Rightarrow> mat list \<Rightarrow>
   bool list list list \<Rightarrow> 'g list \<Rightarrow> nat \<Rightarrow> arr3 option \<Rightarrow> arr3 option \<Rightarrow> obs outcome" where
  "m_step lib rng c st expectations datas inputs masks tags num_em_iters J0 h0 =
     (case c of
        AutoRegressiveObservations \<Rightarrow>
          ar_m_step (np_solve lib) (np_cholesky lib) rng c st expectations datas inputs masks tags J0 h0
      | AutoRegressiveDiagonalNoiseObservations \<Rightarrow>
          ar_m_step (np_solve lib) (np_cholesky lib) rng c st expectations datas inputs masks tags J0 h0
      | IndependentAutoRegressiveObservations \<Rightarrow>
          indep_m_step (np_solve_vec lib) st expectations datas inputs masks
      | RobustAutoRegressiveObservations \<Rightarrow>
          robust_m_step lib c st expectations datas inputs masks tags num_em_iters J0 h0
      | RobustAutoRegressiveDiagonalNoiseObservations \<Rightarrow>
          robust_m_step lib c st expectations datas inputs masks tags num_em_iters J0 h0
      | AltRobustAutoRegressiveDiagonalNoiseObservations \<Rightarrow>
          alt_m_step lib c st expectations datas inputs masks tags num_em_iters)"

section \<open>Shapes, permutations and example objects\<close>

text \<open>A permutation of \<open>{0, ..., n - 1}\<close> as an index array, with its inverse.\<close>

definition inverse_perms :: "nat \<Rightarrow> nat list \<Rightarrow> nat list \<Rightarrow> bool" where
  "inverse_perms n perm iperm =
     (length perm = n \<and> length iperm = n \<and>
      list_all (\<lambda>i. perm ! i < n \<and> iperm ! i < n \<and> perm ! (iperm ! i) = i) [0..<n])"

text \<open>The attributes that the class's \<open>permute\<close> indexes have one entry per state.\<close>

definition permuted_lengths :: "cls \<Rightarrow> obs \<Rightarrow> bool" where
  "permuted_lengths c st =
     (length (mu_init st) = K st \<and> length (As_stored st) = K st \<and>
      length (bs st) = K st \<and> length (Vs st) = K st \<and>
      (if stores_sqrt c then length (sqrt_Sigmas st) = K st
       else length (log_sigmasq_init st) = K st \<and> length (log_sigmasq st) = K st) \<and>
      (if c = RobustAutoRegressiveObservations \<or> c = RobustAutoRegressiveDiagonalNoiseObservations
       then length (log_nus st) = K st else True))"

text \<open>
  The shapes the constructors give the parameters: \<open>mu_init\<close> and \<open>bs\<close> are \<open>(K, D)\<close>,
  \<open>Vs\<close> is \<open>(K, D, M)\<close>, and \<^verbatim>\<open>_As\<close> is \<open>(K, D, D * lags)\<close>, or \<open>(K, D, lags)\<close> in the
  independent class. A sequence has \<open>T\<close> rows of \<open>D\<close> observations and \<open>T\<close> rows of at least
  \<open>M\<close> inputs.
\<close>

definition params_shaped :: "cls \<Rightarrow> obs \<Rightarrow> bool" where
  "params_shaped c st =
     (0 < K st \<and> 0 < D st \<and> 0 < lags st \<and>
      has_shape2 (K st) (D st) (mu_init st) \<and>
      has_shape3 (K st) (D st)
        (if c = IndependentAutoRegressiveObservations then lags st else lags st * D st) (As_stored st) \<and>
      has_shape2 (K st) (D st) (bs st) \<and>
      has_shape3 (K st) (D st) (M st) (Vs st))"

definition data_shaped :: "obs \<Rightarrow> mat \<Rightarrow> mat \<Rightarrow> bool" where
  "data_shaped st data input =
     (has_shape2 (length data) (D st) data \<and> length input = length data \<and>
      list_all (\<lambda>u. M st \<le> length u) input)"

text \<open>An object of the Alt class with two states, one dimension, one lag and no input.\<close>

definition alt_example :: obs where
  "alt_example = \<lparr>K = 2, D = 1, M = 0, lags = 1, mu_init = [[0], [1]],
     As_stored = [[[1/2]], [[-1/2]]], bs = [[1], [0]], Vs = [[[]], [[]]],
     sqrt_Sigmas_init = [], sqrt_Sigmas = [],
     log_sigmasq_init = [[0], [0]], log_sigmasq = [[0], [1]],
     log_nus = [], log_nus_kd = [[ln 4], [ln 4]],
     l2_penalty_A = 1/10^8, l2_penalty_b = 1/10^8, l2_penalty_V = 1/10^8\<rparr>"

text \<open>
  Two states, one dimension, one lag and no input, with unit variances. The object is
  well formed for \<open>IndependentAutoRegressiveObservations\<close> and, since \<open>D * lags = lags\<close>,
  for the classes that store a dense \<^verbatim>\<open>_As\<close> and log variances as well.
\<close>

definition small_example :: obs where
  "small_example = \<lparr>K = 2, D = 1, M = 0, lags = 1, mu_init = [[0], [1]],
     As_stored = [[[1/2]], [[-1/2]]], bs = [[1], [0]], Vs = [[[]], [[]]],
     sqrt_Sigmas_init = [], sqrt_Sigmas = [],
     log_sigmasq_init = [[0], [0]], log_sigmasq = [[0], [0]],
     log_nus = [], log_nus_kd = [],
     l2_penalty_A = 1/10^8, l2_penalty_b = 1/10^8, l2_penalty_V = 1/10^8\<rparr>"

text \<open>One state, two dimensions, one lag and no input, for the independent class.\<close>

definition indep_2d_example :: obs where
  "indep_2d_example = \<lparr>K = 1, D = 2, M = 0, lags = 1, mu_init = [[0, 0]],
     As_stored = [[[2], [3]]], bs = [[0, 0]], Vs = [[[], []]],
     sqrt_Sigmas_init = [], sqrt_Sigmas = [],
     log_sigmasq_init = [[0, 0]], log_sigmasq = [[0, 0]],
     log_nus = [], log_nus_kd = [],
     l2_penalty_A = 1/10^8, l2_penalty_b = 1/10^8, l2_penalty_V = 1/10^8\<rparr>"

text \<open>The noise parameters the class keeps have one entry per state.\<close>

definition noise_shaped :: "cls \<Rightarrow> obs \<Rightarrow> bool" where
  "noise_shaped c st =
     ((if stores_sqrt c
       then length (sqrt_Sigmas_init st) = K st \<and> length (sqrt_Sigmas st) = K st
       else length (log_sigmasq_init st) = K st \<and> length (log_sigmasq st) = K st) \<and>
      (if c = RobustAutoRegressiveObservations \<or> c = RobustAutoRegressiveDiagonalNoiseObservations
       then length (log_nus st) = K st else True) \<and>
      (if c = AltRobustAutoRegressiveDiagonalNoiseObservations
       then length (log_nus_kd st) = K st else True))"

text \<open>
  The log density the specification gives an entry of the likelihood matrix: for a row
  before \<open>lags\<close>, the Gaussian density of the class under the initial noise parameters of
  the state; for a later row, the density of the class (Gaussian or Student's t) under the
  steady-state noise parameters.
\<close>

definition init_row_logpdf :: "numlib \<Rightarrow> cls \<Rightarrow> obs \<Rightarrow> nat \<Rightarrow> vec \<Rightarrow> vec \<Rightarrow> real" where
  "init_row_logpdf lib c st k x m =
     (if stores_sqrt c
      then multivariate_normal_logpdf lib x m
             (matmul_T (sqrt_Sigmas_init st ! k) (sqrt_Sigmas_init st ! k))
      else if c = RobustAutoRegressiveDiagonalNoiseObservations
      then multivariate_normal_logpdf lib x m (diag (map exp (log_sigmasq_init st ! k)))
      else diagonal_gaussian_logpdf lib x m (map exp (log_sigmasq_init st ! k)))"

definition ar_row_logpdf :: "numlib \<Rightarrow> cls \<Rightarrow> obs \<Rightarrow> nat \<Rightarrow> vec \<Rightarrow> vec \<Rightarrow> real" where
  "ar_row_logpdf lib c st k x m =
     (case c of
        AutoRegressiveObservations \<Rightarrow>
          multivariate_normal_logpdf lib x m (matmul_T (sqrt_Sigmas st ! k) (sqrt_Sigmas st ! k))
      | AutoRegressiveDiagonalNoiseObservations \<Rightarrow>
          diagonal_gaussian_logpdf lib x m (map exp (log_sigmasq st ! k))
      | IndependentAutoRegressiveObservations \<Rightarrow>
          diagonal_gaussian_logpdf lib x m (map exp (log_sigmasq st ! k))
      | RobustAutoRegressiveObservations \<Rightarrow>
          multivariate_studentst_logpdf lib x m
            (matmul_T (sqrt_Sigmas st ! k) (sqrt_Sigmas st ! k)) (exp (log_nus st ! k))
      | RobustAutoRegressiveDiagonalNoiseObservations \<Rightarrow>
          multivariate_studentst_logpdf lib x m
            (diag (map exp (log_sigmasq st ! k))) (exp (log_nus st ! k))
      | AltRobustAutoRegressiveDiagonalNoiseObservations \<Rightarrow>
          independent_studentst_logpdf lib x m
            (map exp (log_sigmasq st ! k)) (map exp (log_nus_kd st ! k)))"

text \<open>The mean that \<open>_compute_mus\<close> of the class predicts for time \<open>t\<close> and state \<open>k\<close>.\<close>

definition predicted_mean :: "cls \<Rightarrow> obs \<Rightarrow> mat \<Rightarrow> mat \<Rightarrow> nat \<Rightarrow> nat \<Rightarrow> vec" where
  "predicted_mean c st data input t k =
     (case compute_mus c st data input of
        Inl e \<Rightarrow> []
      | Inr mus \<Rightarrow> if c = IndependentAutoRegressiveObservations then mus ! t ! k else mus ! k ! t)"

text \<open>Entry \<open>(t, k)\<close> of the likelihood matrix as the specification describes it.\<close>

definition ll_entry :: "numlib \<Rightarrow> cls \<Rightarrow> obs \<Rightarrow> mat \<Rightarrow> mat \<Rightarrow> nat \<Rightarrow> nat \<Rightarrow> real" where
  "ll_entry lib c st data input t k =
     (if t < lags st
      then init_row_logpdf lib c st k (data ! t) (mu_init st ! k)
      else ar_row_logpdf lib c st k (data ! t) (predicted_mean c st data input t k))"

text \<open>
  The mean \<open>A\<^sub>k x + V\<^sub>k u + b\<^sub>k\<close> that state \<open>k\<close> predicts from one design row (the lagged
  observations, the inputs and a one), and the noise covariance of state \<open>k\<close> as the
  class stores it.
\<close>

definition predicted_row :: "cls \<Rightarrow> obs \<Rightarrow> nat \<Rightarrow> vec \<Rightarrow> vec" where
  "predicted_row c st k xt =
     map (\<lambda>d. dot (As c st ! k ! d @ Vs st ! k ! d @ [bs st ! k ! d]) xt) [0..<D st]"

definition state_Sigma :: "cls \<Rightarrow> obs \<Rightarrow> nat \<Rightarrow> mat" where
  "state_Sigma c st k =
     (if stores_sqrt c then matmul_T (sqrt_Sigmas st ! k) (sqrt_Sigmas st ! k)
      else diag (map exp (log_sigmasq st ! k)))"

text \<open>
  The posterior mean of \<open>tau\<close> as the specification gives it: \<open>alpha / beta\<close> with
  \<open>alpha = nu / 2 + D / 2\<close> and \<open>beta = nu / 2 + 1/2\<close> times the squared Mahalanobis
  distance of the observation from its predicted mean, for the classes built on the
  mixin; per dimension, \<open>alpha = nu / 2 + 1/2\<close> and \<open>beta = nu / 2 + 1/2\<close> times the
  squared residual divided by the variance, for the Alt class.
\<close>

definition tau_spec :: "(mat \<Rightarrow> vec \<Rightarrow> real) \<Rightarrow> cls \<Rightarrow> obs \<Rightarrow> mat \<Rightarrow> nat \<Rightarrow> vec \<Rightarrow> vec \<Rightarrow> real" where
  "tau_spec maha c st L k xt yt =
     (let nu = exp (log_nus st ! k);
          alpha = nu / 2 + real (D st) / 2;
          beta = nu / 2 + 1 / 2 * maha L (map2 (-) yt (predicted_row c st k xt))
      in alpha / beta)"

definition alt_tau_spec :: "cls \<Rightarrow> obs \<Rightarrow> nat \<Rightarrow> nat \<Rightarrow> vec \<Rightarrow> vec \<Rightarrow> real" where
  "alt_tau_spec c st k d xt yt =
     (let nu = exp (log_nus_kd st ! k ! d);
          alpha = nu / 2 + 1 / 2;
          beta = nu / 2 + 1 / 2 * (yt ! d - predicted_row c st k xt ! d)\<^sup>2
                   / exp (log_sigmasq st ! k ! d)
      in alpha / beta)"

section \<open>Reference routines for the examples\<close>

text \<open>
  The theorems hold for every library routine. Where an example needs a definite one,
  it uses the following: the Cholesky factorisation row by row, which fails on a
  non-positive pivot; Gauss-Jordan elimination on the rows of \<open>[J | h]\<close>, which fails when
  a column has no pivot; and the log density of independent Gaussians.
\<close>

primrec chol_prefix :: "mat \<Rightarrow> vec \<Rightarrow> nat \<Rightarrow> vec" where
  "chol_prefix Ls a 0 = []"
| "chol_prefix Ls a (Suc j) =
     (let r = chol_prefix Ls a j
      in r @ [(a ! j - dot r (take j (Ls ! j))) / (Ls ! j ! j)])"

fun chol_rows :: "nat \<Rightarrow> mat \<Rightarrow> mat \<Rightarrow> mat option" where
  "chol_rows n [] Ls = Some Ls"
| "chol_rows n (a # as) Ls =
     (let i = length Ls; r = chol_prefix Ls a i; d = a ! i - dot r r
      in if d \<le> 0 then None
         else chol_rows n as (Ls @ [r @ [sqrt d] @ replicate (n - i - 1) 0]))"

definition ref_cholesky :: "mat \<Rightarrow> mat option" where
  "ref_cholesky A = chol_rows (length A) A []"

definition pivot_index :: "nat \<Rightarrow> mat \<Rightarrow> nat option" where
  "pivot_index c rows = List.find (\<lambda>r. rows ! r ! c \<noteq> 0) [c..<length rows]"

fun gauss_jordan :: "nat \<Rightarrow> nat \<Rightarrow> mat \<Rightarrow> mat option" where
  "gauss_jordan 0 c rows = Some rows"
| "gauss_jordan (Suc m) c rows =
     (case pivot_index c rows of
        None \<Rightarrow> None
      | Some r \<Rightarrow>
          (let rows1 = rows[c := rows ! r, r := rows ! c];
               p = map (\<lambda>x. x / (rows1 ! c ! c)) (rows1 ! c);
               rows2 = map (\<lambda>(i, row). if i = c then p
                                         else map2 (\<lambda>x y. x - row ! c * y) row p)
                         (enumerate 0 rows1)
           in gauss_jordan m (Suc c) rows2))"

definition ref_solve :: "mat \<Rightarrow> mat \<Rightarrow> mat option" where
  "ref_solve J h =
     (case gauss_jordan (length J) 0 (map2 (@) J h) of
        None \<Rightarrow> None
      | Some rows \<Rightarrow> Some (map (drop (length J)) rows))"

definition ref_solve_vec :: "mat \<Rightarrow> vec \<Rightarrow> vec option" where
  "ref_solve_vec J h = map_option (map hd) (ref_solve J (map (\<lambda>x. [x]) h))"

definition ref_diagonal_gaussian_logpdf :: "vec \<Rightarrow> vec \<Rightarrow> vec \<Rightarrow> real" where
  "ref_diagonal_gaussian_logpdf x m s =
     sum_list (map (\<lambda>(xi, mi, si). - (1/2) * ln (2 * pi * si) - (1/2) * (xi - mi)\<^sup>2 / si)
                 (zip x (zip m s)))"

text \<open>The quadratic form \<open>v\<^sup>T A v\<close>.\<close>

definition quadform :: "mat \<Rightarrow> vec \<Rightarrow> real" where
  "quadform A v = dot v (map (\<lambda>row. dot row v) A)"

text \<open>One state and two dimensions, for the diagonal class.\<close>

definition diag_2d_example :: obs where
  "diag_2d_example = \<lparr>K = 1, D = 2, M = 0, lags = 1, mu_init = [[0, 0]],
     As_stored = [[[2, 0], [0, 3]]], bs = [[0, 0]], Vs = [[[], []]],
     sqrt_Sigmas_init = [], sqrt_Sigmas = [],
     log_sigmasq_init = [[0, 0]], log_sigmasq = [[ln 2, ln 3]],
     log_nus = [], log_nus_kd = [],
     l2_penalty_A = 1/10^8, l2_penalty_b = 1/10^8, l2_penalty_V = 1/10^8\<rparr>"

text \<open>One state and two dimensions, for the full-covariance class.\<close>

definition ar_2d_example :: obs where
  "ar_2d_example = \<lparr>K = 1, D = 2, M = 0, lags = 1, mu_init = [[0, 0]],
     As_stored = [[[2, 0], [0, 3]]], bs = [[0, 0]], Vs = [[[], []]],
     sqrt_Sigmas_init = [[[1, 0], [0, 1]]], sqrt_Sigmas = [[[2, 0], [0, 2]]],
     log_sigmasq_init = [], log_sigmasq = [],
     log_nus = [], log_nus_kd = [],
     l2_penalty_A = 1/10^8, l2_penalty_b = 1/10^8, l2_penalty_V = 1/10^8\<rparr>"

text \<open>One state and one dimension, for the full-covariance class.\<close>

definition ar_1d_example :: obs where
  "ar_1d_example = \<lparr>K = 1, D = 1, M = 0, lags = 1, mu_init = [[0]],
     As_stored = [[[1/2]]], bs = [[1]], Vs = [[[]]],
     sqrt_Sigmas_init = [[[1]]], sqrt_Sigmas = [[[1]]],
     log_sigmasq_init = [], log_sigmasq = [],
     log_nus = [], log_nus_kd = [],
     l2_penalty_A = 1/10^8, l2_penalty_b = 1/10^8, l2_penalty_V = 1/10^8\<rparr>"

text \<open>
  The independent class with two states, one dimension, one lag and no input, with the
  coefficients 0.95 the constructor gives, and a sequence of four observations in which
  every time step belongs to state 0.
\<close>

definition indep_fresh_example :: obs where
  "indep_fresh_example = \<lparr>K = 2, D = 1, M = 0, lags = 1, mu_init = [[0], [0]],
     As_stored = [[[19/20]], [[19/20]]], bs = [[1/2], [1/3]], Vs = [[[]], [[]]],
     sqrt_Sigmas_init = [], sqrt_Sigmas = [],
     log_sigmasq_init = [[0], [0]], log_sigmasq = [[ln 2], [ln 3]],
     log_nus = [], log_nus_kd = [],
     l2_penalty_A = 1/10^8, l2_penalty_b = 1/10^8, l2_penalty_V = 1/10^8\<rparr>"

definition four_steps :: mat where
  "four_steps = [[0], [1], [0], [1]]"

definition four_inputs :: mat where
  "four_inputs = [[], [], [], []]"

definition all_state0 :: mat where
  "all_state0 = [[1, 0], [1, 0], [1, 0], [1, 0]]"

definition full_mask :: "bool list list" where
  "full_mask = [[True], [True], [True], [True]]"

text \<open>
  The squared Mahalanobis distance \<open>|L\<^sup>-\<^sup>1 r|\<^sup>2\<close> under a lower triangular factor \<open>L\<close>, by
  forward substitution.
\<close>

definition ref_mahalanobis :: "mat \<Rightarrow> vec \<Rightarrow> real" where
  "ref_mahalanobis L r =
     (let z = foldl (\<lambda>z (row, ri). z @ [(ri - dot (take (length z) row) z) / (row ! length z)])
                [] (zip L r)
      in dot z z)"

text \<open>
  Two states and two dimensions, one lag and no input, for the robust classes built on the
  mixin: the covariances are the identity and four times the identity, the degrees of
  freedom 4 and 2.
\<close>

definition robust_2d_example :: obs where
  "robust_2d_example = \<lparr>K = 2, D = 2, M = 0, lags = 1, mu_init = [[0, 0], [0, 0]],
     As_stored = [[[1, 0], [0, 1]], [[0, 0], [0, 0]]], bs = [[0, 0], [1, 1]],
     Vs = [[[], []], [[], []]],
     sqrt_Sigmas_init = [[[1, 0], [0, 1]], [[1, 0], [0, 1]]],
     sqrt_Sigmas = [[[1, 0], [0, 1]], [[2, 0], [0, 2]]],
     log_sigmasq_init = [], log_sigmasq = [],
     log_nus = [ln 4, ln 2], log_nus_kd = [],
     l2_penalty_A = 1/10^8, l2_penalty_b = 1/10^8, l2_penalty_V = 1/10^8\<rparr>"

text \<open>
  The same dynamics for the Alt class: variances 1 in state 0 and 2 in state 1, and one
  number of degrees of freedom per state and dimension.
\<close>

definition alt_2d_example :: obs where
  "alt_2d_example = \<lparr>K = 2, D = 2, M = 0, lags = 1, mu_init = [[0, 0], [0, 0]],
     As_stored = [[[1, 0], [0, 1]], [[0, 0], [0, 0]]], bs = [[0, 0], [1, 1]],
     Vs = [[[], []], [[], []]],
     sqrt_Sigmas_init = [], sqrt_Sigmas = [],
     log_sigmasq_init = [[0, 0], [0, 0]], log_sigmasq = [[0, 0], [ln 2, ln 2]],
     log_nus = [], log_nus_kd = [[ln 4, ln 2], [ln 2, ln 4]],
     l2_penalty_A = 1/10^8, l2_penalty_b = 1/10^8, l2_penalty_V = 1/10^8\<rparr>"

section \<open>Properties\<close>

subsection \<open>Arrays\<close>

lemma length_vadd: "length (vadd u v) = min (length u) (length v)"
  by (simp add: vadd_def)

lemma nth_vadd: "i < length u \<Longrightarrow> i < length v \<Longrightarrow> vadd u v ! i = u ! i + v ! i"
  by (simp add: vadd_def)

lemma length_madd: "length (madd A B) = min (length A) (length B)"
  by (simp add: madd_def)

lemma nth_madd: "i < length A \<Longrightarrow> i < length B \<Longrightarrow> madd A B ! i = vadd (A ! i) (B ! i)"
  by (simp add: madd_def)

lemma dot_sum: "dot u v = (\<Sum>i<min (length u) (length v). u ! i * v ! i)"
proof -
  have "dot u v = (\<Sum>i = 0..<length (map2 (*) u v). map2 (*) u v ! i)"
    unfolding dot_def by (rule sum_list_sum_nth)
  also have "\<dots> = (\<Sum>i<min (length u) (length v). u ! i * v ! i)"
    by (intro sum.cong) (auto simp: atLeast0LessThan)
  finally show ?thesis .
qed

lemma length_matmul_T: "length (matmul_T X B) = length X"
  by (simp add: matmul_T_def)

lemma nth_matmul_T: "t < length X \<Longrightarrow> matmul_T X B ! t = map (dot (X ! t)) B"
  by (simp add: matmul_T_def)

lemma length_lagged: "l < L \<Longrightarrow> L \<le> length xs \<Longrightarrow> length (lagged L l xs) = length xs - L"
  by (auto simp: lagged_def)

lemma nth_lagged:
  "l < L \<Longrightarrow> L \<le> length xs \<Longrightarrow> i < length xs - L \<Longrightarrow> lagged L l xs ! i = xs ! (i + L - l - 1)"
  by (auto simp: lagged_def intro!: arg_cong[where f="nth xs"])

lemma length_swapaxes01: "xs \<noteq> [] \<Longrightarrow> length (swapaxes01 xs) = length (hd xs)"
  by (cases xs) (simp_all add: swapaxes01_def)

lemma nth_swapaxes01:
  "xs \<noteq> [] \<Longrightarrow> t < length (hd xs) \<Longrightarrow> swapaxes01 xs ! t = map (\<lambda>q. q ! t) xs"
  by (cases xs) (simp_all add: swapaxes01_def)

lemma has_shape2_iff:
  "has_shape2 a b xs \<longleftrightarrow> length xs = a \<and> (\<forall>i<a. length (xs ! i) = b)"
  by (auto simp: has_shape2_def list_all_length)

lemma has_shape3_iff:
  "has_shape3 a b c xs \<longleftrightarrow> length xs = a \<and> (\<forall>i<a. has_shape2 b c (xs ! i))"
  by (auto simp: has_shape3_def has_shape2_def list_all_length)

lemma foldl_madd_shape:
  assumes "has_shape2 n m acc" "\<And>l. l < L \<Longrightarrow> has_shape2 n m (F l)"
  shows "has_shape2 n m (foldl (\<lambda>acc l. madd acc (F l)) acc [0..<L])"
  using assms
proof (induction L)
  case 0 then show ?case by simp
next
  case (Suc L)
  then have "has_shape2 n m (foldl (\<lambda>acc l. madd acc (F l)) acc [0..<L])" by simp
  moreover have "has_shape2 n m (F L)" using Suc.prems by simp
  ultimately show ?case
    by (simp add: has_shape2_iff length_madd nth_madd length_vadd)
qed

lemma foldl_madd_nth:
  assumes "has_shape2 n m acc" "\<And>l. l < L \<Longrightarrow> has_shape2 n m (F l)" "i < n" "d < m"
  shows "foldl (\<lambda>acc l. madd acc (F l)) acc [0..<L] ! i ! d = acc ! i ! d + (\<Sum>l<L. F l ! i ! d)"
  using assms
proof (induction L)
  case 0 then show ?case by simp
next
  case (Suc L)
  have sh: "has_shape2 n m (foldl (\<lambda>acc l. madd acc (F l)) acc [0..<L])"
    using Suc.prems by (intro foldl_madd_shape) auto
  have shF: "has_shape2 n m (F L)" using Suc.prems by simp
  have "foldl (\<lambda>acc l. madd acc (F l)) acc [0..<Suc L] ! i ! d
        = foldl (\<lambda>acc l. madd acc (F l)) acc [0..<L] ! i ! d + F L ! i ! d"
    using sh shF Suc.prems(3,4) by (simp add: has_shape2_iff nth_madd nth_vadd)
  also have "\<dots> = acc ! i ! d + (\<Sum>l<L. F l ! i ! d) + F L ! i ! d"
    using Suc by simp
  finally show ?case by simp
qed

subsection \<open>The mean predictor\<close>

lemma ncols_shape: "has_shape2 T n xs \<Longrightarrow> 0 < T \<Longrightarrow> ncols xs = n"
  by (cases xs) (auto simp: has_shape2_def ncols_def)

lemma mus_k_length:
  assumes "L \<le> length data" "L \<le> length input"  "length input = length data" "0 < L"
  shows "length (mus_k L Mi data input A b V mu0) = length data"
proof -
  have "\<And>acc. length acc = length data - L \<Longrightarrow>
     length (foldl (\<lambda>acc l. madd acc (matmul_T (lagged L l data)
         (map (\<lambda>row. take (ncols data) (drop (l * ncols data) row)) A))) acc [0..<n]) = length data - L"
    if "n \<le> L" for n
    using that
    by (induction n) (auto simp: length_madd length_matmul_T length_lagged assms)
  from this[of L "matmul_T (map (take Mi) (drop L input)) V"] show ?thesis
    using assms by (simp add: mus_k_def Let_def length_matmul_T)
qed

lemma mus_k_init:
  assumes "t < L"
  shows "mus_k L Mi data input A b V mu0 ! t = mu0"
  using assms by (simp add: mus_k_def Let_def nth_append)

lemma mus_k_ar:
  assumes data: "has_shape2 T Dd data" and input: "length input = T" "list_all (\<lambda>u. Mi \<le> length u) input"
    and A: "has_shape2 Dn (L * Dd) A" and V: "has_shape2 Dn Mi V" and b: "length b = Dn"
    and L: "0 < L" "L \<le> t" "t < T" and d: "d < Dn"
  shows "mus_k L Mi data input A b V mu0 ! t ! d =
           (\<Sum>l<L. \<Sum>j<Dd. A ! d ! (l * Dd + j) * data ! (t - l - 1) ! j)
           + (\<Sum>m<Mi. V ! d ! m * input ! t ! m) + b ! d"
proof -
  have T: "0 < T" "length data = T" using L data by (auto simp: has_shape2_iff)
  have nc: "ncols data = Dd" using ncols_shape[OF data T(1)] .
  define F where "F l = matmul_T (lagged L l data) (map (\<lambda>row. take Dd (drop (l * Dd) row)) A)" for l
  define acc0 where "acc0 = matmul_T (map (take Mi) (drop L input)) V"
  define i where "i = t - L"
  have i: "i < T - L" "t = i + L" using L by (auto simp: i_def)
  have lenA: "length A = Dn" "\<And>d. d < Dn \<Longrightarrow> length (A ! d) = L * Dd"
    using A by (auto simp: has_shape2_iff)
  have lenV: "length V = Dn" "\<And>d. d < Dn \<Longrightarrow> length (V ! d) = Mi"
    using V by (auto simp: has_shape2_iff)
  have sh0: "has_shape2 (T - L) Dn acc0"
    using input lenV by (simp add: acc0_def has_shape2_iff length_matmul_T nth_matmul_T)
  have shF: "has_shape2 (T - L) Dn (F l)" if "l < L" for l
    using that T L lenA
    by (simp add: F_def has_shape2_iff length_matmul_T nth_matmul_T length_lagged)
  have acc0: "acc0 ! i ! d = (\<Sum>m<Mi. V ! d ! m * input ! t ! m)"
  proof -
    have "Mi \<le> length (input ! t)" using input L by (auto simp: list_all_length)
    then have "acc0 ! i ! d = (\<Sum>m<Mi. input ! t ! m * V ! d ! m)"
      using i input d lenV
      by (simp add: acc0_def nth_matmul_T dot_sum min_def add.commute)
    then show ?thesis by (simp add: mult.commute)
  qed
  have Fl: "F l ! i ! d = (\<Sum>j<Dd. A ! d ! (l * Dd + j) * data ! (t - l - 1) ! j)" if "l < L" for l
  proof -
    have idx: "i + L - l - 1 = t - l - 1" using i by simp
    have tl: "t - l - 1 < T" using L by simp
    have lenx: "length (data ! (t - l - 1)) = Dd" using data tl by (auto simp: has_shape2_iff)
    have "(Suc l) * Dd \<le> L * Dd" using that by (intro mult_le_mono1) simp
    then have le: "Dd \<le> L * Dd - l * Dd" by simp
    have "F l ! i ! d = dot (data ! (t - l - 1)) (take Dd (drop (l * Dd) (A ! d)))"
      using that i T d lenA idx
      by (simp add: F_def nth_matmul_T length_lagged nth_lagged)
    also have "\<dots> = (\<Sum>j<Dd. data ! (t - l - 1) ! j * A ! d ! (l * Dd + j))"
    proof -
      have "dot (data ! (t - l - 1)) (take Dd (drop (l * Dd) (A ! d)))
            = (\<Sum>j<Dd. data ! (t - l - 1) ! j * take Dd (drop (l * Dd) (A ! d)) ! j)"
        using lenx lenA(2)[OF d] le by (simp add: dot_sum min_def)
      also have "\<dots> = (\<Sum>j<Dd. data ! (t - l - 1) ! j * A ! d ! (l * Dd + j))"
      proof (intro sum.cong refl)
        fix j assume "j \<in> {..<Dd}"
        moreover have "l * Dd \<le> length (A ! d)"
          using lenA(2)[OF d] that by simp
        ultimately show "data ! (t - l - 1) ! j * take Dd (drop (l * Dd) (A ! d)) ! j
                       = data ! (t - l - 1) ! j * A ! d ! (l * Dd + j)"
          by simp
      qed
      finally show ?thesis .
    qed
    finally show ?thesis by (simp add: mult.commute)
  qed
  have fold: "foldl (\<lambda>acc l. madd acc (F l)) acc0 [0..<L] ! i ! d = acc0 ! i ! d + (\<Sum>l<L. F l ! i ! d)"
    using sh0 shF i(1) d by (rule foldl_madd_nth)
  have shfold: "has_shape2 (T - L) Dn (foldl (\<lambda>acc l. madd acc (F l)) acc0 [0..<L])"
    using sh0 shF by (rule foldl_madd_shape)
  have unf: "mus_k L Mi data input A b V mu0
             = replicate L mu0 @ map (\<lambda>row. vadd row b) (foldl (\<lambda>acc l. madd acc (F l)) acc0 [0..<L])"
    unfolding mus_k_def Let_def nc F_def acc0_def ..
  have leni: "i < length (foldl (\<lambda>acc l. madd acc (F l)) acc0 [0..<L])"
    using shfold i(1) by (simp add: has_shape2_iff)
  have "mus_k L Mi data input A b V mu0 ! t ! d
        = vadd (foldl (\<lambda>acc l. madd acc (F l)) acc0 [0..<L] ! i) b ! d"
    unfolding unf using leni L(2) by (simp add: nth_append i_def)
  also have "\<dots> = foldl (\<lambda>acc l. madd acc (F l)) acc0 [0..<L] ! i ! d + b ! d"
    using shfold i d b by (simp add: nth_vadd has_shape2_iff)
  finally show ?thesis
    using fold acc0 Fl by (simp add: algebra_simps)
qed

lemma concat_blocks_length:
  assumes "\<And>l. l < L \<Longrightarrow> length (f l) = n"
  shows "length (concat (map f [0..<L])) = L * n"
  using assms by (induction L) auto

lemma concat_blocks_nth:
  assumes "\<And>l. l < L \<Longrightarrow> length (f l) = n" "l < L" "j < n"
  shows "concat (map f [0..<L]) ! (l * n + j) = f l ! j"
  using assms
proof (induction L)
  case 0 then show ?case by simp
next
  case (Suc L)
  have len: "length (concat (map f [0..<L])) = L * n"
    using Suc.prems(1) by (intro concat_blocks_length) auto
  show ?case
  proof (cases "l < L")
    case True
    then have "l * n + j < L * n"
      using Suc.prems(3) by (metis Suc_leI add.commute less_le_trans mult_Suc mult_le_mono1 nat_add_left_cancel_less)
    with True Suc len show ?thesis by (simp add: nth_append)
  next
    case False
    then have "l = L" using Suc.prems(2) by simp
    with len Suc.prems(3) show ?thesis by (simp add: nth_append)
  qed
qed

lemma dense_of_length: "length (dense_of L Ak) = length Ak"
  by (simp add: dense_of_def)

lemma dense_of_row:
  assumes "d < length Ak"
  shows "dense_of L Ak ! d =
           concat (map (\<lambda>l. map (\<lambda>j. if j = d then Ak ! d ! l else 0) [0..<length Ak]) [0..<L])"
  unfolding dense_of_def using assms by (subst nth_map) (simp_all cong: if_cong)

lemma dense_of_row_length:
  assumes "d < length Ak"
  shows "length (dense_of L Ak ! d) = L * length Ak"
  unfolding dense_of_row[OF assms] by (rule concat_blocks_length) simp

lemma dense_of_nth:
  assumes "d < length Ak" "l < L" "j < length Ak"
  shows "dense_of L Ak ! d ! (l * length Ak + j) = (if j = d then Ak ! d ! l else 0)"
  unfolding dense_of_row[OF assms(1)]
  using concat_blocks_nth[of L "\<lambda>l. map (\<lambda>j. if j = d then Ak ! d ! l else 0) [0..<length Ak]"
      "length Ak" l j] assms
  by simp

lemma As_shape:
  assumes "params_shaped c st"
  shows "has_shape3 (K st) (D st) (lags st * D st) (As c st)"
proof (cases "c = IndependentAutoRegressiveObservations")
  case True
  with assms have "has_shape3 (K st) (D st) (lags st) (As_stored st)"
    by (simp add: params_shaped_def)
  then show ?thesis
    using True
    by (auto simp: has_shape3_iff As_def has_shape2_iff dense_of_length dense_of_row_length)
next
  case False
  with assms show ?thesis by (simp add: params_shaped_def As_def)
qed

lemma base_compute_mus_nth:
  assumes "params_shaped c st" "k < K st"
  shows "length (base_compute_mus c st data input) = K st"
    and "base_compute_mus c st data input ! k =
           mus_k (lags st) (M st) data input (As c st ! k) (bs st ! k) (Vs st ! k) (mu_init st ! k)"
proof -
  have "length (As c st) = K st" using As_shape[OF assms(1)] by (simp add: has_shape3_iff)
  moreover have "length (bs st) = K st" "length (Vs st) = K st" "length (mu_init st) = K st"
    using assms(1) by (auto simp: params_shaped_def has_shape3_iff has_shape2_iff)
  ultimately show "length (base_compute_mus c st data input) = K st"
    and "base_compute_mus c st data input ! k =
           mus_k (lags st) (M st) data input (As c st ! k) (bs st ! k) (Vs st ! k) (mu_init st ! k)"
    using assms(2) by (simp_all add: base_compute_mus_def)
qed

lemma base_compute_mus_spec:
  assumes p: "params_shaped c st" and ds: "data_shaped st data input"
    and T: "lags st \<le> length data" and k: "k < K st"
  shows "length (base_compute_mus c st data input) = K st"
    and "length (base_compute_mus c st data input ! k) = length data"
    and "t < lags st \<Longrightarrow> base_compute_mus c st data input ! k ! t = mu_init st ! k"
    and "lags st \<le> t \<Longrightarrow> t < length data \<Longrightarrow> d < D st \<Longrightarrow>
         base_compute_mus c st data input ! k ! t ! d =
           (\<Sum>l<lags st. \<Sum>j<D st. As c st ! k ! d ! (l * D st + j) * data ! (t - l - 1) ! j)
           + (\<Sum>m<M st. Vs st ! k ! d ! m * input ! t ! m) + bs st ! k ! d"
proof -
  note nth = base_compute_mus_nth[OF p k, of data input]
  show "length (base_compute_mus c st data input) = K st" by (rule nth(1))
  have L: "0 < lags st" using p by (simp add: params_shaped_def)
  show "length (base_compute_mus c st data input ! k) = length data"
    unfolding nth(2) using ds T L by (intro mus_k_length) (auto simp: data_shaped_def)
  show "t < lags st \<Longrightarrow> base_compute_mus c st data input ! k ! t = mu_init st ! k"
    unfolding nth(2) by (rule mus_k_init)
  assume t: "lags st \<le> t" "t < length data" and d: "d < D st"
  have A: "has_shape2 (D st) (lags st * D st) (As c st ! k)"
    using As_shape[OF p] k by (simp add: has_shape3_iff)
  have V: "has_shape2 (D st) (M st) (Vs st ! k)" and b: "length (bs st ! k) = D st"
    using p k by (auto simp: params_shaped_def has_shape3_iff has_shape2_iff)
  show "base_compute_mus c st data input ! k ! t ! d =
           (\<Sum>l<lags st. \<Sum>j<D st. As c st ! k ! d ! (l * D st + j) * data ! (t - l - 1) ! j)
           + (\<Sum>m<M st. Vs st ! k ! d ! m * input ! t ! m) + bs st ! k ! d"
    unfolding nth(2)
    using ds by (intro mus_k_ar[where T="length data" and Dn="D st"] A V b L t d)
                (auto simp: data_shaped_def)
qed

lemma indep_step:
  assumes p: "params_shaped IndependentAutoRegressiveObservations st"
    and ds: "has_shape2 T (D st) data" and T: "lags st \<le> T" and l: "l < lags st"
    and acc: "has_shape3 (T - lags st) (K st) (D st) acc"
  shows "has_shape3 (T - lags st) (K st) (D st) (indep_step st data acc l)"
    and "i < T - lags st \<Longrightarrow> k < K st \<Longrightarrow> d < D st \<Longrightarrow>
         indep_step st data acc l ! i ! k ! d =
           acc ! i ! k ! d + As IndependentAutoRegressiveObservations st ! k ! d ! l * data ! (i + lags st - l - 1) ! d"
proof -
  let ?A = "As IndependentAutoRegressiveObservations st"
  have A: "length ?A = K st" "\<And>k. k < K st \<Longrightarrow> length (?A ! k) = D st"
    using As_shape[OF p] by (auto simp: has_shape3_iff has_shape2_iff)
  have lenT: "length data = T" and lenx: "\<And>t. t < T \<Longrightarrow> length (data ! t) = D st"
    using ds by (auto simp: has_shape2_iff)
  have lag: "length (lagged (lags st) l data) = T - lags st"
    using l T lenT by (simp add: length_lagged)
  have lagn: "lagged (lags st) l data ! i = data ! (i + lags st - l - 1)" if "i < T - lags st" for i
    using that l T lenT by (simp add: nth_lagged)
  have a: "length acc = T - lags st" "\<And>i. i < T - lags st \<Longrightarrow> length (acc ! i) = K st"
    "\<And>i k. i < T - lags st \<Longrightarrow> k < K st \<Longrightarrow> length (acc ! i ! k) = D st"
    using acc by (auto simp: has_shape3_iff has_shape2_iff)
  have row: "indep_step st data acc l ! i ! k =
        vadd (acc ! i ! k) (map2 (\<lambda>a x. a ! l * x) (?A ! k) (data ! (i + lags st - l - 1)))"
    if "i < T - lags st" "k < K st" for i k
    using that a A lag lagn by (simp add: indep_step_def)
  have idx: "i + lags st - l - 1 < T" if "i < T - lags st" for i
    using that l by simp
  show "has_shape3 (T - lags st) (K st) (D st) (indep_step st data acc l)"
    unfolding has_shape3_iff has_shape2_iff
  proof (intro conjI allI impI)
    show "length (indep_step st data acc l) = T - lags st"
      using a lag by (simp add: indep_step_def)
    fix i assume i: "i < T - lags st"
    then show "length (indep_step st data acc l ! i) = K st"
      using a A lag by (simp add: indep_step_def)
    fix k assume k: "k < K st"
    show "length (indep_step st data acc l ! i ! k) = D st"
      unfolding row[OF i k] using a(3)[OF i k] A(2)[OF k] lenx[OF idx[OF i]]
      by (simp add: length_vadd)
  qed
  assume i: "i < T - lags st" and k: "k < K st" and d: "d < D st"
  show "indep_step st data acc l ! i ! k ! d =
           acc ! i ! k ! d + ?A ! k ! d ! l * data ! (i + lags st - l - 1) ! d"
    unfolding row[OF i k] using a(3)[OF i k] A(2)[OF k] lenx[OF idx[OF i]] d
    by (simp add: nth_vadd)
qed

lemma indep_fold:
  assumes p: "params_shaped IndependentAutoRegressiveObservations st"
    and ds: "has_shape2 T (D st) data" and T: "lags st \<le> T" and n: "n \<le> lags st"
    and acc: "has_shape3 (T - lags st) (K st) (D st) acc"
  shows "has_shape3 (T - lags st) (K st) (D st) (foldl (indep_step st data) acc [0..<n])"
    and "i < T - lags st \<Longrightarrow> k < K st \<Longrightarrow> d < D st \<Longrightarrow>
         foldl (indep_step st data) acc [0..<n] ! i ! k ! d =
           acc ! i ! k ! d + (\<Sum>l<n. As IndependentAutoRegressiveObservations st ! k ! d ! l * data ! (i + lags st - l - 1) ! d)"
  using n
proof (induction n)
  case 0
  { case 1 show ?case using acc by simp }
  { case 2 then show ?case by simp }
next
  case (Suc n)
  { case 1
    have "has_shape3 (T - lags st) (K st) (D st) (foldl (indep_step st data) acc [0..<n])"
      using Suc.IH(1) 1 by simp
    from indep_step(1)[OF p ds T _ this, of n] 1 show ?case by simp }
  { case 2
    have sh: "has_shape3 (T - lags st) (K st) (D st) (foldl (indep_step st data) acc [0..<n])"
      using Suc.IH(1) 2 by simp
    have "foldl (indep_step st data) acc [0..<Suc n] ! i ! k ! d
          = foldl (indep_step st data) acc [0..<n] ! i ! k ! d
            + As IndependentAutoRegressiveObservations st ! k ! d ! n * data ! (i + lags st - n - 1) ! d"
      using indep_step(2)[OF p ds T _ sh, of n i k d] 2 by simp
    then show ?case using Suc.IH(2) 2 by simp }
qed

lemma indep_mus_ar_spec:
  assumes p: "params_shaped IndependentAutoRegressiveObservations st"
    and ds: "data_shaped st data input" and T: "lags st \<le> length data"
  shows "has_shape3 (length data - lags st) (K st) (D st) (indep_mus_ar st data input)"
    and "i < length data - lags st \<Longrightarrow> k < K st \<Longrightarrow> d < D st \<Longrightarrow>
         indep_mus_ar st data input ! i ! k ! d =
           (\<Sum>m<M st. Vs st ! k ! d ! m * input ! (i + lags st) ! m)
           + (\<Sum>l<lags st. As IndependentAutoRegressiveObservations st ! k ! d ! l * data ! (i + lags st - l - 1) ! d)
           + bs st ! k ! d"
proof -
  define mus0 where "mus0 = map (\<lambda>u. map (\<lambda>Vk. map (\<lambda>v. dot v u) Vk) (Vs st))
                   (map (take (M st)) (drop (lags st) input))"
  define mus1 where "mus1 = foldl (indep_step st data) mus0 [0..<lags st]"
  have unf: "indep_mus_ar st data input = map (\<lambda>mt. madd mt (bs st)) mus1"
    by (simp add: indep_mus_ar_def mus0_def mus1_def)
  have d2: "has_shape2 (length data) (D st) data" and li: "length input = length data"
    and mi: "\<And>t. t < length data \<Longrightarrow> M st \<le> length (input ! t)"
    using ds by (auto simp: data_shaped_def list_all_length)
  have V: "length (Vs st) = K st" "\<And>k. k < K st \<Longrightarrow> length (Vs st ! k) = D st"
    "\<And>k d. k < K st \<Longrightarrow> d < D st \<Longrightarrow> length (Vs st ! k ! d) = M st"
    and b: "length (bs st) = K st" "\<And>k. k < K st \<Longrightarrow> length (bs st ! k) = D st"
    using p by (auto simp: params_shaped_def has_shape3_iff has_shape2_iff)
  have sh0: "has_shape3 (length data - lags st) (K st) (D st) mus0"
    using V li by (simp add: mus0_def has_shape3_iff has_shape2_iff)
  have e0: "mus0 ! i ! k ! d = (\<Sum>m<M st. Vs st ! k ! d ! m * input ! (i + lags st) ! m)"
    if "i < length data - lags st" "k < K st" "d < D st" for i k d
  proof -
    have "M st \<le> length (input ! (lags st + i))" using mi[of "lags st + i"] that by simp
    then show ?thesis
      using that V li by (simp add: mus0_def dot_sum min_def add.commute)
  qed
  note f = indep_fold[OF p d2 T le_refl sh0, folded mus1_def]
  have f1: "length mus1 = length data - lags st"
    "\<And>i. i < length data - lags st \<Longrightarrow> length (mus1 ! i) = K st"
    "\<And>i k. i < length data - lags st \<Longrightarrow> k < K st \<Longrightarrow> length (mus1 ! i ! k) = D st"
    using f(1) by (auto simp: has_shape3_iff has_shape2_iff)
  show "has_shape3 (length data - lags st) (K st) (D st) (indep_mus_ar st data input)"
    unfolding unf using f1 b
    by (simp add: has_shape3_iff has_shape2_iff length_madd nth_madd length_vadd)
  assume i: "i < length data - lags st" and k: "k < K st" and d: "d < D st"
  have "indep_mus_ar st data input ! i ! k ! d = mus1 ! i ! k ! d + bs st ! k ! d"
    unfolding unf using f1 b i k d by (simp add: nth_madd nth_vadd)
  then show "indep_mus_ar st data input ! i ! k ! d =
           (\<Sum>m<M st. Vs st ! k ! d ! m * input ! (i + lags st) ! m)
           + (\<Sum>l<lags st. As IndependentAutoRegressiveObservations st ! k ! d ! l * data ! (i + lags st - l - 1) ! d)
           + bs st ! k ! d"
    using f(2)[OF i k d] e0[OF i k d] by simp
qed

lemma indep_compute_mus_spec:
  assumes p: "params_shaped IndependentAutoRegressiveObservations st"
    and ds: "data_shaped st data input" and T: "lags st \<le> length data"
  defines "mus \<equiv> replicate (lags st) (mu_init st) @ indep_mus_ar st data input"
  shows "indep_compute_mus st data input = Inr mus"
    and "has_shape3 (length data) (K st) (D st) mus"
    and "t < lags st \<Longrightarrow> mus ! t = mu_init st"
    and "lags st \<le> t \<Longrightarrow> t < length data \<Longrightarrow> k < K st \<Longrightarrow> d < D st \<Longrightarrow>
         mus ! t ! k ! d =
           (\<Sum>m<M st. Vs st ! k ! d ! m * input ! t ! m)
           + (\<Sum>l<lags st. As IndependentAutoRegressiveObservations st ! k ! d ! l * data ! (t - l - 1) ! d)
           + bs st ! k ! d"
proof -
  note ar = indep_mus_ar_spec[OF p ds T]
  have L: "0 < lags st" and mu: "has_shape2 (K st) (D st) (mu_init st)"
    using p by (auto simp: params_shaped_def)
  have d2: "has_shape2 (length data) (D st) data" using ds by (simp add: data_shaped_def)
  have "0 < length data" using L T by linarith
  then have nc: "ncols data = D st" by (rule ncols_shape[OF d2])
  have lar: "length (indep_mus_ar st data input) = length data - lags st"
    using ar(1) by (simp add: has_shape3_iff)
  show sh: "has_shape3 (length data) (K st) (D st) mus"
    unfolding has_shape3_iff
  proof (intro conjI allI impI)
    show "length mus = length data" using lar T by (simp add: mus_def)
    fix i assume "i < length data"
    then show "has_shape2 (K st) (D st) (mus ! i)"
      using mu ar(1) lar by (auto simp: mus_def nth_append has_shape3_iff)
  qed
  then show "indep_compute_mus st data input = Inr mus"
    by (simp add: indep_compute_mus_def Let_def nc mus_def)
  show "t < lags st \<Longrightarrow> mus ! t = mu_init st"
    by (simp add: mus_def nth_append)
  assume t: "lags st \<le> t" "t < length data" and k: "k < K st" and d: "d < D st"
  have "mus ! t = indep_mus_ar st data input ! (t - lags st)"
    using t by (simp add: mus_def nth_append)
  then show "mus ! t ! k ! d =
           (\<Sum>m<M st. Vs st ! k ! d ! m * input ! t ! m)
           + (\<Sum>l<lags st. As IndependentAutoRegressiveObservations st ! k ! d ! l * data ! (t - l - 1) ! d)
           + bs st ! k ! d"
    using ar(2)[of "t - lags st" k d] t k d by simp
qed

lemma base_compute_mus_shape:
  assumes p: "params_shaped c st" and ds: "data_shaped st data input"
    and T: "lags st \<le> length data"
  shows "has_shape3 (K st) (length data) (D st) (base_compute_mus c st data input)"
  unfolding has_shape3_iff has_shape2_iff
proof (intro conjI allI impI)
  have "0 < K st" using p by (simp add: params_shaped_def)
  then show "length (base_compute_mus c st data input) = K st"
    by (rule base_compute_mus_nth(1)[OF p])
  fix k assume k: "k < K st"
  note s = base_compute_mus_spec[OF p ds T k]
  show "length (base_compute_mus c st data input ! k) = length data" by (rule s(2))
  fix t assume t: "t < length data"
  have mu: "length (mu_init st ! k) = D st" and b: "length (bs st ! k) = D st"
    using p k by (auto simp: params_shaped_def has_shape2_iff)
  show "length (base_compute_mus c st data input ! k ! t) = D st"
  proof (cases "t < lags st")
    case True
    then show ?thesis using s(3) mu by simp
  next
    case False
    have A: "has_shape2 (D st) (lags st * D st) (As c st ! k)"
      using As_shape[OF p] k by (simp add: has_shape3_iff)
    have L: "0 < lags st" using p by (simp add: params_shaped_def)
    have d2: "has_shape2 (length data) (D st) data" using ds by (simp add: data_shaped_def)
    have "0 < length data" using t by linarith
    then have nc: "ncols data = D st" by (rule ncols_shape[OF d2])
    define F where "F l = matmul_T (lagged (lags st) l data)
       (map (\<lambda>row. take (D st) (drop (l * D st) row)) (As c st ! k))" for l
    define acc0 where "acc0 = matmul_T (map (take (M st)) (drop (lags st) input)) (Vs st ! k)"
    have V: "length (Vs st ! k) = D st"
      using p k by (auto simp: params_shaped_def has_shape3_iff has_shape2_iff)
    have li: "length input = length data" using ds by (simp add: data_shaped_def)
    have sh0: "has_shape2 (length data - lags st) (D st) acc0"
      using V li by (simp add: acc0_def has_shape2_iff length_matmul_T nth_matmul_T)
    have shF: "has_shape2 (length data - lags st) (D st) (F l)" if "l < lags st" for l
      using that T A
      by (simp add: F_def has_shape2_iff length_matmul_T nth_matmul_T length_lagged)
    have shfold: "has_shape2 (length data - lags st) (D st) (foldl (\<lambda>acc l. madd acc (F l)) acc0 [0..<lags st])"
      using sh0 shF by (rule foldl_madd_shape)
    have unf: "base_compute_mus c st data input ! k
             = replicate (lags st) (mu_init st ! k) @
               map (\<lambda>row. vadd row (bs st ! k)) (foldl (\<lambda>acc l. madd acc (F l)) acc0 [0..<lags st])"
      unfolding base_compute_mus_nth(2)[OF p k] mus_k_def Let_def nc F_def acc0_def ..
    show ?thesis
      unfolding unf using False t shfold b
      by (simp add: nth_append has_shape2_iff length_vadd)
  qed
qed

text \<open>
  Claim C1 (for every class the mean predictor returns \<open>mu_init[k]\<close> for the first \<open>lags\<close>
  steps and \<open>\<Sum>\<^sub>l A\<^sub>k\<^sup>l x[t-l] + V\<^sub>k u[t] + b\<^sub>k\<close> afterwards) holds for the predictor of the
  base class (\<open>base_compute_mus_spec\<close>). The independent class overrides it and reads
  column \<open>l\<close> of the dense array where the coefficient of lag \<open>l\<close> is meant: with one
  state, two dimensions, one lag and coefficients 2 and 3, the mean of the second
  dimension after the observation \<open>(1, 1)\<close> is 0, where the claim and the base class on
  the same dense coefficients give 3.
\<close>

theorem indep_compute_mus_two_dimensions:
  "indep_compute_mus indep_2d_example [[1, 1], [5, 7]] [[], []] = Inr [[[0, 0]], [[2, 0]]] \<and>
   base_compute_mus IndependentAutoRegressiveObservations indep_2d_example [[1, 1], [5, 7]] [[], []]
     = [[[0, 0], [2, 3]]]"
  by (simp add: indep_compute_mus_def indep_mus_ar_def indep_step_def indep_2d_example_def As_def
      base_compute_mus_def mus_k_def matmul_T_def
      dense_of_def lagged_def has_shape3_def ncols_def dot_def vadd_def madd_def Let_def)

text \<open>
  The layout of the two predictors: on a sequence of \<open>T \<ge> lags\<close> observations the
  predictor of the independent class returns an array of shape \<open>(T, K, D)\<close>, time first,
  where the predictor of the base class returns shape \<open>(K, T, D)\<close>; its first \<open>lags\<close> rows
  are \<open>mu_init\<close>; and for \<open>D = 1\<close> it is the base class's array with the first two axes
  swapped.
\<close>

lemma indep_compute_mus_layout:
  assumes p: "params_shaped IndependentAutoRegressiveObservations st"
    and ds: "data_shaped st data input" and T: "lags st \<le> length data"
  shows "\<exists>mus. indep_compute_mus st data input = Inr mus \<and>
           has_shape3 (length data) (K st) (D st) mus \<and>
           has_shape3 (K st) (length data) (D st)
             (base_compute_mus IndependentAutoRegressiveObservations st data input) \<and>
           take (lags st) mus = replicate (lags st) (mu_init st) \<and>
           (D st = 1 \<longrightarrow>
              swapaxes01 mus = base_compute_mus IndependentAutoRegressiveObservations st data input)"
proof -
  let ?c = "IndependentAutoRegressiveObservations"
  define mus where "mus = replicate (lags st) (mu_init st) @ indep_mus_ar st data input"
  note i = indep_compute_mus_spec[OF p ds T, folded mus_def]
  note bsh = base_compute_mus_shape[OF p ds T]
  have L: "0 < lags st" and K: "0 < K st" using p by (auto simp: params_shaped_def)
  have lm: "length mus = length data" "\<And>t. t < length data \<Longrightarrow> length (mus ! t) = K st"
    "\<And>t k. t < length data \<Longrightarrow> k < K st \<Longrightarrow> length (mus ! t ! k) = D st"
    using i(2) by (auto simp: has_shape3_iff has_shape2_iff)
  have lb: "length (base_compute_mus ?c st data input) = K st"
    "\<And>k. k < K st \<Longrightarrow> length (base_compute_mus ?c st data input ! k) = length data"
    "\<And>t k. t < length data \<Longrightarrow> k < K st \<Longrightarrow> length (base_compute_mus ?c st data input ! k ! t) = D st"
    using bsh by (auto simp: has_shape3_iff has_shape2_iff)
  have tk: "take (lags st) mus = replicate (lags st) (mu_init st)"
    by (simp add: mus_def)
  have eq: "swapaxes01 mus = base_compute_mus ?c st data input" if D1: "D st = 1"
  proof -
    have T0: "0 < length data" using L T by linarith
    have ne: "mus \<noteq> []" using lm(1) T0 by auto
    have hd: "length (hd mus) = K st"
      using lm(2)[OF T0] ne by (simp add: hd_conv_nth)
    have ls: "length (swapaxes01 mus) = K st"
      using ne hd by (simp add: length_swapaxes01)
    show ?thesis
    proof (rule nth_equalityI)
      show "length (swapaxes01 mus) = length (base_compute_mus ?c st data input)"
        using ls lb(1) by simp
      fix k assume "k < length (swapaxes01 mus)"
      then have k: "k < K st" using ls by simp
      note s = base_compute_mus_spec[OF p ds T k]
      have row: "swapaxes01 mus ! k = map (\<lambda>q. q ! k) mus"
        using ne hd k by (simp add: nth_swapaxes01)
      show "swapaxes01 mus ! k = base_compute_mus ?c st data input ! k"
        unfolding row
      proof (rule nth_equalityI)
        show "length (map (\<lambda>q. q ! k) mus) = length (base_compute_mus ?c st data input ! k)"
          using lm(1) lb(2)[OF k] by simp
        fix t assume "t < length (map (\<lambda>q. q ! k) mus)"
        then have t: "t < length data" using lm(1) by simp
        show "map (\<lambda>q. q ! k) mus ! t = base_compute_mus ?c st data input ! k ! t"
        proof (cases "t < lags st")
          case True
          then show ?thesis using t lm(1) i(3)[of t] s(3)[of t] by simp
        next
          case False
          then have t2: "lags st \<le> t" by simp
          have dn: "As ?c st ! k ! 0 ! l = As ?c st ! k ! 0 ! (l * D st + 0)" for l
            using D1 by simp
          have "mus ! t ! k ! 0 = base_compute_mus ?c st data input ! k ! t ! 0"
            using i(4)[OF t2 t k, of 0] s(4)[OF t2 t, of 0] D1
            by (simp add: lessThan_Suc)
          moreover have "length (mus ! t ! k) = 1" "length (base_compute_mus ?c st data input ! k ! t) = 1"
            using lm(3)[OF t k] lb(3)[OF t k] D1 by simp_all
          ultimately have "mus ! t ! k = base_compute_mus ?c st data input ! k ! t"
            by (intro nth_equalityI) auto
          then show ?thesis using t lm(1) by simp
        qed
      qed
    qed
  qed
  show ?thesis
    using i(1) i(2) bsh tk eq by blast
qed

lemma indep_compute_mus_layout_small:
  "params_shaped IndependentAutoRegressiveObservations small_example \<and>
   data_shaped small_example [[1], [2], [3]] [[], [], []] \<and>
   lags small_example \<le> length [[1::real], [2], [3]] \<and>
   (\<exists>mus. indep_compute_mus small_example [[1], [2], [3]] [[], [], []] = Inr mus \<and>
      has_shape3 3 2 1 mus \<and>
      has_shape3 2 3 1 (base_compute_mus IndependentAutoRegressiveObservations small_example
         [[1], [2], [3]] [[], [], []]) \<and>
      take 1 mus = [[[0], [1]]] \<and>
      swapaxes01 mus = base_compute_mus IndependentAutoRegressiveObservations small_example
         [[1], [2], [3]] [[], [], []])"
proof -
  have h1: "params_shaped IndependentAutoRegressiveObservations small_example"
    by (simp add: params_shaped_def small_example_def has_shape2_def has_shape3_def)
  have h2: "data_shaped small_example [[1], [2], [3]] [[], [], []]"
    by (simp add: data_shaped_def small_example_def has_shape2_def)
  have h3: "lags small_example \<le> length [[1::real], [2], [3]]"
    by (simp add: small_example_def)
  have v: "D small_example = 1" "K small_example = 2" "lags small_example = 1"
    "mu_init small_example = [[0], [1]]"
    by (simp_all add: small_example_def)
  show ?thesis
    using h1 h2 h3 indep_compute_mus_layout[OF h1 h2 h3] by (simp add: v eval_nat_numeral)
qed

text \<open>
  Claim C9 (the predictor of the independent class returns an array of the shape and axis
  layout of the base class's predictor, so that \<open>smooth\<close> computes the same trajectory for
  either class) fails on the code. With two states, one dimension and three time steps the
  independent class returns three rows of two means where the base class returns two rows
  of three, and the inherited \<open>smooth\<close>, which swaps the first two axes of what it
  receives, raises on the independent class. With two time steps, as many as there are
  states, the shapes happen to agree and \<open>smooth\<close> returns the means of the wrong state and
  time: for the responsibilities \<open>((0, 1), (1, 0))\<close> it returns \<open>(3/2, 1)\<close> where the same
  parameters under the base class give \<open>(1, 3/2)\<close>.
\<close>

theorem indep_compute_mus_smooth:
  "indep_compute_mus small_example [[1], [2], [3]] [[], [], []]
     = Inr [[[0], [1]], [[3/2], [-1/2]], [[2], [-1]]] \<and>
   base_compute_mus IndependentAutoRegressiveObservations small_example [[1], [2], [3]] [[], [], []]
     = [[[0], [3/2], [2]], [[1], [-1/2], [-1]]] \<and>
   smooth IndependentAutoRegressiveObservations small_example [[1, 0], [1, 0], [0, 1]]
     [[1], [2], [3]] [[], [], []] = Inl ValueError \<and>
   smooth AutoRegressiveObservations small_example [[1, 0], [1, 0], [0, 1]]
     [[1], [2], [3]] [[], [], []] = Inr [[0], [3/2], [-1]] \<and>
   smooth IndependentAutoRegressiveObservations small_example [[0, 1], [1, 0]]
     [[1], [2]] [[], []] = Inr [[3/2], [1]] \<and>
   smooth AutoRegressiveObservations small_example [[0, 1], [1, 0]]
     [[1], [2]] [[], []] = Inr [[1], [3/2]]"
proof -
  have i3: "indep_compute_mus small_example [[1], [2], [3]] [[], [], []]
     = Inr [[[0], [1]], [[3/2], [-1/2]], [[2], [-1]]]"
    by (simp add: indep_compute_mus_def indep_mus_ar_def indep_step_def small_example_def As_def
        dense_of_def lagged_def has_shape3_def ncols_def dot_def vadd_def madd_def Let_def)
  have i2: "indep_compute_mus small_example [[1], [2]] [[], []]
     = Inr [[[0], [1]], [[3/2], [-1/2]]]"
    by (simp add: indep_compute_mus_def indep_mus_ar_def indep_step_def small_example_def As_def
        dense_of_def lagged_def has_shape3_def ncols_def dot_def vadd_def madd_def Let_def)
  have b3: "base_compute_mus c small_example [[1], [2], [3]] [[], [], []]
     = [[[0], [3/2], [2]], [[1], [-1/2], [-1]]]" for c
    by (simp add: small_example_def As_def base_compute_mus_def mus_k_def matmul_T_def
        dense_of_def lagged_def ncols_def dot_def vadd_def madd_def Let_def)
  have b2: "base_compute_mus c small_example [[1], [2]] [[], []]
     = [[[0], [3/2]], [[1], [-1/2]]]" for c
    by (simp add: small_example_def As_def base_compute_mus_def mus_k_def matmul_T_def
        dense_of_def lagged_def ncols_def dot_def vadd_def madd_def Let_def)
  have s1: "smooth IndependentAutoRegressiveObservations small_example [[1, 0], [1, 0], [0, 1]]
     [[1], [2], [3]] [[], [], []] = Inl ValueError"
    by (simp add: smooth_def compute_mus_def i3 swapaxes01_def ncols_def broadcastable_def Let_def)
  have s2: "smooth AutoRegressiveObservations small_example [[1, 0], [1, 0], [0, 1]]
     [[1], [2], [3]] [[], [], []] = Inr [[0], [3/2], [-1]]"
    by (simp add: smooth_def compute_mus_def b3 swapaxes01_def ncols_def broadcastable_def
        stretch_def vadd_def Let_def)
  have s3: "smooth IndependentAutoRegressiveObservations small_example [[0, 1], [1, 0]]
     [[1], [2]] [[], []] = Inr [[3/2], [1]]"
    by (simp add: smooth_def compute_mus_def i2 swapaxes01_def ncols_def broadcastable_def
        stretch_def vadd_def Let_def)
  have s4: "smooth AutoRegressiveObservations small_example [[0, 1], [1, 0]]
     [[1], [2]] [[], []] = Inr [[1], [3/2]]"
    by (simp add: smooth_def compute_mus_def b2 swapaxes01_def ncols_def broadcastable_def
        stretch_def vadd_def Let_def)
  from i3 b3 s1 s2 s3 s4 show ?thesis by simp
qed

subsection \<open>\<open>log_likelihoods\<close>\<close>

lemma swapaxes01_cols:
  assumes "0 < length cols" "\<And>k. k < length cols \<Longrightarrow> length (cols ! k) = n"
  shows "length (swapaxes01 cols) = n"
    and "t < n \<Longrightarrow> length (swapaxes01 cols ! t) = length cols"
    and "t < n \<Longrightarrow> k < length cols \<Longrightarrow> swapaxes01 cols ! t ! k = cols ! k ! t"
proof -
  obtain r rs where c: "cols = r # rs" using assms(1) by (cases cols) auto
  have r: "length r = n" using assms(2)[of 0] c by simp
  have unf: "swapaxes01 cols = map (\<lambda>t. map (\<lambda>q. q ! t) cols) [0..<n]"
    unfolding c swapaxes01_def r[symmetric] by simp
  show "length (swapaxes01 cols) = n" by (simp add: unf)
  show "t < n \<Longrightarrow> length (swapaxes01 cols ! t) = length cols" by (simp add: unf)
  show "t < n \<Longrightarrow> k < length cols \<Longrightarrow> swapaxes01 cols ! t ! k = cols ! k ! t"
    by (simp add: unf)
qed

lemma stacked_ll:
  fixes f :: "'p \<Rightarrow> vec \<Rightarrow> vec \<Rightarrow> real" and g :: "'q \<Rightarrow> vec \<Rightarrow> vec \<Rightarrow> real"
  assumes K: "0 < Kn" "length mus = Kn" "length P0 = Kn" "length P1 = Kn"
    and T: "\<forall>k<Kn. length (mus ! k) = length data" "L \<le> length data"
  defines "ll \<equiv> swapaxes01 (map (\<lambda>(mu, p). rows_logpdf (f p) (take L data) (take L mu)) (zip mus P0))
               @ swapaxes01 (map (\<lambda>(mu, p). rows_logpdf (g p) (drop L data) (drop L mu)) (zip mus P1))"
  shows "has_shape2 (length data) Kn ll"
    and "t < L \<Longrightarrow> k < Kn \<Longrightarrow> ll ! t ! k = f (P0 ! k) (data ! t) (mus ! k ! t)"
    and "L \<le> t \<Longrightarrow> t < length data \<Longrightarrow> k < Kn \<Longrightarrow> ll ! t ! k = g (P1 ! k) (data ! t) (mus ! k ! t)"
proof -
  define c0 where "c0 = map (\<lambda>(mu, p). rows_logpdf (f p) (take L data) (take L mu)) (zip mus P0)"
  define c1 where "c1 = map (\<lambda>(mu, p). rows_logpdf (g p) (drop L data) (drop L mu)) (zip mus P1)"
  have l0: "length c0 = Kn" and l1: "length c1 = Kn" using K by (simp_all add: c0_def c1_def)
  have n0: "c0 ! k = rows_logpdf (f (P0 ! k)) (take L data) (take L (mus ! k))" if "k < Kn" for k
    using that K by (simp add: c0_def)
  have n1: "c1 ! k = rows_logpdf (g (P1 ! k)) (drop L data) (drop L (mus ! k))" if "k < Kn" for k
    using that K by (simp add: c1_def)
  have len0: "length (c0 ! k) = L" if "k < Kn" for k
    using that T n0 by (simp add: rows_logpdf_def)
  have len1: "length (c1 ! k) = length data - L" if "k < Kn" for k
    using that T n1 by (simp add: rows_logpdf_def)
  note s0 = swapaxes01_cols[of c0 L, unfolded l0, OF K(1) len0]
  note s1 = swapaxes01_cols[of c1 "length data - L", unfolded l1, OF K(1) len1]
  have ll: "ll = swapaxes01 c0 @ swapaxes01 c1" by (simp add: ll_def c0_def c1_def)
  show "has_shape2 (length data) Kn ll"
    unfolding has_shape2_iff ll using s0(1,2) s1(1,2) T(2)
    by (auto simp: nth_append)
  show "t < L \<Longrightarrow> k < Kn \<Longrightarrow> ll ! t ! k = f (P0 ! k) (data ! t) (mus ! k ! t)"
    unfolding ll using s0 T n0 by (simp add: nth_append rows_logpdf_def)
  assume t: "L \<le> t" "t < length data" and k: "k < Kn"
  have "ll ! t ! k = c1 ! k ! (t - L)"
    unfolding ll using s0(1) s1(3)[of "t - L" k] t k by (simp add: nth_append)
  also have "\<dots> = g (P1 ! k) (data ! t) (mus ! k ! t)"
    using n1[OF k] T(1) k t by (simp add: rows_logpdf_def)
  finally show "ll ! t ! k = g (P1 ! k) (data ! t) (mus ! k ! t)" .
qed

lemma bcast_ll:
  fixes f :: "vec \<Rightarrow> vec \<Rightarrow> 'p \<Rightarrow> real" and g :: "vec \<Rightarrow> vec \<Rightarrow> 'q \<Rightarrow> real"
  assumes K: "length P0 = Kn" "length P1 = Kn"
    and T: "has_shape2 (length data) Kn mus" "L \<le> length data"
  defines "ll \<equiv> bcast_logpdf f (take L data) (take L mus) P0 @ bcast_logpdf g (drop L data) (drop L mus) P1"
  shows "has_shape2 (length data) Kn ll"
    and "t < L \<Longrightarrow> k < Kn \<Longrightarrow> ll ! t ! k = f (data ! t) (mus ! t ! k) (P0 ! k)"
    and "L \<le> t \<Longrightarrow> t < length data \<Longrightarrow> k < Kn \<Longrightarrow> ll ! t ! k = g (data ! t) (mus ! t ! k) (P1 ! k)"
proof -
  have m: "length mus = length data" "\<And>t. t < length data \<Longrightarrow> length (mus ! t) = Kn"
    using T(1) by (auto simp: has_shape2_iff)
  have la: "length (bcast_logpdf f (take L data) (take L mus) P0) = L"
    using m T(2) by (simp add: bcast_logpdf_def)
  show "has_shape2 (length data) Kn ll"
    unfolding has_shape2_iff ll_def using m K T(2)
    by (auto simp: nth_append bcast_logpdf_def)
  show "t < L \<Longrightarrow> k < Kn \<Longrightarrow> ll ! t ! k = f (data ! t) (mus ! t ! k) (P0 ! k)"
    unfolding ll_def using m K T(2) by (simp add: nth_append bcast_logpdf_def)
  assume t: "L \<le> t" "t < length data" and k: "k < Kn"
  then show "ll ! t ! k = g (data ! t) (mus ! t ! k) (P1 ! k)"
    unfolding ll_def using m K la by (simp add: nth_append bcast_logpdf_def)
qed

lemma compute_mus_base:
  "c \<noteq> IndependentAutoRegressiveObservations \<Longrightarrow>
   compute_mus c st data input = Inr (base_compute_mus c st data input)"
  by (simp add: compute_mus_def)

lemma predicted_mean_base:
  "c \<noteq> IndependentAutoRegressiveObservations \<Longrightarrow>
   predicted_mean c st data input t k = base_compute_mus c st data input ! k ! t"
  by (simp add: predicted_mean_def compute_mus_def)

lemma ll_indep:
  assumes p: "params_shaped IndependentAutoRegressiveObservations st"
    and n: "noise_shaped IndependentAutoRegressiveObservations st"
    and ds: "data_shaped st data input" and T: "lags st \<le> length data"
  shows "\<exists>ll. log_likelihoods lib IndependentAutoRegressiveObservations st data input msk = Inr ll \<and>
           has_shape2 (length data) (K st) ll \<and>
           (\<forall>t k. t < length data \<longrightarrow> k < K st \<longrightarrow>
              ll ! t ! k = ll_entry lib IndependentAutoRegressiveObservations st data input t k)"
proof -
  let ?c = IndependentAutoRegressiveObservations
  define mus where "mus = replicate (lags st) (mu_init st) @ indep_mus_ar st data input"
  note i = indep_compute_mus_spec[OF p ds T, folded mus_def]
  have cm: "compute_mus ?c st data input = Inr mus"
    using i(1) by (simp add: compute_mus_def)
  have sh: "has_shape2 (length data) (K st) mus"
    using i(2) by (auto simp: has_shape3_iff has_shape2_iff)
  have l: "length (sigmasq_init st) = K st" "length (sigmasq st) = K st"
    using n by (simp_all add: noise_shaped_def stores_sqrt_def sigmasq_init_def sigmasq_def)
  define ll where "ll = bcast_logpdf (diagonal_gaussian_logpdf lib) (take (lags st) data) (take (lags st) mus) (sigmasq_init st)
                 @ bcast_logpdf (diagonal_gaussian_logpdf lib) (drop (lags st) data) (drop (lags st) mus) (sigmasq st)"
  note b = bcast_ll[OF l sh T, where f="diagonal_gaussian_logpdf lib" and g="diagonal_gaussian_logpdf lib",
      folded ll_def]
  have pm: "predicted_mean ?c st data input t k = mus ! t ! k" for t k
    using cm by (simp add: predicted_mean_def)
  have a: "log_likelihoods lib ?c st data input msk = Inr ll"
    using cm by (simp add: log_likelihoods_def indep_log_likelihoods_def Let_def ll_def)
  have e: "ll ! t ! k = ll_entry lib ?c st data input t k" if t: "t < length data" and k: "k < K st" for t k
  proof (cases "t < lags st")
    case True
    then show ?thesis
      using b(2)[OF True k] i(3)[OF True] l k
      by (simp add: ll_entry_def init_row_logpdf_def stores_sqrt_def sigmasq_init_def)
  next
    case False
    then show ?thesis
      using b(3)[of t k] t k l
      by (simp add: ll_entry_def ar_row_logpdf_def pm sigmasq_def)
  qed
  show ?thesis using a b(1) e by blast
qed

lemma base_mus_facts:
  assumes p: "params_shaped c st" and ds: "data_shaped st data input" and T: "lags st \<le> length data"
    and c: "c \<noteq> IndependentAutoRegressiveObservations"
  defines "mus \<equiv> base_compute_mus c st data input"
  shows "compute_mus c st data input = Inr mus"
    and "length mus = K st" and "\<And>k. k < K st \<Longrightarrow> length (mus ! k) = length data"
    and "\<And>t k. t < lags st \<Longrightarrow> k < K st \<Longrightarrow> mus ! k ! t = mu_init st ! k"
    and "\<And>t k. predicted_mean c st data input t k = mus ! k ! t"
proof -
  show "compute_mus c st data input = Inr mus" using c by (simp add: compute_mus_base mus_def)
  have sh: "has_shape3 (K st) (length data) (D st) mus"
    unfolding mus_def by (rule base_compute_mus_shape[OF p ds T])
  then show "length mus = K st" "\<And>k. k < K st \<Longrightarrow> length (mus ! k) = length data"
    by (auto simp: has_shape3_iff has_shape2_iff)
  show "\<And>t k. t < lags st \<Longrightarrow> k < K st \<Longrightarrow> mus ! k ! t = mu_init st ! k"
    unfolding mus_def using base_compute_mus_spec(3)[OF p ds T] by simp
  show "\<And>t k. predicted_mean c st data input t k = mus ! k ! t"
    using c by (simp add: predicted_mean_base mus_def)
qed

lemma ll_ar:
  assumes p: "params_shaped AutoRegressiveObservations st"
    and n: "noise_shaped AutoRegressiveObservations st"
    and ds: "data_shaped st data input" and T: "lags st \<le> length data" and m: "np_all msk"
  shows "\<exists>ll. log_likelihoods lib AutoRegressiveObservations st data input msk = Inr ll \<and>
           has_shape2 (length data) (K st) ll \<and>
           (\<forall>t k. t < length data \<longrightarrow> k < K st \<longrightarrow>
              ll ! t ! k = ll_entry lib AutoRegressiveObservations st data input t k)"
proof -
  let ?c = AutoRegressiveObservations
  define mus where "mus = base_compute_mus ?c st data input"
  note f = base_mus_facts[OF p ds T, folded mus_def, simplified]
  have K: "0 < K st" using p by (simp add: params_shaped_def)
  define P0 where "P0 = map (\<lambda>S. matmul_T S S) (sqrt_Sigmas_init st)"
  define P1 where "P1 = map (\<lambda>S. matmul_T S S) (sqrt_Sigmas st)"
  have l: "length P0 = K st" "length P1 = K st"
    using n by (simp_all add: noise_shaped_def stores_sqrt_def P0_def P1_def)
  define ll where "ll = swapaxes01 (map (\<lambda>(mu, p). rows_logpdf (\<lambda>x m. multivariate_normal_logpdf lib x m p) (take (lags st) data) (take (lags st) mu)) (zip mus P0))
               @ swapaxes01 (map (\<lambda>(mu, p). rows_logpdf (\<lambda>x m. multivariate_normal_logpdf lib x m p) (drop (lags st) data) (drop (lags st) mu)) (zip mus P1))"
  have f3: "\<forall>k<K st. length (mus ! k) = length data" using f(3) by simp
  note s = stacked_ll[OF K f(2) l f3 T, where f="\<lambda>p x m. multivariate_normal_logpdf lib x m p"
      and g="\<lambda>p x m. multivariate_normal_logpdf lib x m p", folded ll_def]
  have a: "log_likelihoods lib ?c st data input msk = Inr ll"
    using f(1) m
    by (simp add: log_likelihoods_def ar_log_likelihoods_def Sigmas_init_def Sigmas_def
        stores_sqrt_def Let_def ll_def P0_def P1_def)
  have e: "ll ! t ! k = ll_entry lib ?c st data input t k" if t: "t < length data" and k: "k < K st" for t k
  proof (cases "t < lags st")
    case True
    then show ?thesis
      using s(2)[OF True k] f(4)[OF True k] l k n
      by (simp add: ll_entry_def init_row_logpdf_def stores_sqrt_def P0_def noise_shaped_def)
  next
    case False
    then show ?thesis
      using s(3)[of t k] t k l n
      by (simp add: ll_entry_def ar_row_logpdf_def f(5) P1_def noise_shaped_def stores_sqrt_def)
  qed
  show ?thesis using a s(1) e by blast
qed


lemma ll_diag:
  assumes p: "params_shaped AutoRegressiveDiagonalNoiseObservations st"
    and n: "noise_shaped AutoRegressiveDiagonalNoiseObservations st"
    and ds: "data_shaped st data input" and T: "lags st \<le> length data" and m: "np_all msk"
  shows "\<exists>ll. log_likelihoods lib AutoRegressiveDiagonalNoiseObservations st data input msk = Inr ll \<and>
           has_shape2 (length data) (K st) ll \<and>
           (\<forall>t k. t < length data \<longrightarrow> k < K st \<longrightarrow>
              ll ! t ! k = ll_entry lib AutoRegressiveDiagonalNoiseObservations st data input t k)"
proof -
  let ?c = AutoRegressiveDiagonalNoiseObservations
  define mus where "mus = base_compute_mus ?c st data input"
  note f = base_mus_facts[OF p ds T, folded mus_def, simplified]
  have K: "0 < K st" using p by (simp add: params_shaped_def)
  have l: "length (sigmasq_init st) = K st" "length (sigmasq st) = K st"
    using n by (simp_all add: noise_shaped_def stores_sqrt_def sigmasq_init_def sigmasq_def)
  define ll where "ll = swapaxes01 (map (\<lambda>(mu, p). rows_logpdf (\<lambda>x m. diagonal_gaussian_logpdf lib x m p) (take (lags st) data) (take (lags st) mu)) (zip mus (sigmasq_init st)))
               @ swapaxes01 (map (\<lambda>(mu, p). rows_logpdf (\<lambda>x m. diagonal_gaussian_logpdf lib x m p) (drop (lags st) data) (drop (lags st) mu)) (zip mus (sigmasq st)))"
  have f3: "\<forall>k<K st. length (mus ! k) = length data" using f(3) by simp
  note s = stacked_ll[OF K f(2) l f3 T, where f="\<lambda>p x m. diagonal_gaussian_logpdf lib x m p"
      and g="\<lambda>p x m. diagonal_gaussian_logpdf lib x m p", folded ll_def]
  have a: "log_likelihoods lib ?c st data input msk = Inr ll"
    using f(1) m
    by (simp add: log_likelihoods_def diag_log_likelihoods_def Let_def ll_def)
  have e: "ll ! t ! k = ll_entry lib ?c st data input t k" if t: "t < length data" and k: "k < K st" for t k
  proof (cases "t < lags st")
    case True
    then show ?thesis
      using s(2)[OF True k] f(4)[OF True k] l k
      by (simp add: ll_entry_def init_row_logpdf_def stores_sqrt_def sigmasq_init_def)
  next
    case False
    then show ?thesis
      using s(3)[of t k] t k l
      by (simp add: ll_entry_def ar_row_logpdf_def f(5) sigmasq_def)
  qed
  show ?thesis using a s(1) e by blast
qed

lemma ll_robust:
  assumes c: "c = RobustAutoRegressiveObservations \<or> c = RobustAutoRegressiveDiagonalNoiseObservations"
    and p: "params_shaped c st" and n: "noise_shaped c st"
    and ds: "data_shaped st data input" and T: "lags st \<le> length data" and m: "np_all msk"
  shows "\<exists>ll. log_likelihoods lib c st data input msk = Inr ll \<and>
           has_shape2 (length data) (K st) ll \<and>
           (\<forall>t k. t < length data \<longrightarrow> k < K st \<longrightarrow> ll ! t ! k = ll_entry lib c st data input t k)"
proof -
  have ci: "c \<noteq> IndependentAutoRegressiveObservations" using c by auto
  define mus where "mus = base_compute_mus c st data input"
  note f = base_mus_facts[OF p ds T ci, folded mus_def]
  have K: "0 < K st" using p by (simp add: params_shaped_def)
  define P0 where "P0 = (if stores_sqrt c then map (\<lambda>S. matmul_T S S) (sqrt_Sigmas_init st)
                         else map (\<lambda>log_s. diag (map exp log_s)) (log_sigmasq_init st))"
  define P1 where "P1 = zip (if stores_sqrt c then map (\<lambda>S. matmul_T S S) (sqrt_Sigmas st)
                         else map (\<lambda>log_s. diag (map exp log_s)) (log_sigmasq st)) (nus st)"
  have S0: "Sigmas_init c st = Inr P0" using ci by (simp add: Sigmas_init_def P0_def)
  have S1: "Sigmas c st = Inr (map fst P1)" "nus st = map snd P1"
    using ci n c by (auto simp: Sigmas_def P1_def noise_shaped_def nus_def stores_sqrt_def)
  have l: "length P0 = K st" "length P1 = K st"
    using n c by (auto simp: noise_shaped_def P0_def P1_def nus_def stores_sqrt_def)
  define ll where "ll = swapaxes01 (map (\<lambda>(mu, p). rows_logpdf (\<lambda>x m. multivariate_normal_logpdf lib x m p) (take (lags st) data) (take (lags st) mu)) (zip mus P0))
               @ swapaxes01 (map (\<lambda>(mu, p). rows_logpdf (\<lambda>x m. multivariate_studentst_logpdf lib x m (fst p) (snd p)) (drop (lags st) data) (drop (lags st) mu)) (zip mus P1))"
  have f3: "\<forall>k<K st. length (mus ! k) = length data" using f(3) by simp
  note s = stacked_ll[OF K f(2) l f3 T, where f="\<lambda>p x m. multivariate_normal_logpdf lib x m p"
      and g="\<lambda>p x m. multivariate_studentst_logpdf lib x m (fst p) (snd p)", folded ll_def]
  have z: "zip (map fst P1) (map snd P1) = P1" by (simp add: zip_map_fst_snd)
  have a: "log_likelihoods lib c st data input msk = Inr ll"
    using f(1) m c S0 S1
    by (auto simp: log_likelihoods_def robust_log_likelihoods_def Let_def ll_def z case_prod_unfold)
  have e: "ll ! t ! k = ll_entry lib c st data input t k" if t: "t < length data" and k: "k < K st" for t k
  proof (cases "t < lags st")
    case True
    then show ?thesis
      using s(2)[OF True k] f(4)[OF True k] l k n c
      by (auto simp: ll_entry_def init_row_logpdf_def stores_sqrt_def P0_def noise_shaped_def)
  next
    case False
    then show ?thesis
      using s(3)[of t k] t k l n c
      by (auto simp: ll_entry_def ar_row_logpdf_def f(5) P1_def noise_shaped_def stores_sqrt_def nus_def)
  qed
  show ?thesis using a s(1) e by blast
qed

lemma ll_alt:
  assumes p: "params_shaped AltRobustAutoRegressiveDiagonalNoiseObservations st"
    and n: "noise_shaped AltRobustAutoRegressiveDiagonalNoiseObservations st"
    and ds: "data_shaped st data input" and T: "lags st \<le> length data" and m: "np_all msk"
  shows "\<exists>ll. log_likelihoods lib AltRobustAutoRegressiveDiagonalNoiseObservations st data input msk = Inr ll \<and>
           has_shape2 (length data) (K st) ll \<and>
           (\<forall>t k. t < length data \<longrightarrow> k < K st \<longrightarrow>
              ll ! t ! k = ll_entry lib AltRobustAutoRegressiveDiagonalNoiseObservations st data input t k)"
proof -
  let ?c = AltRobustAutoRegressiveDiagonalNoiseObservations
  define r where "r = base_compute_mus ?c st data input"
  note f = base_mus_facts[OF p ds T, folded r_def, simplified]
  have K: "0 < K st" using p by (simp add: params_shaped_def)
  define mus where "mus = swapaxes01 r"
  have r0: "0 < length r" using f(2) K by simp
  have sw: "length mus = length data"
    "\<And>t. t < length data \<Longrightarrow> length (mus ! t) = K st"
    "\<And>t k. t < length data \<Longrightarrow> k < K st \<Longrightarrow> mus ! t ! k = r ! k ! t"
    using swapaxes01_cols[of r "length data"] r0 f(2) f(3) by (simp_all add: mus_def)
  have sh: "has_shape2 (length data) (K st) mus"
    using sw(1,2) by (simp add: has_shape2_iff)
  define P1 where "P1 = zip (sigmasq st) (nus_kd st)"
  have l: "length (sigmasq_init st) = K st" "length P1 = K st"
    using n by (simp_all add: noise_shaped_def stores_sqrt_def sigmasq_init_def sigmasq_def P1_def nus_kd_def)
  define ll where "ll = bcast_logpdf (diagonal_gaussian_logpdf lib) (take (lags st) data) (take (lags st) mus) (sigmasq_init st)
                 @ bcast_logpdf (\<lambda>x m (s, nu). independent_studentst_logpdf lib x m s nu) (drop (lags st) data) (drop (lags st) mus) P1"
  note b = bcast_ll[OF l sh T, where f="diagonal_gaussian_logpdf lib"
      and g="\<lambda>x m (s, nu). independent_studentst_logpdf lib x m s nu", folded ll_def]
  have a: "log_likelihoods lib ?c st data input msk = Inr ll"
    using f(1) m by (simp add: log_likelihoods_def alt_log_likelihoods_def Let_def ll_def mus_def P1_def)
  have e: "ll ! t ! k = ll_entry lib ?c st data input t k" if t: "t < length data" and k: "k < K st" for t k
  proof (cases "t < lags st")
    case True
    then show ?thesis
      using b(2)[OF True k] sw(3)[OF t k] f(4)[OF True k] l k
      by (simp add: ll_entry_def init_row_logpdf_def stores_sqrt_def sigmasq_init_def)
  next
    case False
    then show ?thesis
      using b(3)[of t k] sw(3)[OF t k] t k l n
      by (simp add: ll_entry_def ar_row_logpdf_def f(5) sigmasq_def nus_kd_def P1_def noise_shaped_def)
  qed
  show ?thesis using a b(1) e by blast
qed

text \<open>
  Claim C2: for a sequence of \<open>T \<ge> lags\<close> observations with an all-true mask,
  \<open>log_likelihoods\<close> of every class returns a matrix of \<open>T\<close> rows and \<open>K\<close> columns; the
  entries of rows \<open>0, ..., lags - 1\<close> are the log densities under the initial noise
  parameters (\<open>Sigmas_init\<close>, \<open>sigmasq_init\<close>) around \<open>mu_init\<close>, the entries of the later
  rows the log densities under the steady-state noise parameters (\<open>Sigmas\<close>, \<open>sigmasq\<close>)
  around the predicted mean.
\<close>

theorem log_likelihoods_rows:
  assumes "params_shaped c st" and "noise_shaped c st"
    and "data_shaped st data input" and "lags st \<le> length data" and "np_all msk"
  shows "\<exists>ll. log_likelihoods lib c st data input msk = Inr ll \<and>
           has_shape2 (length data) (K st) ll \<and>
           (\<forall>t k. t < length data \<longrightarrow> k < K st \<longrightarrow> ll ! t ! k = ll_entry lib c st data input t k)"
proof (cases c)
  case AutoRegressiveObservations
  then show ?thesis using assms ll_ar by simp
next
  case AutoRegressiveDiagonalNoiseObservations
  then show ?thesis using assms ll_diag by simp
next
  case IndependentAutoRegressiveObservations
  then show ?thesis using assms ll_indep by simp
next
  case RobustAutoRegressiveObservations
  then show ?thesis using assms ll_robust[of c] by simp
next
  case RobustAutoRegressiveDiagonalNoiseObservations
  then show ?thesis using assms ll_robust[of c] by simp
next
  case AltRobustAutoRegressiveDiagonalNoiseObservations
  then show ?thesis using assms ll_alt by simp
qed

theorem log_likelihoods_rows_witness:
  "\<forall>lib. params_shaped AutoRegressiveDiagonalNoiseObservations small_example \<and>
     noise_shaped AutoRegressiveDiagonalNoiseObservations small_example \<and>
     data_shaped small_example [[1], [2], [3]] [[], [], []] \<and>
     lags small_example \<le> length [[1::real], [2], [3]] \<and>
     np_all [[True], [True], [True]] \<and>
     (\<exists>ll. log_likelihoods lib AutoRegressiveDiagonalNoiseObservations small_example
              [[1], [2], [3]] [[], [], []] [[True], [True], [True]] = Inr ll \<and>
           has_shape2 3 2 ll \<and>
           ll ! 0 ! 1 = diagonal_gaussian_logpdf lib [1] [1] [1] \<and>
           ll ! 2 ! 0 = diagonal_gaussian_logpdf lib [3] [2] [1])"
proof
  fix lib
  let ?c = AutoRegressiveDiagonalNoiseObservations
  have h1: "params_shaped ?c small_example"
    by (simp add: params_shaped_def small_example_def has_shape2_def has_shape3_def)
  have h2: "noise_shaped ?c small_example"
    by (simp add: noise_shaped_def small_example_def stores_sqrt_def)
  have h3: "data_shaped small_example [[1], [2], [3]] [[], [], []]"
    by (simp add: data_shaped_def small_example_def has_shape2_def)
  have h4: "lags small_example \<le> length [[1::real], [2], [3]]"
    by (simp add: small_example_def)
  have h5: "np_all [[True], [True], [True]]"
    by (simp add: np_all_def)
  have m: "predicted_mean ?c small_example [[1], [2], [3]] [[], [], []] 2 0 = [2]"
    by (simp add: predicted_mean_def compute_mus_def base_compute_mus_def mus_k_def
        small_example_def As_def matmul_T_def lagged_def ncols_def dot_def vadd_def madd_def
        Let_def)
  from log_likelihoods_rows[OF h1 h2 h3 h4 h5, of lib]
  obtain ll where ll: "log_likelihoods lib ?c small_example [[1], [2], [3]] [[], [], []]
        [[True], [True], [True]] = Inr ll"
    "has_shape2 (length [[1::real], [2], [3]]) (K small_example) ll"
    "\<And>t k. t < length [[1::real], [2], [3]] \<Longrightarrow> k < K small_example \<Longrightarrow>
       ll ! t ! k = ll_entry lib ?c small_example [[1], [2], [3]] [[], [], []] t k"
    by blast
  have e1: "ll ! 0 ! 1 = diagonal_gaussian_logpdf lib [1] [1] [1]"
    using ll(3)[of 0 1]
    by (simp add: ll_entry_def init_row_logpdf_def stores_sqrt_def small_example_def)
  have e2: "ll ! 2 ! 0 = diagonal_gaussian_logpdf lib [3] [2] [1]"
    using ll(3)[of 2 0] m
    by (simp add: ll_entry_def ar_row_logpdf_def small_example_def)
  have sh: "has_shape2 3 2 ll"
    using ll(2) by (simp add: small_example_def eval_nat_numeral)
  show "params_shaped ?c small_example \<and>
     noise_shaped ?c small_example \<and>
     data_shaped small_example [[1], [2], [3]] [[], [], []] \<and>
     lags small_example \<le> length [[1::real], [2], [3]] \<and>
     np_all [[True], [True], [True]] \<and>
     (\<exists>ll. log_likelihoods lib ?c small_example
              [[1], [2], [3]] [[], [], []] [[True], [True], [True]] = Inr ll \<and>
           has_shape2 3 2 ll \<and>
           ll ! 0 ! 1 = diagonal_gaussian_logpdf lib [1] [1] [1] \<and>
           ll ! 2 ! 0 = diagonal_gaussian_logpdf lib [3] [2] [1])"
    using h1 h2 h3 h4 h5 ll(1) sh e1 e2 by blast
qed

subsection \<open>\<open>permute\<close>\<close>

lemma index_by_inverse:
  assumes "length perm = length xs" "length iperm = length xs"
    and "\<And>i. i < length xs \<Longrightarrow> perm ! i < length xs"
    and "\<And>i. i < length xs \<Longrightarrow> iperm ! i < length xs \<and> perm ! (iperm ! i) = i"
  shows "index_by xs perm = Inr (map (nth xs) perm)"
    and "index_by (map (nth xs) perm) iperm = Inr xs"
proof -
  have p: "list_all (\<lambda>i. i < length xs) perm"
    using assms(1,3) by (auto simp: list_all_length)
  show "index_by xs perm = Inr (map (nth xs) perm)"
    using p by (simp add: index_by_def)
  have q: "list_all (\<lambda>i. i < length (map (nth xs) perm)) iperm"
    using assms(1,2,4) by (auto simp: list_all_length)
  have "map (nth (map (nth xs) perm)) iperm = xs"
    using assms by (intro nth_equalityI) auto
  with q show "index_by (map (nth xs) perm) iperm = Inr xs"
    by (simp add: index_by_def)
qed

lemma inverse_perms_index_by:
  assumes "inverse_perms n perm iperm" "length xs = n"
  shows "index_by xs perm = Inr (map (nth xs) perm)"
    and "index_by (map (nth xs) perm) iperm = Inr xs"
  using assms index_by_inverse[of perm xs iperm]
  by (auto simp: inverse_perms_def list_all_iff)

text \<open>
  For every class but the Alt class, permuting by a permutation and then by its inverse
  returns the object unchanged.
\<close>

lemma permute_roundtrip:
  assumes "c \<noteq> AltRobustAutoRegressiveDiagonalNoiseObservations"
    and "inverse_perms (K st) perm iperm" and "permuted_lengths c st"
  shows "and_then (permute c perm st) (permute c iperm) = Returned st"
  using assms
  by (cases c)
     (simp_all add: permute_def ar_permute_def diag_permute_def indep_permute_def base_permute_def
        permute_attr_def permuted_lengths_def stores_sqrt_def As_def set_As_def
        inverse_perms_index_by)

lemma permute_alt_never_returns:
  "\<not> is_Returned (permute AltRobustAutoRegressiveDiagonalNoiseObservations perm st)"
  by (cases "diag_permute AltRobustAutoRegressiveDiagonalNoiseObservations perm st")
     (simp_all add: permute_def)

text \<open>
  Claim C8 (every class's \<open>permute\<close> followed by \<open>permute\<close> with the inverse restores every
  parameter without raising) fails for \<open>AltRobustAutoRegressiveDiagonalNoiseObservations\<close>:
  with two states and the permutation \<open>[1, 0]\<close> the call raises \<^verbatim>\<open>AttributeError\<close> at
  \<^verbatim>\<open>self.inv_nus\<close>, after the parameters of the diagonal class have been permuted and
  before the degrees of freedom are.
\<close>

theorem permute_alt_raises:
  "permute AltRobustAutoRegressiveDiagonalNoiseObservations [1, 0] alt_example =
     Raised AttributeError (alt_example\<lparr>mu_init := [[1], [0]], As_stored := [[[-1/2]], [[1/2]]],
       bs := [[0], [1]], log_sigmasq := [[1], [0]]\<rparr>)"
  by (simp add: permute_def diag_permute_def base_permute_def permute_attr_def index_by_def
      As_def set_As_def alt_example_def)

subsection \<open>The noise setters\<close>

lemma those_map_Some:
  "list_all (\<lambda>x. f x \<noteq> None) xs \<Longrightarrow> those (map f xs) = Some (map (\<lambda>x. the (f x)) xs)"
  by (induction xs) auto

lemma those_map_None:
  "\<not> list_all (\<lambda>x. f x \<noteq> None) xs \<Longrightarrow> those (map f xs) = None"
  by (induction xs) (auto split: option.splits)

lemma set_Sigmas_cases:
  assumes "c \<noteq> IndependentAutoRegressiveObservations"
  shows "set_Sigmas chol c v st =
          (if \<not> has_shape3 (K st) (D st) (D st) v then Raised AssertionError st
           else if stores_sqrt c then
             (if list_all (\<lambda>S. chol S \<noteq> None) v
              then Returned (st\<lparr>sqrt_Sigmas := map (\<lambda>S. the (chol S)) v\<rparr>)
              else Raised LinAlgError st)
           else
             (if list_all (list_all (\<lambda>s. 0 < s)) (map diagonal v)
              then Returned (st\<lparr>log_sigmasq := map (map ln) (map diagonal v)\<rparr>)
              else Raised AssertionError st))"
  using assms by (auto simp: set_Sigmas_def Let_def those_map_Some those_map_None)

lemma set_Sigmas_getter:
  assumes c: "c \<noteq> IndependentAutoRegressiveObservations"
    and ok: "is_Returned (set_Sigmas chol c v st)"
  shows "Sigmas c (final_state (set_Sigmas chol c v st)) =
             Inr (if stores_sqrt c then map (\<lambda>S. matmul_T (the (chol S)) (the (chol S))) v
                  else map (\<lambda>S. diag (map exp (map ln (diagonal S)))) v)"
proof (cases "stores_sqrt c")
  case True
  have "set_Sigmas chol c v st = Returned (st\<lparr>sqrt_Sigmas := map (\<lambda>S. the (chol S)) v\<rparr>)"
    using ok True unfolding set_Sigmas_cases[OF c] by (auto split: if_splits)
  then show ?thesis using True c by (simp add: Sigmas_def o_def)
next
  case False
  have "set_Sigmas chol c v st = Returned (st\<lparr>log_sigmasq := map (map ln) (map diagonal v)\<rparr>)"
    using ok False unfolding set_Sigmas_cases[OF c] by (auto split: if_splits)
  then show ?thesis using False c by (simp add: Sigmas_def o_def)
qed

lemma set_sigmasq_cases:
  assumes "c \<noteq> IndependentAutoRegressiveObservations" and "\<not> stores_sqrt c"
  shows "set_sigmasq c w st =
           (if has_shape2 (K st) (D st) w \<and> list_all (list_all (\<lambda>s. 0 < s)) w
            then Returned (st\<lparr>log_sigmasq := map (map ln) w\<rparr>)
            else Raised AssertionError st)"
    and "set_sigmasq_init c w st =
           (if has_shape2 (K st) (D st) w \<and> list_all (list_all (\<lambda>s. 0 < s)) w
            then Returned (st\<lparr>log_sigmasq_init := map (map ln) w\<rparr>)
            else Raised AssertionError st)"
  using assms by (simp_all add: set_sigmasq_def set_sigmasq_init_def)

text \<open>
  Claim C10, as amended. The \<open>Sigmas\<close> setter of the full-covariance classes raises exactly
  when the shape is not \<open>(K, D, D)\<close> or the Cholesky factorisation of one matrix fails, and
  after a successful call the getter returns \<open>L L\<^sup>T\<close> of the stored factors. The \<open>Sigmas\<close>
  setter of the classes with diagonal noise raises exactly when the shape is wrong or a
  diagonal entry is not positive, and after a successful call the getter returns the
  diagonal matrices of the exponentials of the logarithms of the given diagonals. On
  those classes the setters \<open>sigmasq\<close> and \<open>sigmasq_init\<close> raise exactly when the shape is
  not \<open>(K, D)\<close> or an entry is not positive, and after a successful call the getter returns
  the exponentials of the logarithms of the given entries. A call that raises leaves the
  object unchanged.
\<close>

theorem noise_setters:
  assumes c: "c \<noteq> IndependentAutoRegressiveObservations"
  shows "(is_Returned (set_Sigmas chol c v st) \<longleftrightarrow>
           has_shape3 (K st) (D st) (D st) v \<and>
           (if stores_sqrt c then list_all (\<lambda>S. chol S \<noteq> None) v
            else list_all (list_all (\<lambda>s. 0 < s)) (map diagonal v))) \<and>
         (\<not> is_Returned (set_Sigmas chol c v st) \<longrightarrow> final_state (set_Sigmas chol c v st) = st) \<and>
         (is_Returned (set_Sigmas chol c v st) \<longrightarrow>
           Sigmas c (final_state (set_Sigmas chol c v st)) =
             Inr (if stores_sqrt c then map (\<lambda>S. matmul_T (the (chol S)) (the (chol S))) v
                  else map (\<lambda>S. diag (map exp (map ln (diagonal S)))) v)) \<and>
         (\<not> stores_sqrt c \<longrightarrow>
           (is_Returned (set_sigmasq c w st) \<longleftrightarrow>
              has_shape2 (K st) (D st) w \<and> list_all (list_all (\<lambda>s. 0 < s)) w) \<and>
           (\<not> is_Returned (set_sigmasq c w st) \<longrightarrow> final_state (set_sigmasq c w st) = st) \<and>
           (is_Returned (set_sigmasq c w st) \<longrightarrow>
              sigmasq (final_state (set_sigmasq c w st)) = map (map exp) (map (map ln) w)) \<and>
           (is_Returned (set_sigmasq_init c w st) \<longleftrightarrow>
              has_shape2 (K st) (D st) w \<and> list_all (list_all (\<lambda>s. 0 < s)) w) \<and>
           (\<not> is_Returned (set_sigmasq_init c w st) \<longrightarrow>
              final_state (set_sigmasq_init c w st) = st) \<and>
           (is_Returned (set_sigmasq_init c w st) \<longrightarrow>
              sigmasq_init (final_state (set_sigmasq_init c w st))
              = map (map exp) (map (map ln) w)))"
proof -
  note sc = set_Sigmas_cases[OF c, of chol v st]
  have s1: "is_Returned (set_Sigmas chol c v st) \<longleftrightarrow>
           has_shape3 (K st) (D st) (D st) v \<and>
           (if stores_sqrt c then list_all (\<lambda>S. chol S \<noteq> None) v
            else list_all (list_all (\<lambda>s. 0 < s)) (map diagonal v))"
    unfolding sc by simp
  have s2: "\<not> is_Returned (set_Sigmas chol c v st) \<longrightarrow> final_state (set_Sigmas chol c v st) = st"
    unfolding sc by simp
  have s3: "is_Returned (set_Sigmas chol c v st) \<longrightarrow>
           Sigmas c (final_state (set_Sigmas chol c v st)) =
             Inr (if stores_sqrt c then map (\<lambda>S. matmul_T (the (chol S)) (the (chol S))) v
                  else map (\<lambda>S. diag (map exp (map ln (diagonal S)))) v)"
    using set_Sigmas_getter[OF c] by blast
  have s4: "(is_Returned (set_sigmasq c w st) \<longleftrightarrow>
              has_shape2 (K st) (D st) w \<and> list_all (list_all (\<lambda>s. 0 < s)) w) \<and>
           (\<not> is_Returned (set_sigmasq c w st) \<longrightarrow> final_state (set_sigmasq c w st) = st) \<and>
           (is_Returned (set_sigmasq c w st) \<longrightarrow>
              sigmasq (final_state (set_sigmasq c w st)) = map (map exp) (map (map ln) w))"
    if d: "\<not> stores_sqrt c"
  proof (cases "has_shape2 (K st) (D st) w \<and> list_all (list_all (\<lambda>s. 0 < s)) w")
    case True
    then have "set_sigmasq c w st = Returned (st\<lparr>log_sigmasq := map (map ln) w\<rparr>)"
      by (simp add: set_sigmasq_cases(1)[OF c d])
    then show ?thesis using True by (simp add: sigmasq_def)
  next
    case False
    then have "set_sigmasq c w st = Raised AssertionError st"
      by (simp add: set_sigmasq_cases(1)[OF c d])
    then show ?thesis using False by simp
  qed
  have s5: "(is_Returned (set_sigmasq_init c w st) \<longleftrightarrow>
              has_shape2 (K st) (D st) w \<and> list_all (list_all (\<lambda>s. 0 < s)) w) \<and>
           (\<not> is_Returned (set_sigmasq_init c w st) \<longrightarrow>
              final_state (set_sigmasq_init c w st) = st) \<and>
           (is_Returned (set_sigmasq_init c w st) \<longrightarrow>
              sigmasq_init (final_state (set_sigmasq_init c w st))
              = map (map exp) (map (map ln) w))"
    if d: "\<not> stores_sqrt c"
  proof (cases "has_shape2 (K st) (D st) w \<and> list_all (list_all (\<lambda>s. 0 < s)) w")
    case True
    then have "set_sigmasq_init c w st = Returned (st\<lparr>log_sigmasq_init := map (map ln) w\<rparr>)"
      by (simp add: set_sigmasq_cases(2)[OF c d])
    then show ?thesis using True by (simp add: sigmasq_init_def)
  next
    case False
    then have "set_sigmasq_init c w st = Raised AssertionError st"
      by (simp add: set_sigmasq_cases(2)[OF c d])
    then show ?thesis using False by simp
  qed
  show ?thesis
    using s1 s2 s3 s4 s5 by blast
qed

lemma ref_cholesky_small:
  "ref_cholesky [[4]] = Some [[2]]" "ref_cholesky [[-4]] = None"
  "ref_cholesky [[1, 5], [0, 1]] = Some [[1, 0], [0, 1]]"
  by (simp_all add: ref_cholesky_def dot_def Let_def)

theorem noise_setters_witness:
  "is_Returned (set_Sigmas ref_cholesky AutoRegressiveObservations [[[4]]] ar_1d_example) \<and>
   Sigmas AutoRegressiveObservations
     (final_state (set_Sigmas ref_cholesky AutoRegressiveObservations [[[4]]] ar_1d_example))
     = Inr [[[4]]] \<and>
   \<not> is_Returned (set_Sigmas ref_cholesky AutoRegressiveObservations [[[-4]]] ar_1d_example) \<and>
   final_state (set_Sigmas ref_cholesky AutoRegressiveObservations [[[-4]]] ar_1d_example)
     = ar_1d_example \<and>
   is_Returned (set_Sigmas ref_cholesky AutoRegressiveDiagonalNoiseObservations
     [[[4, 1], [1, 9]]] diag_2d_example) \<and>
   Sigmas AutoRegressiveDiagonalNoiseObservations
     (final_state (set_Sigmas ref_cholesky AutoRegressiveDiagonalNoiseObservations
        [[[4, 1], [1, 9]]] diag_2d_example))
     = Inr [diag (map exp [ln 4, ln 9])] \<and>
   is_Returned (set_sigmasq AutoRegressiveDiagonalNoiseObservations [[4, 9]] diag_2d_example) \<and>
   sigmasq (final_state (set_sigmasq AutoRegressiveDiagonalNoiseObservations [[4, 9]]
     diag_2d_example)) = [map exp [ln 4, ln 9]] \<and>
   \<not> is_Returned (set_sigmasq AutoRegressiveDiagonalNoiseObservations [[4, 9, 1]]
     diag_2d_example) \<and>
   final_state (set_sigmasq AutoRegressiveDiagonalNoiseObservations [[4, 9, 1]] diag_2d_example)
     = diag_2d_example \<and>
   \<not> is_Returned (set_sigmasq_init AutoRegressiveDiagonalNoiseObservations [[0, 1]]
     diag_2d_example) \<and>
   final_state (set_sigmasq_init AutoRegressiveDiagonalNoiseObservations [[0, 1]] diag_2d_example)
     = diag_2d_example"
proof -
  have c: "AutoRegressiveObservations \<noteq> IndependentAutoRegressiveObservations"
    and d: "AutoRegressiveDiagonalNoiseObservations \<noteq> IndependentAutoRegressiveObservations"
    by simp_all
  have sh: "K ar_1d_example = 1" "D ar_1d_example = 1" "K diag_2d_example = 1"
    "D diag_2d_example = 2"
    by (simp_all add: ar_1d_example_def diag_2d_example_def)
  note a = noise_setters[OF c, of ref_cholesky "[[[4]]]" ar_1d_example]
  note b = noise_setters[OF c, of ref_cholesky "[[[-4]]]" ar_1d_example]
  note e = noise_setters[OF d, of ref_cholesky "[[[4, 1], [1, 9]]]" diag_2d_example "[[4, 9]]"]
  note f = noise_setters[OF d, of ref_cholesky "[[[4, 1], [1, 9]]]" diag_2d_example "[[4, 9, 1]]"]
  note g = noise_setters[OF d, of ref_cholesky "[[[4, 1], [1, 9]]]" diag_2d_example "[[0, 1]]"]
  have a': "is_Returned (set_Sigmas ref_cholesky AutoRegressiveObservations [[[4]]] ar_1d_example) \<and>
   Sigmas AutoRegressiveObservations
     (final_state (set_Sigmas ref_cholesky AutoRegressiveObservations [[[4]]] ar_1d_example))
     = Inr [[[4]]]"
    using a
    by (simp add: ref_cholesky_small sh has_shape3_def has_shape2_def stores_sqrt_def matmul_T_def
        dot_def)
  have b': "\<not> is_Returned (set_Sigmas ref_cholesky AutoRegressiveObservations [[[-4]]] ar_1d_example) \<and>
   final_state (set_Sigmas ref_cholesky AutoRegressiveObservations [[[-4]]] ar_1d_example)
     = ar_1d_example"
    using b
    by (simp add: ref_cholesky_small sh has_shape3_def has_shape2_def stores_sqrt_def)
  have e': "is_Returned (set_Sigmas ref_cholesky AutoRegressiveDiagonalNoiseObservations
     [[[4, 1], [1, 9]]] diag_2d_example) \<and>
   Sigmas AutoRegressiveDiagonalNoiseObservations
     (final_state (set_Sigmas ref_cholesky AutoRegressiveDiagonalNoiseObservations
        [[[4, 1], [1, 9]]] diag_2d_example))
     = Inr [diag (map exp [ln 4, ln 9])] \<and>
   is_Returned (set_sigmasq AutoRegressiveDiagonalNoiseObservations [[4, 9]] diag_2d_example) \<and>
   sigmasq (final_state (set_sigmasq AutoRegressiveDiagonalNoiseObservations [[4, 9]]
     diag_2d_example)) = [map exp [ln 4, ln 9]]"
    using e
    by (simp add: sh has_shape3_def has_shape2_def stores_sqrt_def diagonal_def numeral_2_eq_2)
  have f': "\<not> is_Returned (set_sigmasq AutoRegressiveDiagonalNoiseObservations [[4, 9, 1]]
     diag_2d_example) \<and>
   final_state (set_sigmasq AutoRegressiveDiagonalNoiseObservations [[4, 9, 1]] diag_2d_example)
     = diag_2d_example"
    using f by (simp add: sh has_shape2_def stores_sqrt_def)
  have g': "\<not> is_Returned (set_sigmasq_init AutoRegressiveDiagonalNoiseObservations [[0, 1]]
     diag_2d_example) \<and>
   final_state (set_sigmasq_init AutoRegressiveDiagonalNoiseObservations [[0, 1]] diag_2d_example)
     = diag_2d_example"
    using g by (simp add: sh has_shape2_def stores_sqrt_def)
  from a' b' e' f' g' show ?thesis by simp
qed

text \<open>
  Claim C10 as stated fails. The matrix \<open>((1, 2), (2, 1))\<close> is symmetric and not positive
  definite (its quadratic form at \<open>(1, -1)\<close> is negative), and the \<open>Sigmas\<close> setter of the
  diagonal class accepts it, keeps the diagonal and returns the identity from the getter.
  The matrix \<open>((1, 5), (0, 1))\<close> is not symmetric, and the \<open>Sigmas\<close> setter of the
  full-covariance class, which checks the shape and leaves the rest to the Cholesky
  factorisation, accepts it when the factorisation reads the lower triangle only, as
  LAPACK's does; the getter then returns the identity.
\<close>

theorem noise_setters_counterexample:
  "set_Sigmas ref_cholesky AutoRegressiveDiagonalNoiseObservations [[[1, 2], [2, 1]]] diag_2d_example
     = Returned (diag_2d_example\<lparr>log_sigmasq := [[0, 0]]\<rparr>) \<and>
   quadform [[1, 2], [2, 1]] [1, -1] < 0 \<and>
   Sigmas AutoRegressiveDiagonalNoiseObservations (diag_2d_example\<lparr>log_sigmasq := [[0, 0]]\<rparr>)
     = Inr [[[1, 0], [0, 1]]] \<and>
   set_Sigmas ref_cholesky AutoRegressiveObservations [[[1, 5], [0, 1]]] ar_2d_example
     = Returned (ar_2d_example\<lparr>sqrt_Sigmas := [[[1, 0], [0, 1]]]\<rparr>) \<and>
   Sigmas AutoRegressiveObservations (ar_2d_example\<lparr>sqrt_Sigmas := [[[1, 0], [0, 1]]]\<rparr>)
     = Inr [[[1, 0], [0, 1]]]"
  by (simp add: set_Sigmas_def diag_2d_example_def ar_2d_example_def has_shape3_def stores_sqrt_def
      diagonal_def quadform_def dot_def Sigmas_def diag_def matmul_T_def ref_cholesky_small Let_def)

subsection \<open>The M-steps\<close>

lemma indep_states_As_stored:
  "As_stored (final_state (indep_states solve d xs ys weights ks st)) = As_stored st"
proof (induction ks arbitrary: st)
  case Nil
  then show ?case by simp
next
  case (Cons k ks)
  show ?case
    by (simp add: Let_def Cons split: option.splits)
qed

lemma indep_dims_As_stored:
  "As_stored (final_state (indep_dims solve seqs ds st)) = As_stored st"
proof (induction ds arbitrary: st)
  case Nil
  then show ?case by simp
next
  case (Cons d ds)
  have a: "As_stored (final_state (and_then (indep_states solve d xs ys w ks st)
              (indep_dims solve seqs ds))) = As_stored st" for xs ys w ks
  proof (cases "indep_states solve d xs ys w ks st")
    case (Returned s)
    then show ?thesis
      using indep_states_As_stored[of solve d xs ys w ks st] Cons[of s] by simp
  next
    case (Raised e s)
    then show ?thesis
      using indep_states_As_stored[of solve d xs ys w ks st] by simp
  qed
  show ?case
    by (simp add: Let_def a Cons split: sum.splits)
qed

lemma indep_m_step_As_stored:
  "As_stored (final_state (indep_m_step solve st expectations datas inputs masks)) = As_stored st"
  by (simp add: indep_m_step_def indep_dims_As_stored)

text \<open>
  Claim C7 (after the M-step of the independent class an ill-supported pair has the lag
  coefficient 1 and a well-supported pair the solution of its regression) fails on the
  code, which never writes \<^verbatim>\<open>_As\<close> (\<open>indep_m_step_As_stored\<close>). With two states, every
  time step of the sequence 0, 1, 0, 1 given to state 0 and the constructor's
  coefficients 0.95, the regression of state 0 has the solution \<open>(-1, 1)\<close>: the bias
  becomes 1, both lag coefficients stay 0.95, and the variance of state 0 is computed
  with 0.95.
\<close>

theorem indep_m_step_keeps_lag_coefficients:
  "indep_m_step ref_solve_vec indep_fresh_example [all_state0] [four_steps] [four_inputs] [full_mask]
     = Returned (indep_fresh_example\<lparr>bs := [[1], [0]],
                   log_sigmasq := [[ln (507/400 + 1/10^16)], [0]]\<rparr>) \<and>
   ref_solve_vec [[1, 1], [1, 3]] [0, 2] = Some [-1, 1] \<and>
   As_stored indep_fresh_example = [[[19/20]], [[19/20]]]"
proof -
  have c1: "indep_collect (Suc 0) 0 0 [(all_state0, four_steps, four_inputs, full_mask)]
      = Inr [([[0, 1], [1, 1], [0, 1]], [1, 0, 1], [[1, 0], [1, 0], [1, 0]])]"
    by (simp add: all_state0_def four_steps_def four_inputs_def full_mask_def design_d_def
        lagged_def column_def)
  have s1: "ref_solve_vec [[1, 1], [1, 3]] [0, 2] = Some [-1, 1]"
    by (simp add: ref_solve_vec_def ref_solve_def pivot_index_def Let_def)
  have "indep_m_step ref_solve_vec indep_fresh_example [all_state0] [four_steps] [four_inputs]
          [full_mask]
        = Returned (indep_fresh_example\<lparr>bs := [[1], [0]],
                      log_sigmasq := [[ln (507/400 + 1/10^16)], [0]]\<rparr>)"
    apply (simp add: indep_m_step_def indep_fresh_example_def c1 Let_def del: indep_collect.simps)
    apply (simp add: column_def xtwy_def s1 set_kd_def As_def dense_of_def dot_def numeral_2_eq_2
        Let_def)
    done
  then show ?thesis
    using s1 by (simp add: indep_fresh_example_def)
qed

lemma ar_normal_equations_prior:
  "ar_normal_equations st seqs J0 h0 = ar_normal_equations st seqs None None"
  by (simp add: ar_normal_equations_def Let_def)

text \<open>
  Claim C5 (a prior \<open>J0\<close>, \<open>h0\<close> supplied to the M-step of the full-covariance Gaussian
  class is the starting point of the normal equations) fails on the code: after the
  shape assertions the supplied prior is overwritten by the ridge prior, so the call
  returns what the call without a prior returns.
\<close>

theorem ar_m_step_ignores_prior:
  "ar_m_step solve chol rng c st expectations datas inputs masks tags (Some J0) (Some h0) =
     (if has_shape3 (K st) (prior_dim st) (prior_dim st) J0 \<and>
         has_shape3 (K st) (prior_dim st) (D st) h0
      then ar_m_step solve chol rng c st expectations datas inputs masks tags None None
      else case collect (lags st) (M st)
                  (zip expectations (zip datas (zip inputs (zip masks tags)))) of
             Inl e \<Rightarrow> Raised e st
           | Inr seqs \<Rightarrow> Raised AssertionError st)"
  by (simp add: ar_m_step_def check_prior_def ar_normal_equations_prior[of st _ "Some J0" "Some h0"]
      split: sum.splits)

subsection \<open>Missing data\<close>

lemma raised_and_then:
  "raised (and_then r f) = Some e \<Longrightarrow>
   raised r = Some e \<or> (\<exists>s. r = Returned s \<and> raised (f s) = Some e)"
  by (cases r) auto

lemma collect_no_missing:
  "list_all (\<lambda>(e, data, input, msk, tag). np_all msk) seqs \<Longrightarrow> collect L Mi seqs \<noteq> Inl MissingData"
  by (induction seqs) (auto split: sum.splits if_splits)

lemma collect_missing:
  assumes "list_ex (\<lambda>(e, data, input, msk, tag). \<not> np_all msk) seqs"
    and "list_all (\<lambda>(e, data, input, msk, tag). L \<le> length data \<and> length input = length data) seqs"
  shows "collect L Mi seqs = Inl MissingData"
  using assms by (induction seqs) (auto split: sum.splits if_splits)

lemma set_As_raised: "raised (set_As c v st) \<noteq> Some MissingData"
  by (simp add: set_As_def)

lemma set_Sigmas_raised: "raised (set_Sigmas chol c v st) \<noteq> Some MissingData"
  by (simp add: set_Sigmas_def Let_def split: option.splits)

lemma reinit_unused_raised: "raised (reinit_unused rng n used ks sS) \<noteq> Some MissingData"
  by (induction ks arbitrary: n sS) (auto simp: Let_def split: prod.splits)

lemma check_prior_raised: "check_prior st J0 h0 \<noteq> Some MissingData"
  by (simp add: check_prior_def split: option.splits)

lemma nm_Returned: "raised (Returned s) \<noteq> Some MissingData"
  by simp

lemma nm_Raised: "e \<noteq> MissingData \<Longrightarrow> raised (Raised e s) \<noteq> Some MissingData"
  by simp

lemma nm_option:
  "(x = None \<Longrightarrow> raised a \<noteq> Some MissingData) \<Longrightarrow>
   (\<And>y. x = Some y \<Longrightarrow> raised (b y) \<noteq> Some MissingData) \<Longrightarrow>
   raised (case x of None \<Rightarrow> a | Some y \<Rightarrow> b y) \<noteq> Some MissingData"
  by (cases x) auto

lemma nm_sum:
  "(\<And>e. x = Inl e \<Longrightarrow> raised (a e) \<noteq> Some MissingData) \<Longrightarrow>
   (\<And>y. x = Inr y \<Longrightarrow> raised (b y) \<noteq> Some MissingData) \<Longrightarrow>
   raised (case x of Inl e \<Rightarrow> a e | Inr y \<Rightarrow> b y) \<noteq> Some MissingData"
  by (cases x) auto

lemma nm_prod:
  "(\<And>a b. raised (f a b) \<noteq> Some MissingData) \<Longrightarrow>
   raised (case p of (a, b) \<Rightarrow> f a b) \<noteq> Some MissingData"
  by (cases p) auto

lemma nm_if:
  "raised a \<noteq> Some MissingData \<Longrightarrow> raised b \<noteq> Some MissingData \<Longrightarrow>
   raised (if c then a else b) \<noteq> Some MissingData"
  by simp

lemma nm_let:
  "(\<And>x. raised (f x) \<noteq> Some MissingData) \<Longrightarrow> raised (Let v f) \<noteq> Some MissingData"
  by (simp add: Let_def)

lemma nm_outcome:
  "(\<And>s. raised (f s) \<noteq> Some MissingData) \<Longrightarrow>
   (\<And>e s. x = Raised e s \<Longrightarrow> raised (g e s) \<noteq> Some MissingData) \<Longrightarrow>
   raised (case x of Returned s \<Rightarrow> f s | Raised e s \<Rightarrow> g e s) \<noteq> Some MissingData"
  by (cases x) auto

lemma nm_and_then:
  "raised r \<noteq> Some MissingData \<Longrightarrow> (\<And>s. raised (f s) \<noteq> Some MissingData) \<Longrightarrow>
   raised (and_then r f) \<noteq> Some MissingData"
  by (cases r) auto

lemmas nm_intros = nm_Returned nm_option nm_sum nm_prod nm_if nm_let nm_outcome nm_and_then

lemma raised_eq: "x = Raised e s \<Longrightarrow> raised x = Some e"
  by simp

lemma ar_m_step_no_missing:
  assumes "collect (lags st) (M st) (zip expectations (zip datas (zip inputs (zip masks tags)))) \<noteq> Inl MissingData"
  shows "raised (ar_m_step solve chol rng c st expectations datas inputs masks tags J0 h0) \<noteq> Some MissingData"
  unfolding ar_m_step_def
  apply (intro nm_intros nm_Raised set_As_raised set_Sigmas_raised)
  using assms check_prior_raised reinit_unused_raised apply (auto dest: raised_eq)
  done

lemma repeat_pass_raised:
  assumes "\<And>s. raised (f s) \<noteq> Some e"
  shows "raised (repeat_pass n f s) \<noteq> Some e"
proof (induction n arbitrary: s)
  case 0
  then show ?case by simp
next
  case (Suc n)
  show ?case
    using assms[of s] Suc by (cases "f s") auto
qed

lemma Sigmas_raised: "Sigmas c st \<noteq> Inl MissingData"
  by (simp add: Sigmas_def)

lemma robust_e_step_raised: "robust_e_step chol maha c st seqs \<noteq> Inl MissingData"
  using Sigmas_raised[of c st]
  by (auto simp: robust_e_step_def split: sum.splits option.splits)

lemma robust_em_pass_raised: "raised (robust_em_pass solve chol maha c seqs w) \<noteq> Some MissingData"
  unfolding robust_em_pass_def robust_m_part_def
  apply (intro nm_intros nm_Raised)
  using robust_e_step_raised check_prior_raised set_As_raised set_Sigmas_raised
        apply (auto dest: raised_eq)
  done


lemma robust_m_step_ar_no_missing:
  assumes "collect (lags st) (M st) (zip expectations (zip datas (zip inputs (zip masks tags)))) \<noteq> Inl MissingData"
  shows "raised (robust_m_step_ar solve chol maha c st expectations datas inputs masks tags n J0 h0)
           \<noteq> Some MissingData"
  unfolding robust_m_step_ar_def
  apply (intro nm_intros nm_Raised repeat_pass_raised robust_em_pass_raised)
  using assms apply auto
  done

lemma robust_m_step_nu_raised:
  "raised (robust_m_step_nu chol maha dig newton c st expectations datas inputs masks tags)
     \<noteq> Some MissingData"
  unfolding robust_m_step_nu_def
  apply (intro nm_intros nm_Raised)
  using Sigmas_raised[of c st] apply (auto split: sum.splits option.splits if_splits)
  done

lemma robust_m_step_no_missing:
  assumes "collect (lags st) (M st) (zip expectations (zip datas (zip inputs (zip masks tags)))) \<noteq> Inl MissingData"
  shows "raised (robust_m_step lib c st expectations datas inputs masks tags n J0 h0) \<noteq> Some MissingData"
  unfolding robust_m_step_def
  apply (intro nm_intros nm_Raised robust_m_step_nu_raised)
  using robust_m_step_ar_no_missing[OF assms] apply (auto dest: raised_eq)
  done

lemma alt_em_pass_raised: "raised (alt_em_pass solve ras c seqs st) \<noteq> Some MissingData"
  unfolding alt_em_pass_def alt_m_part_def
  apply (intro nm_intros nm_Raised)
  using set_As_raised apply (auto dest: raised_eq)
  done

lemma alt_m_step_nu_raised:
  "raised (alt_m_step_nu dig newton c st expectations datas inputs masks tags) \<noteq> Some MissingData"
  unfolding alt_m_step_nu_def
  apply (intro nm_intros nm_Raised)
  apply auto
  done

lemma alt_m_step_no_missing:
  assumes "collect (lags st) (M st) (zip expectations (zip datas (zip inputs (zip masks tags)))) \<noteq> Inl MissingData"
  shows "raised (alt_m_step lib c st expectations datas inputs masks tags n) \<noteq> Some MissingData"
  unfolding alt_m_step_def alt_m_step_ar_def
  apply (intro nm_intros nm_Raised repeat_pass_raised alt_em_pass_raised alt_m_step_nu_raised)
  using assms apply auto
  done

lemma m_step_collect_raises:
  assumes c: "c \<noteq> IndependentAutoRegressiveObservations"
    and "collect (lags st) (M st) (zip expectations (zip datas (zip inputs (zip masks tags)))) = Inl e"
  shows "m_step lib rng c st expectations datas inputs masks tags n J0 h0 = Raised e st"
  using assms
  by (cases c)
     (simp_all add: m_step_def ar_m_step_def robust_m_step_def robust_m_step_ar_def alt_m_step_def
        alt_m_step_ar_def)

lemma m_step_no_missing:
  assumes c: "c \<noteq> IndependentAutoRegressiveObservations"
    and m: "collect (lags st) (M st) (zip expectations (zip datas (zip inputs (zip masks tags)))) \<noteq> Inl MissingData"
  shows "raised (m_step lib rng c st expectations datas inputs masks tags n J0 h0) \<noteq> Some MissingData"
  using c ar_m_step_no_missing[OF m] robust_m_step_no_missing[OF m] alt_m_step_no_missing[OF m]
  by (cases c) (simp_all add: m_step_def)

lemma log_likelihoods_mask:
  assumes c: "c \<noteq> IndependentAutoRegressiveObservations"
  shows "\<not> np_all msk \<Longrightarrow> log_likelihoods lib c st data input msk = Inl MissingData"
    and "np_all msk \<Longrightarrow> log_likelihoods lib c st data input msk \<noteq> Inl MissingData"
  using c
  by (cases c;
      simp add: log_likelihoods_def ar_log_likelihoods_def diag_log_likelihoods_def
        robust_log_likelihoods_def alt_log_likelihoods_def compute_mus_def Sigmas_init_def
        Sigmas_def Let_def)+

lemma collect_missing_iff:
  "collect L Mi zs = Inl MissingData \<longleftrightarrow>
     list_ex (\<lambda>(e, data, input, msk, tag). \<not> np_all msk) zs \<and>
     list_all (\<lambda>(e, data, input, msk, tag). L \<le> length data \<and> length input - L = length data - L)
       (takeWhile (\<lambda>(e, data, input, msk, tag). np_all msk) zs)"
proof (induction zs)
  case Nil
  then show ?case by simp
next
  case (Cons z zs)
  obtain e data input msk tag where z: "z = (e, data, input, msk, tag)" by (cases z) auto
  show ?case
  proof (cases "np_all msk")
    case False
    then show ?thesis by (simp add: z)
  next
    case True
    show ?thesis
    proof (cases "length data < L \<or> length input - L \<noteq> length data - L")
      case True
      then show ?thesis using \<open>np_all msk\<close> by (auto simp: z)
    next
      case False
      have "collect L Mi (z # zs) = Inl MissingData \<longleftrightarrow> collect L Mi zs = Inl MissingData"
        using False \<open>np_all msk\<close> by (simp add: z split: sum.splits)
      then show ?thesis using False \<open>np_all msk\<close> Cons.IH by (auto simp: z)
    qed
  qed
qed

lemma indep_collect_raised: "indep_collect L Mi d zs \<noteq> Inl MissingData"
proof (induction zs)
  case Nil
  then show ?case by simp
next
  case (Cons z zs)
  obtain e data input msk where z: "z = (e, data, input, msk)" by (cases z) auto
  show ?case using Cons by (auto simp: z split: sum.splits)
qed

lemma indep_states_raised:
  "raised (indep_states solve d xs ys weights ks st) \<noteq> Some MissingData"
proof (induction ks arbitrary: st)
  case Nil
  then show ?case by simp
next
  case (Cons k ks)
  show ?case
    unfolding indep_states.simps
    apply (intro nm_intros nm_Raised Cons)
    apply simp_all
    done
qed

lemma indep_dims_raised:
  "raised (indep_dims solve zs ds st) \<noteq> Some MissingData"
proof (induction ds arbitrary: st)
  case Nil
  then show ?case by simp
next
  case (Cons d ds)
  show ?case
    unfolding indep_dims.simps
    apply (intro nm_intros nm_Raised Cons indep_states_raised)
    using indep_collect_raised apply auto
    done
qed

lemma indep_m_step_raised:
  "raised (indep_m_step solve st expectations datas inputs masks) \<noteq> Some MissingData"
  by (simp add: indep_m_step_def indep_dims_raised)

text \<open>
  Claim C3, as amended. For every class but the independent one, \<open>log_likelihoods\<close> raises
  the missing-data error exactly when the mask of the sequence is not all true, and
  \<open>m_step\<close> raises it exactly when the mask of some sequence is not all true and every
  sequence before the first such one has at least \<open>lags\<close> observations and as many input
  rows from \<open>lags\<close> on as observations (a sequence that has not makes numpy raise first);
  the object is then as it was before the call. The \<open>m_step\<close> of the independent class
  never raises the missing-data error: for each dimension it leaves out the sequences
  whose mask is not all true in that dimension.
\<close>

theorem missing_data_raises:
  "(c \<noteq> IndependentAutoRegressiveObservations \<longrightarrow>
      (log_likelihoods lib c st data input msk = Inl MissingData \<longleftrightarrow> \<not> np_all msk) \<and>
      (raised (m_step lib rng c st expectations datas inputs masks tags n J0 h0) = Some MissingData
         \<longleftrightarrow>
       list_ex (\<lambda>(e, data, input, msk, tag). \<not> np_all msk)
         (zip expectations (zip datas (zip inputs (zip masks tags)))) \<and>
       list_all (\<lambda>(e, data, input, msk, tag).
                   lags st \<le> length data \<and> length input - lags st = length data - lags st)
         (takeWhile (\<lambda>(e, data, input, msk, tag). np_all msk)
            (zip expectations (zip datas (zip inputs (zip masks tags)))))) \<and>
      (raised (m_step lib rng c st expectations datas inputs masks tags n J0 h0) = Some MissingData
         \<longrightarrow>
       m_step lib rng c st expectations datas inputs masks tags n J0 h0 = Raised MissingData st)) \<and>
   raised (m_step lib rng IndependentAutoRegressiveObservations st expectations datas inputs masks
             tags n J0 h0) \<noteq> Some MissingData \<and>
   (\<not> list_all (\<lambda>r. r ! d) msk \<longrightarrow>
      indep_collect L Mi d ((e, data, input, msk) # rest) = indep_collect L Mi d rest)"
proof -
  let ?zs = "zip expectations (zip datas (zip inputs (zip masks tags)))"
  let ?cond = "list_ex (\<lambda>(e, data, input, msk, tag). \<not> np_all msk) ?zs \<and>
       list_all (\<lambda>(e, data, input, msk, tag).
                   lags st \<le> length data \<and> length input - lags st = length data - lags st)
         (takeWhile (\<lambda>(e, data, input, msk, tag). np_all msk) ?zs)"
  let ?m = "m_step lib rng c st expectations datas inputs masks tags n J0 h0"
  have a: "(log_likelihoods lib c st data input msk = Inl MissingData \<longleftrightarrow> \<not> np_all msk) \<and>
           (raised ?m = Some MissingData \<longleftrightarrow> ?cond) \<and>
           (raised ?m = Some MissingData \<longrightarrow> ?m = Raised MissingData st)"
    if c: "c \<noteq> IndependentAutoRegressiveObservations"
  proof -
    have ll: "log_likelihoods lib c st data input msk = Inl MissingData \<longleftrightarrow> \<not> np_all msk"
      using log_likelihoods_mask[OF c, of msk lib st data input] by blast
    have coll: "collect (lags st) (M st) ?zs = Inl MissingData \<longleftrightarrow> ?cond"
      by (rule collect_missing_iff)
    have r1: "?m = Raised MissingData st" if "collect (lags st) (M st) ?zs = Inl MissingData"
      using m_step_collect_raises[OF c that] .
    have r2: "collect (lags st) (M st) ?zs = Inl MissingData" if "raised ?m = Some MissingData"
      using m_step_no_missing[OF c, of st expectations datas inputs masks tags lib rng n J0 h0] that
      by blast
    have m1: "raised ?m = Some MissingData \<longleftrightarrow> collect (lags st) (M st) ?zs = Inl MissingData"
      using r1 r2 by fastforce
    show ?thesis
      using ll m1 coll r1 r2 by presburger
  qed
  have b: "raised (m_step lib rng IndependentAutoRegressiveObservations st expectations datas
             inputs masks tags n J0 h0) \<noteq> Some MissingData"
    by (simp add: m_step_def indep_m_step_raised)
  have s: "\<not> list_all (\<lambda>r. r ! d) msk \<longrightarrow>
      indep_collect L Mi d ((e, data, input, msk) # rest) = indep_collect L Mi d rest"
    by simp
  show ?thesis using a b s by blast
qed

theorem missing_data_raises_witness:
  "\<forall>lib rng.
     log_likelihoods lib AutoRegressiveObservations ar_1d_example [[1], [2]] [[], []]
       [[True], [False]] = Inl MissingData \<and>
     log_likelihoods lib AutoRegressiveObservations ar_1d_example [[1], [2]] [[], []]
       [[True], [True]] \<noteq> Inl MissingData \<and>
     m_step lib rng AutoRegressiveObservations ar_1d_example [[[1], [1]], [[1]]]
       [[[1], [2]], [[3]]] [[[], []], [[]]] [[[True], [True]], [[False]]] [(), ()] 1 None None
       = Raised MissingData ar_1d_example \<and>
     raised (m_step lib rng AutoRegressiveObservations ar_1d_example [[[1], [1]]] [[[1], [2]]]
       [[[], []]] [[[True], [True]]] [()] 1 None None) \<noteq> Some MissingData \<and>
     raised (m_step lib rng IndependentAutoRegressiveObservations small_example [[[1, 0], [1, 0]]]
       [[[1], [2]]] [[[], []]] [[[True], [False]]] [()] 1 None None) \<noteq> Some MissingData \<and>
     indep_collect 1 0 0 [([[1, 0], [1, 0]], [[1], [2]], [[], []], [[True], [False]])] = Inr []"
proof (intro allI)
  fix lib :: numlib and rng :: "nat \<Rightarrow> draw"
  have m1: "\<not> np_all [[True], [False]]" and m2: "np_all [[True], [True]]"
    and m3: "\<not> np_all [[False]]"
    by (simp_all add: np_all_def)
  have l: "lags ar_1d_example = 1" by (simp add: ar_1d_example_def)
  note a = missing_data_raises[where c = AutoRegressiveObservations and lib = lib and rng = rng
      and st = ar_1d_example and data = "[[1], [2]]" and input = "[[], []]"
      and msk = "[[True], [False]]" and expectations = "[[[1], [1]], [[1]]]"
      and datas = "[[[1], [2]], [[3]]]" and inputs = "[[[], []], [[]]]"
      and masks = "[[[True], [True]], [[False]]]" and tags = "[(), ()]" and n = 1
      and ?J0.0 = None and ?h0.0 = None and d = 0 and L = 1 and Mi = 0
      and e = "[[1, 0], [1, 0]]" and rest = "[]"]
  note b = missing_data_raises[where c = AutoRegressiveObservations and lib = lib and rng = rng
      and st = ar_1d_example and data = "[[1], [2]]" and input = "[[], []]"
      and msk = "[[True], [True]]" and expectations = "[[[1], [1]]]"
      and datas = "[[[1], [2]]]" and inputs = "[[[], []]]"
      and masks = "[[[True], [True]]]" and tags = "[()]" and n = 1
      and ?J0.0 = None and ?h0.0 = None]
  note i = missing_data_raises[where c = IndependentAutoRegressiveObservations and lib = lib
      and rng = rng and st = small_example and expectations = "[[[1, 0], [1, 0]]]"
      and datas = "[[[1], [2]]]" and inputs = "[[[], []]]"
      and masks = "[[[True], [False]]]" and tags = "[()]" and n = 1
      and ?J0.0 = None and ?h0.0 = None, THEN conjunct2, THEN conjunct1]
  have a1: "log_likelihoods lib AutoRegressiveObservations ar_1d_example [[1], [2]] [[], []]
       [[True], [False]] = Inl MissingData"
    using a m1 by simp
  have a2: "m_step lib rng AutoRegressiveObservations ar_1d_example [[[1], [1]], [[1]]]
       [[[1], [2]], [[3]]] [[[], []], [[]]] [[[True], [True]], [[False]]] [(), ()] 1 None None
       = Raised MissingData ar_1d_example"
    using a m2 m3 by (simp add: l)
  have a3: "indep_collect 1 0 0 [([[1, 0], [1, 0]], [[1], [2]], [[], []], [[True], [False]])]
       = Inr []"
    using a by simp
  have b1: "log_likelihoods lib AutoRegressiveObservations ar_1d_example [[1], [2]] [[], []]
       [[True], [True]] \<noteq> Inl MissingData"
    using b m2 by simp
  have b2: "raised (m_step lib rng AutoRegressiveObservations ar_1d_example [[[1], [1]]]
       [[[1], [2]]] [[[], []]] [[[True], [True]]] [()] 1 None None) \<noteq> Some MissingData"
    using b m2 by simp
  show "log_likelihoods lib AutoRegressiveObservations ar_1d_example [[1], [2]] [[], []]
       [[True], [False]] = Inl MissingData \<and>
     log_likelihoods lib AutoRegressiveObservations ar_1d_example [[1], [2]] [[], []]
       [[True], [True]] \<noteq> Inl MissingData \<and>
     m_step lib rng AutoRegressiveObservations ar_1d_example [[[1], [1]], [[1]]]
       [[[1], [2]], [[3]]] [[[], []], [[]]] [[[True], [True]], [[False]]] [(), ()] 1 None None
       = Raised MissingData ar_1d_example \<and>
     raised (m_step lib rng AutoRegressiveObservations ar_1d_example [[[1], [1]]] [[[1], [2]]]
       [[[], []]] [[[True], [True]]] [()] 1 None None) \<noteq> Some MissingData \<and>
     raised (m_step lib rng IndependentAutoRegressiveObservations small_example [[[1, 0], [1, 0]]]
       [[[1], [2]]] [[[], []]] [[[True], [False]]] [()] 1 None None) \<noteq> Some MissingData \<and>
     indep_collect 1 0 0 [([[1, 0], [1, 0]], [[1], [2]], [[], []], [[True], [False]])] = Inr []"
    using a1 b1 a2 b2 i a3 by blast
qed

text \<open>
  Claim C3 as stated fails on the independent class, whose \<open>m_step\<close> leaves out, for each
  dimension, the sequences whose mask is incomplete in that dimension and fits the others:
  given one sequence with a missing entry and one complete sequence it returns the fit of
  the complete one.
\<close>

theorem missing_data_raises_counterexample:
  "indep_m_step ref_solve_vec indep_fresh_example [all_state0, all_state0] [four_steps, four_steps]
     [four_inputs, four_inputs] [[[True], [False], [True], [True]], full_mask]
     = Returned (indep_fresh_example\<lparr>bs := [[1], [0]],
                   log_sigmasq := [[ln (507/400 + 1/10^16)], [0]]\<rparr>) \<and>
   \<not> np_all [[True], [False], [True], [True]]"
proof -
  have c1: "indep_collect (Suc 0) 0 0
      [(all_state0, four_steps, four_inputs, [[True], [False], [True], [True]]),
       (all_state0, four_steps, four_inputs, full_mask)]
      = Inr [([[0, 1], [1, 1], [0, 1]], [1, 0, 1], [[1, 0], [1, 0], [1, 0]])]"
    by (simp add: all_state0_def four_steps_def four_inputs_def full_mask_def design_d_def
        lagged_def column_def)
  have s1: "ref_solve_vec [[1, 1], [1, 3]] [0, 2] = Some [-1, 1]"
    by (simp add: ref_solve_vec_def ref_solve_def pivot_index_def Let_def)
  have ms: "indep_m_step ref_solve_vec indep_fresh_example [all_state0, all_state0]
      [four_steps, four_steps] [four_inputs, four_inputs]
      [[[True], [False], [True], [True]], full_mask]
     = Returned (indep_fresh_example\<lparr>bs := [[1], [0]],
                   log_sigmasq := [[ln (507/400 + 1/10^16)], [0]]\<rparr>)"
    apply (simp add: indep_m_step_def indep_fresh_example_def c1 Let_def del: indep_collect.simps)
    apply (simp add: column_def xtwy_def s1 set_kd_def As_def dense_of_def dot_def numeral_2_eq_2
        Let_def)
    done
  show ?thesis using ms by (simp add: np_all_def)
qed

subsection \<open>The E-step of the robust classes\<close>

lemma those_Some_nth:
  "those xs = Some ys \<Longrightarrow> length ys = length xs \<and> (\<forall>i<length xs. xs ! i = Some (ys ! i))"
proof (induction xs arbitrary: ys)
  case Nil
  then show ?case by simp
next
  case (Cons x xs)
  then obtain y ys' where x: "x = Some y" and r: "those xs = Some ys'" and ys: "ys = y # ys'"
    by (auto split: option.splits)
  from Cons.IH[OF r] show ?case
    using x ys by (auto simp: nth_Cons split: nat.splits)
qed

lemma Afull_nth:
  assumes p: "params_shaped c st" and c: "c \<noteq> IndependentAutoRegressiveObservations"
    and k: "k < K st"
  shows "length (Afull c st) = K st"
    and "map (\<lambda>a. dot a xt) (Afull c st ! k) = predicted_row c st k xt"
proof -
  have A: "length (As c st) = K st" "length (As c st ! k) = D st"
    using As_shape[OF p] k by (auto simp: has_shape3_iff has_shape2_iff)
  have V: "length (Vs st) = K st" "length (Vs st ! k) = D st"
    and b: "length (bs st) = K st" "length (bs st ! k) = D st"
    using p k by (auto simp: params_shaped_def has_shape3_iff has_shape2_iff)
  show "length (Afull c st) = K st" using A V b by (simp add: Afull_def)
  have "Afull c st ! k = map (\<lambda>(a, v, b1). a @ v @ [b1]) (zip (As c st ! k) (zip (Vs st ! k) (bs st ! k)))"
    using A V b k by (simp add: Afull_def)
  then show "map (\<lambda>a. dot a xt) (Afull c st ! k) = predicted_row c st k xt"
    using A V b by (intro nth_equalityI) (auto simp: predicted_row_def)
qed

lemma predict_nth:
  assumes p: "params_shaped c st" and c: "c \<noteq> IndependentAutoRegressiveObservations"
    and t: "t < length x" and k: "k < K st"
  shows "length (predict (Afull c st) x) = length x"
    and "length (predict (Afull c st) x ! t) = K st"
    and "predict (Afull c st) x ! t ! k = predicted_row c st k (x ! t)"
  using Afull_nth[OF p c k] t k by (simp_all add: predict_def)

lemma robust_tau_nth:
  assumes p: "params_shaped c st" and c: "c \<noteq> IndependentAutoRegressiveObservations"
    and nu: "length (log_nus st) = K st" and S: "length sqrtS = K st"
    and xy: "length x = length y" and t: "t < length y" and k: "k < K st"
  shows "robust_tau maha c st sqrtS x y ! t ! k = tau_spec maha c st (sqrtS ! k) k (x ! t) (y ! t)"
proof -
  have t': "t < length x" using xy t by simp
  note pr = predict_nth[OF p c t' k]
  have beta: "robust_beta maha c st sqrtS x y ! t ! k
      = exp (log_nus st ! k) / 2 + 1 / 2 * maha (sqrtS ! k) (map2 (-) (y ! t) (predicted_row c st k (x ! t)))"
    using pr t t' k nu S by (simp add: robust_beta_def nus_def)
  have lb: "length (robust_beta maha c st sqrtS x y) = length y"
    "length (robust_beta maha c st sqrtS x y ! t) = K st"
    using pr t t' nu S xy by (simp_all add: robust_beta_def nus_def)
  have "robust_tau maha c st sqrtS x y ! t ! k
        = robust_alpha st ! k / robust_beta maha c st sqrtS x y ! t ! k"
    using lb t k nu by (simp add: robust_tau_def robust_alpha_def nus_def)
  then show ?thesis
    using beta k nu by (simp add: tau_spec_def Let_def robust_alpha_def nus_def)
qed

lemma alt_tau_nth:
  assumes p: "params_shaped c st" and c: "c \<noteq> IndependentAutoRegressiveObservations"
    and nu: "has_shape2 (K st) (D st) (log_nus_kd st)" and s: "has_shape2 (K st) (D st) (log_sigmasq st)"
    and xy: "length x = length y" and t: "t < length y" and yt: "length (y ! t) = D st"
    and k: "k < K st" and d: "d < D st"
  shows "alt_tau c st x y ! t ! k ! d = alt_tau_spec c st k d (x ! t) (y ! t)"
proof -
  have t': "t < length x" using xy t by simp
  note pr = predict_nth[OF p c t' k]
  have ln: "length (log_nus_kd st) = K st" "length (log_nus_kd st ! k) = D st"
    and ls: "length (log_sigmasq st) = K st" "length (log_sigmasq st ! k) = D st"
    using nu s k by (auto simp: has_shape2_iff)
  have lp: "length (predicted_row c st k (x ! t)) = D st" by (simp add: predicted_row_def)
  have "alt_tau c st x y ! t ! k
        = map (\<lambda>(yd, md, nud, sd). (nud / 2 + 1 / 2) / (nud / 2 + 1 / 2 * (yd - md)\<^sup>2 / sd))
            (zip (y ! t) (zip (predicted_row c st k (x ! t))
               (zip (map exp (log_nus_kd st ! k)) (map exp (log_sigmasq st ! k)))))"
    using pr t t' k ln ls by (simp add: alt_tau_def nus_kd_def sigmasq_def)
  then show ?thesis
    using d yt lp ln ls by (simp add: alt_tau_spec_def Let_def)
qed

lemma and_then_assoc: "and_then (and_then r f) g = and_then r (\<lambda>s. and_then (f s) g)"
  by (cases r) auto

lemma and_then_Returned: "and_then r Returned = r"
  by (cases r) auto

lemma repeat_pass_Suc: "repeat_pass (Suc i) f w = and_then (repeat_pass i f w) f"
proof (induction i arbitrary: w)
  case 0
  have "repeat_pass 0 f = Returned" by (rule ext) simp
  then show ?case by (simp add: and_then_Returned)
next
  case (Suc i)
  have "repeat_pass (Suc (Suc i)) f w = and_then (f w) (repeat_pass (Suc i) f)" by simp
  also have "\<dots> = and_then (f w) (\<lambda>s. and_then (repeat_pass i f s) f)"
    using Suc by presburger
  also have "\<dots> = and_then (repeat_pass (Suc i) f w) f"
    by (simp add: and_then_assoc)
  finally show ?case .
qed

lemma collect_lengths:
  "collect L Mi zs = Inr seqs \<Longrightarrow> list_all (\<lambda>(x, y, Ez). length x = length y) seqs"
proof (induction zs arbitrary: seqs)
  case Nil
  then show ?case by simp
next
  case (Cons z zs)
  obtain e data input msk tag where z: "z = (e, data, input, msk, tag)" by (cases z) auto
  from Cons.prems z obtain cs where cs: "collect L Mi zs = Inr cs"
    and seqs: "seqs = (design L Mi data input, drop L data, drop L e) # cs"
    by (auto split: if_splits sum.splits)
  from Cons.IH[OF cs] show ?case using seqs by (simp add: design_def)
qed

lemma Sigmas_state_Sigma:
  assumes c: "c \<noteq> IndependentAutoRegressiveObservations" and n: "noise_shaped c st"
  shows "\<exists>S. Sigmas c st = Inr S \<and> length S = K st \<and> (\<forall>k<K st. S ! k = state_Sigma c st k)"
  using c n by (auto simp: Sigmas_def noise_shaped_def state_Sigma_def)

lemma robust_e_step_nth:
  assumes p: "params_shaped c st" and n: "noise_shaped c st"
    and c: "c = RobustAutoRegressiveObservations \<or> c = RobustAutoRegressiveDiagonalNoiseObservations"
    and e: "robust_e_step chol maha c st seqs = Inr taus"
    and i: "i < length seqs" and xyz: "seqs ! i = (x, y, Ez)" and xy: "length x = length y"
    and t: "t < length y" and k: "k < K st"
  shows "taus ! i ! t ! k
         = tau_spec maha c st (the (chol (state_Sigma c st k))) k (x ! t) (y ! t)"
proof -
  have c': "c \<noteq> IndependentAutoRegressiveObservations" using c by auto
  have nu: "length (log_nus st) = K st" using n c by (auto simp: noise_shaped_def)
  obtain S where S: "Sigmas c st = Inr S" "length S = K st" "\<forall>k<K st. S ! k = state_Sigma c st k"
    using Sigmas_state_Sigma[OF c' n] by blast
  have ne: "seqs \<noteq> []" using i by auto
  from e ne S(1) obtain sqrtS where sq: "those (map chol S) = Some sqrtS"
    and taus: "taus = map (\<lambda>(x, y, Ez). robust_tau maha c st sqrtS x y) seqs"
    by (auto simp: robust_e_step_def split: option.splits if_splits)
  from those_Some_nth[OF sq] have ls: "length sqrtS = K st"
    and sk: "chol (S ! k) = Some (sqrtS ! k)"
    using S(2) k by auto
  have "taus ! i = robust_tau maha c st sqrtS x y" using taus i xyz by simp
  then show ?thesis
    using robust_tau_nth[OF p c' nu ls xy t k, of maha] sk S(3) k by simp
qed

lemma robust_2d_collect:
  "collect (lags robust_2d_example) (M robust_2d_example)
     (zip [[[1, 0], [1, 0]]] (zip [[[0, 0], [2, 0]]] (zip [[[], []]]
        (zip [[[True, True], [True, True]]] [()]))))
   = Inr [([[0, 0, 1]], [[2, 0]], [[1, 0]])]"
  by (simp add: robust_2d_example_def np_all_def design_def lagged_def)

lemma alt_2d_collect:
  "collect (lags alt_2d_example) (M alt_2d_example)
     (zip [[[1, 0], [1, 0]]] (zip [[[0, 0], [2, 0]]] (zip [[[], []]]
        (zip [[[True, True], [True, True]]] [()]))))
   = Inr [([[0, 0, 1]], [[2, 0]], [[1, 0]])]"
  by (simp add: alt_2d_example_def np_all_def design_def lagged_def)

lemma robust_2d_shaped:
  "params_shaped RobustAutoRegressiveObservations robust_2d_example"
  "noise_shaped RobustAutoRegressiveObservations robust_2d_example"
  "K robust_2d_example = 2" "D robust_2d_example = 2"
  by (simp_all add: params_shaped_def noise_shaped_def robust_2d_example_def has_shape2_def
      has_shape3_def stores_sqrt_def)

lemma alt_2d_shaped:
  "params_shaped AltRobustAutoRegressiveDiagonalNoiseObservations alt_2d_example"
  "noise_shaped AltRobustAutoRegressiveDiagonalNoiseObservations alt_2d_example"
  "has_shape2 (K alt_2d_example) (D alt_2d_example) (log_nus_kd alt_2d_example)"
  "has_shape2 (K alt_2d_example) (D alt_2d_example) (log_sigmasq alt_2d_example)"
  "K alt_2d_example = 2" "D alt_2d_example = 2"
  by (simp_all add: params_shaped_def noise_shaped_def alt_2d_example_def has_shape2_def
      has_shape3_def stores_sqrt_def)

lemma ref_cholesky_2d:
  "ref_cholesky [[1, 0], [0, 1]] = Some [[1, 0], [0, 1]]"
  "ref_cholesky [[4, 0], [0, 4]] = Some [[2, 0], [0, 2]]"
  by (simp_all add: ref_cholesky_def dot_def Let_def)

lemma ref_mahalanobis_2d:
  "ref_mahalanobis [[1, 0], [0, 1]] [2, 0] = 4"
  "ref_mahalanobis [[2, 0], [0, 2]] [1, -1] = 1/2"
  by (simp_all add: ref_mahalanobis_def dot_def Let_def)

lemma robust_2d_predict:
  "predict (Afull RobustAutoRegressiveObservations robust_2d_example) [[0, 0, 1]]
   = [[[0, 0], [1, 1]]]"
  by (simp add: predict_def Afull_def As_def robust_2d_example_def dot_def)

lemma robust_2d_Sigmas:
  "Sigmas RobustAutoRegressiveObservations robust_2d_example
   = Inr [[[1, 0], [0, 1]], [[4, 0], [0, 4]]]"
  by (simp add: Sigmas_def stores_sqrt_def robust_2d_example_def matmul_T_def dot_def)

lemma robust_2d_e_step:
  "robust_e_step ref_cholesky ref_mahalanobis RobustAutoRegressiveObservations robust_2d_example
     [([[0, 0, 1]], [[2, 0]], [[1, 0]])] = Inr [[[3/4, 8/5]]]"
proof -
  have nu: "nus robust_2d_example = [4, 2]" by (simp add: nus_def robust_2d_example_def)
  have beta: "robust_beta ref_mahalanobis RobustAutoRegressiveObservations robust_2d_example
      [[[1, 0], [0, 1]], [[2, 0], [0, 2]]] [[0, 0, 1]] [[2, 0]] = [[4, 5/4]]"
    by (simp add: robust_beta_def robust_2d_predict nu ref_mahalanobis_2d)
  have tau: "robust_tau ref_mahalanobis RobustAutoRegressiveObservations robust_2d_example
      [[[1, 0], [0, 1]], [[2, 0], [0, 2]]] [[0, 0, 1]] [[2, 0]] = [[3/4, 8/5]]"
    by (simp add: robust_tau_def beta robust_alpha_def nu robust_2d_shaped)
  show ?thesis
    by (simp add: robust_e_step_def robust_2d_Sigmas ref_cholesky_2d beta tau)
qed

lemma alt_2d_tau:
  "alt_tau AltRobustAutoRegressiveDiagonalNoiseObservations alt_2d_example [[0, 0, 1]] [[2, 0]]
   = [[[5/8, 3/2], [6/5, 10/9]]]"
proof -
  have pr: "predict (Afull AltRobustAutoRegressiveDiagonalNoiseObservations alt_2d_example)
      [[0, 0, 1]] = [[[0, 0], [1, 1]]]"
    by (simp add: predict_def Afull_def As_def alt_2d_example_def dot_def)
  have nu: "nus_kd alt_2d_example = [[4, 2], [2, 4]]" "sigmasq alt_2d_example = [[1, 1], [2, 2]]"
    by (simp_all add: nus_kd_def sigmasq_def alt_2d_example_def)
  show ?thesis by (simp add: alt_tau_def pr nu)
qed

text \<open>
  Claim C4. \<open>_m_step_ar\<close> of the robust classes with \<open>j + 1\<close> passes of the inner EM loop is
  \<open>_m_step_ar\<close> with \<open>j\<close> passes followed by one more pass, and that pass is the E-step
  evaluated on the object as the first \<open>j\<close> passes left it, followed by the M-step with the
  \<open>tau\<close> of that E-step. On an object \<open>cur\<close> with parameters of the shapes of its class, the
  E-step computes the posterior mean of \<open>tau\<close> as \<open>alpha / beta\<close>: for the two classes built
  on the mixin, \<open>alpha = nu / 2 + D / 2\<close> and \<open>beta = nu / 2 + 1/2\<close> times the squared
  Mahalanobis distance, under the Cholesky factor of the state's covariance, of the
  observation from its predicted mean; for the Alt class, per dimension,
  \<open>alpha = nu / 2 + 1/2\<close> and \<open>beta = nu / 2 + 1/2\<close> times the squared residual divided by
  the variance.
\<close>

theorem e_step_posterior_mean:
  assumes coll: "collect (lags st) (M st)
                   (zip expectations (zip datas (zip inputs (zip masks tags)))) = Inr seqs"
    and p: "params_shaped c cur" and n: "noise_shaped c cur"
    and i: "i < length seqs" and xyz: "seqs ! i = (x, y, Ez)"
    and t: "t < length y" and k: "k < K cur" and d: "d < D cur"
  shows "(c = RobustAutoRegressiveObservations \<or> c = RobustAutoRegressiveDiagonalNoiseObservations \<longrightarrow>
            robust_m_step_ar solve chol maha c st expectations datas inputs masks tags (Suc j) J0 h0
            = and_then
                (robust_m_step_ar solve chol maha c st expectations datas inputs masks tags j J0 h0)
                (\<lambda>w. case robust_e_step chol maha c (fst w) seqs of
                        Inl e \<Rightarrow> Raised e w
                      | Inr taus' \<Rightarrow> robust_m_part solve chol c seqs taus' w) \<and>
            (robust_e_step chol maha c cur seqs = Inr taus \<longrightarrow>
             taus ! i ! t ! k
             = tau_spec maha c cur (the (chol (state_Sigma c cur k))) k (x ! t) (y ! t))) \<and>
         (c = AltRobustAutoRegressiveDiagonalNoiseObservations \<longrightarrow>
            alt_m_step_ar solve_vec ras c st expectations datas inputs masks tags (Suc j)
            = and_then
                (alt_m_step_ar solve_vec ras c st expectations datas inputs masks tags j)
                (\<lambda>s. alt_m_part solve_vec ras c seqs
                        (map (\<lambda>(x, y, Ez). alt_tau c s x y) seqs) s) \<and>
            (has_shape2 (K cur) (D cur) (log_nus_kd cur) \<longrightarrow>
             has_shape2 (K cur) (D cur) (log_sigmasq cur) \<longrightarrow> length (y ! t) = D cur \<longrightarrow>
             map (\<lambda>(x, y, Ez). alt_tau c cur x y) seqs ! i ! t ! k ! d
             = alt_tau_spec c cur k d (x ! t) (y ! t)))"
proof -
  have xy: "length x = length y"
    using collect_lengths[OF coll] i xyz by (auto simp: list_all_length)
  have a: "robust_e_step chol maha c cur seqs = Inr taus \<longrightarrow>
            taus ! i ! t ! k
            = tau_spec maha c cur (the (chol (state_Sigma c cur k))) k (x ! t) (y ! t)"
    if "c = RobustAutoRegressiveObservations \<or> c = RobustAutoRegressiveDiagonalNoiseObservations"
    using robust_e_step_nth[OF p n that _ i xyz xy t k] by blast
  have b: "has_shape2 (K cur) (D cur) (log_nus_kd cur) \<longrightarrow>
            has_shape2 (K cur) (D cur) (log_sigmasq cur) \<longrightarrow> length (y ! t) = D cur \<longrightarrow>
            map (\<lambda>(x, y, Ez). alt_tau c cur x y) seqs ! i ! t ! k ! d
            = alt_tau_spec c cur k d (x ! t) (y ! t)"
    if c: "c = AltRobustAutoRegressiveDiagonalNoiseObservations"
  proof (intro impI)
    assume nu: "has_shape2 (K cur) (D cur) (log_nus_kd cur)"
      and sg: "has_shape2 (K cur) (D cur) (log_sigmasq cur)" and yt: "length (y ! t) = D cur"
    have c': "c \<noteq> IndependentAutoRegressiveObservations" using c by simp
    have "map (\<lambda>(x, y, Ez). alt_tau c cur x y) seqs ! i = alt_tau c cur x y"
      using i xyz by simp
    then show "map (\<lambda>(x, y, Ez). alt_tau c cur x y) seqs ! i ! t ! k ! d
            = alt_tau_spec c cur k d (x ! t) (y ! t)"
      using alt_tau_nth[OF p c' nu sg xy t yt k d] by simp
  qed
  have r: "robust_em_pass solve chol maha c seqs
           = (\<lambda>w. case robust_e_step chol maha c (fst w) seqs of
                     Inl e \<Rightarrow> Raised e w
                   | Inr taus' \<Rightarrow> robust_m_part solve chol c seqs taus' w)"
    by (rule ext) (simp add: robust_em_pass_def)
  have l: "alt_em_pass solve_vec ras c seqs
           = (\<lambda>s. alt_m_part solve_vec ras c seqs (map (\<lambda>(x, y, Ez). alt_tau c s x y) seqs) s)"
    by (rule ext) (simp add: alt_em_pass_def)
  have c3: "robust_m_step_ar solve chol maha c st expectations datas inputs masks tags (Suc j) J0 h0
            = and_then
                (robust_m_step_ar solve chol maha c st expectations datas inputs masks tags j J0 h0)
                (\<lambda>w. case robust_e_step chol maha c (fst w) seqs of
                        Inl e \<Rightarrow> Raised e w
                      | Inr taus' \<Rightarrow> robust_m_part solve chol c seqs taus' w)"
    unfolding robust_m_step_ar_def coll sum.case
    using repeat_pass_Suc[of j "robust_em_pass solve chol maha c seqs" "(st, J0, h0)"]
    by (simp only: r)
  have c4: "alt_m_step_ar solve_vec ras c st expectations datas inputs masks tags (Suc j)
            = and_then
                (alt_m_step_ar solve_vec ras c st expectations datas inputs masks tags j)
                (\<lambda>s. alt_m_part solve_vec ras c seqs
                        (map (\<lambda>(x, y, Ez). alt_tau c s x y) seqs) s)"
    unfolding alt_m_step_ar_def coll sum.case
    using repeat_pass_Suc[of j "alt_em_pass solve_vec ras c seqs" st]
    by (simp only: l)
  from a b c3 c4 show ?thesis by blast
qed

theorem e_step_posterior_mean_witness:
  "\<forall>ras.
   robust_e_step ref_cholesky ref_mahalanobis RobustAutoRegressiveObservations robust_2d_example
     [([[0, 0, 1]], [[2, 0]], [[1, 0]])] = Inr [[[3/4, 8/5]]] \<and>
   tau_spec ref_mahalanobis RobustAutoRegressiveObservations robust_2d_example
     (the (ref_cholesky (state_Sigma RobustAutoRegressiveObservations robust_2d_example 0)))
     0 [0, 0, 1] [2, 0] = 3/4 \<and>
   tau_spec ref_mahalanobis RobustAutoRegressiveObservations robust_2d_example
     (the (ref_cholesky (state_Sigma RobustAutoRegressiveObservations robust_2d_example 1)))
     1 [0, 0, 1] [2, 0] = 8/5 \<and>
   robust_m_step_ar ref_solve ref_cholesky ref_mahalanobis RobustAutoRegressiveObservations
     robust_2d_example [[[1, 0], [1, 0]]] [[[0, 0], [2, 0]]] [[[], []]]
     [[[True, True], [True, True]]] [()] (Suc 0) None None
   = robust_m_part ref_solve ref_cholesky RobustAutoRegressiveObservations
       [([[0, 0, 1]], [[2, 0]], [[1, 0]])] [[[3/4, 8/5]]] (robust_2d_example, None, None) \<and>
   alt_tau AltRobustAutoRegressiveDiagonalNoiseObservations alt_2d_example [[0, 0, 1]] [[2, 0]]
     = [[[5/8, 3/2], [6/5, 10/9]]] \<and>
   alt_tau_spec AltRobustAutoRegressiveDiagonalNoiseObservations alt_2d_example 1 1 [0, 0, 1] [2, 0]
     = 10/9 \<and>
   alt_m_step_ar ref_solve_vec ras AltRobustAutoRegressiveDiagonalNoiseObservations
     alt_2d_example [[[1, 0], [1, 0]]] [[[0, 0], [2, 0]]] [[[], []]]
     [[[True, True], [True, True]]] [()] (Suc 0)
   = alt_m_part ref_solve_vec ras AltRobustAutoRegressiveDiagonalNoiseObservations
       [([[0, 0, 1]], [[2, 0]], [[1, 0]])] [[[[5/8, 3/2], [6/5, 10/9]]]] alt_2d_example"
proof (intro allI)
  fix ras :: "mat \<Rightarrow> arr3 \<Rightarrow> mat \<Rightarrow> mat \<Rightarrow> arr3 list \<times> arr3 \<Rightarrow> arr3 list \<times> arr3"
  let ?R = "RobustAutoRegressiveObservations"
  let ?A = "AltRobustAutoRegressiveDiagonalNoiseObservations"
  note a0 = e_step_posterior_mean [OF robust_2d_collect robust_2d_shaped(1) robust_2d_shaped(2),
      where i = 0 and x = "[[0, 0, 1]]" and y = "[[2, 0]]" and Ez = "[[1, 0]]" and t = 0
        and k = 0 and d = 0 and chol = ref_cholesky and maha = ref_mahalanobis
        and taus = "[[[3/4, 8/5]]]" and j = 0 and solve = ref_solve
        and ?J0.0 = None and ?h0.0 = None, THEN conjunct1]
  note a1 = e_step_posterior_mean [OF robust_2d_collect robust_2d_shaped(1) robust_2d_shaped(2),
      where i = 0 and x = "[[0, 0, 1]]" and y = "[[2, 0]]" and Ez = "[[1, 0]]" and t = 0
        and k = 1 and d = 0 and chol = ref_cholesky and maha = ref_mahalanobis
        and taus = "[[[3/4, 8/5]]]" and j = 0 and solve = ref_solve
        and ?J0.0 = None and ?h0.0 = None, THEN conjunct1]
  note b = e_step_posterior_mean [OF alt_2d_collect alt_2d_shaped(1) alt_2d_shaped(2),
      where i = 0 and x = "[[0, 0, 1]]" and y = "[[2, 0]]" and Ez = "[[1, 0]]" and t = 0
        and k = 1 and d = 1 and j = 0 and solve_vec = ref_solve_vec and ras = ras,
      THEN conjunct2]
  have r0: "robust_m_step_ar ref_solve ref_cholesky ref_mahalanobis ?R
     robust_2d_example [[[1, 0], [1, 0]]] [[[0, 0], [2, 0]]] [[[], []]]
     [[[True, True], [True, True]]] [()] 0 None None = Returned (robust_2d_example, None, None)"
    unfolding robust_m_step_ar_def robust_2d_collect by simp
  have l0: "alt_m_step_ar ref_solve_vec ras ?A
     alt_2d_example [[[1, 0], [1, 0]]] [[[0, 0], [2, 0]]] [[[], []]]
     [[[True, True], [True, True]]] [()] 0 = Returned alt_2d_example"
    unfolding alt_m_step_ar_def alt_2d_collect by simp
  have w2: "tau_spec ref_mahalanobis ?R robust_2d_example
     (the (ref_cholesky (state_Sigma ?R robust_2d_example 0))) 0 [0, 0, 1] [2, 0] = 3/4"
    using a0 robust_2d_e_step by (simp add: robust_2d_shaped)
  have w3: "tau_spec ref_mahalanobis ?R robust_2d_example
     (the (ref_cholesky (state_Sigma ?R robust_2d_example 1))) 1 [0, 0, 1] [2, 0] = 8/5"
    using a1 robust_2d_e_step by (simp add: robust_2d_shaped)
  have w4: "robust_m_step_ar ref_solve ref_cholesky ref_mahalanobis ?R
     robust_2d_example [[[1, 0], [1, 0]]] [[[0, 0], [2, 0]]] [[[], []]]
     [[[True, True], [True, True]]] [()] (Suc 0) None None
   = robust_m_part ref_solve ref_cholesky ?R
       [([[0, 0, 1]], [[2, 0]], [[1, 0]])] [[[3/4, 8/5]]] (robust_2d_example, None, None)"
    using a0 by (simp add: r0 robust_2d_e_step robust_2d_shaped(3,4))
  have w6: "alt_tau_spec ?A alt_2d_example 1 1 [0, 0, 1] [2, 0] = 10/9"
    using b alt_2d_shaped(3,4) by (simp add: alt_2d_shaped(5,6) alt_2d_tau)
  have w7: "alt_m_step_ar ref_solve_vec ras ?A
     alt_2d_example [[[1, 0], [1, 0]]] [[[0, 0], [2, 0]]] [[[], []]]
     [[[True, True], [True, True]]] [()] (Suc 0)
   = alt_m_part ref_solve_vec ras ?A
       [([[0, 0, 1]], [[2, 0]], [[1, 0]])] [[[[5/8, 3/2], [6/5, 10/9]]]] alt_2d_example"
    using b by (simp add: l0 alt_2d_tau alt_2d_shaped(5,6))
  show "robust_e_step ref_cholesky ref_mahalanobis ?R robust_2d_example
     [([[0, 0, 1]], [[2, 0]], [[1, 0]])] = Inr [[[3/4, 8/5]]] \<and>
   tau_spec ref_mahalanobis ?R robust_2d_example
     (the (ref_cholesky (state_Sigma ?R robust_2d_example 0))) 0 [0, 0, 1] [2, 0] = 3/4 \<and>
   tau_spec ref_mahalanobis ?R robust_2d_example
     (the (ref_cholesky (state_Sigma ?R robust_2d_example 1))) 1 [0, 0, 1] [2, 0] = 8/5 \<and>
   robust_m_step_ar ref_solve ref_cholesky ref_mahalanobis ?R
     robust_2d_example [[[1, 0], [1, 0]]] [[[0, 0], [2, 0]]] [[[], []]]
     [[[True, True], [True, True]]] [()] (Suc 0) None None
   = robust_m_part ref_solve ref_cholesky ?R
       [([[0, 0, 1]], [[2, 0]], [[1, 0]])] [[[3/4, 8/5]]] (robust_2d_example, None, None) \<and>
   alt_tau ?A alt_2d_example [[0, 0, 1]] [[2, 0]] = [[[5/8, 3/2], [6/5, 10/9]]] \<and>
   alt_tau_spec ?A alt_2d_example 1 1 [0, 0, 1] [2, 0] = 10/9 \<and>
   alt_m_step_ar ref_solve_vec ras ?A
     alt_2d_example [[[1, 0], [1, 0]]] [[[0, 0], [2, 0]]] [[[], []]]
     [[[True, True], [True, True]]] [()] (Suc 0)
   = alt_m_part ref_solve_vec ras ?A
       [([[0, 0, 1]], [[2, 0]], [[1, 0]])] [[[[5/8, 3/2], [6/5, 10/9]]]] alt_2d_example"
    by (intro conjI robust_2d_e_step w2 w3 w4 alt_2d_tau w6 w7)
qed

end
